theory Spec2Isabelle
  imports Main "HOL-Library.AList" "HOL-Library.Multiset"
begin

section \<open>JavaScript values and strings\<close>

text \<open>
  A shallow embedding of the SMTP tool server: \<^verbatim>\<open>config.ts\<close> (the document store),
  \<^verbatim>\<open>emailService.ts\<close> (template rendering, the send and bulk pipelines) and
  \<^verbatim>\<open>requestHandler.ts\<close> (the CRUD handlers that keep the default flags).

  Strings are \<open>char list\<close>; a \<open>char\<close> stands for a code unit below 256. Optional fields
  (\<^verbatim>\<open>name?: string\<close>) are \<open>option\<close> values, \<open>None\<close> being \<^verbatim>\<open>undefined\<close>.
\<close>

text \<open>
  The values a \<^verbatim>\<open>Record<string, any>\<close> of template data may hold. \<^verbatim>\<open>processTemplate\<close>
  uses a value in two ways only, \<^verbatim>\<open>value !== undefined\<close> and \<^verbatim>\<open>String(value)\<close>. A number is
  a double: \<open>JNumber\<close> is a safe integer (\<^verbatim>\<open>Number.isSafeInteger\<close>: an integer of
  magnitude at most \<open>2\<^sup>5\<^sup>3 - 1\<close>), which \<^verbatim>\<open>String\<close> prints as its decimal digits. Every
  other value for which \<^verbatim>\<open>String\<close> returns (any other number, an array, an object, a
  function) is a \<open>JOther\<close>, known by the text \<^verbatim>\<open>String\<close> returns for it.
\<close>

typedef safe_integer = "{n :: int. - 9007199254740991 \<le> n \<and> n \<le> 9007199254740991}"
  by (rule exI [of _ 0]) simp

datatype jsval = JUndefined | JNull | JBool bool | JNumber safe_integer | JString string | JOther string

text \<open>The decimal text of an integer, as a template literal or \<^verbatim>\<open>String\<close> prints it.\<close>

fun show_nat :: "nat \<Rightarrow> string" where
  "show_nat n =
     (if n < 10 then [''0123456789'' ! n]
      else show_nat (n div 10) @ [''0123456789'' ! (n mod 10)])"

declare show_nat.simps [simp del]

definition show_int :: "int \<Rightarrow> string" where
  "show_int i = (if i < 0 then CHR ''-'' # show_nat (nat (- i)) else show_nat (nat i))"

text \<open>\<^verbatim>\<open>String(v)\<close>: what \<^verbatim>\<open>String.prototype.replace\<close> does with a callback's result.\<close>

fun js_to_string :: "jsval \<Rightarrow> string" where
  "js_to_string JUndefined = ''undefined''"
| "js_to_string JNull = ''null''"
| "js_to_string (JBool b) = (if b then ''true'' else ''false'')"
| "js_to_string (JNumber i) = show_int (Rep_safe_integer i)"
| "js_to_string (JString s) = s"
| "js_to_string (JOther text) = text"

text \<open>
  A plain object used as a dictionary is a map from its own keys to values. The template
  data of a call is parsed from JSON, or is the \<^verbatim>\<open>{}\<close> of the default parameter, or is built
  by an object literal: its prototype is \<^verbatim>\<open>Object.prototype\<close>. \<^verbatim>\<open>data[k]\<close> is the own property
  \<open>k\<close> when the object has one, and the member \<open>k\<close> of \<^verbatim>\<open>Object.prototype\<close> otherwise: one of
  its built-in functions, the prototype itself for \<^verbatim>\<open>__proto__\<close>, and \<^verbatim>\<open>undefined\<close> for every
  other key.
\<close>

type_synonym template_data = "string \<rightharpoonup> jsval"

definition native_function :: "string \<Rightarrow> jsval" where
  "native_function name = JOther (''function '' @ name @ ''() { [native code] }'')"

definition Object_prototype :: "string \<Rightarrow> jsval" where
  "Object_prototype k =
     (if k = ''constructor'' then native_function ''Object''
      else if k \<in> set [''__defineGetter__'', ''__defineSetter__'', ''hasOwnProperty'',
                         ''__lookupGetter__'', ''__lookupSetter__'', ''isPrototypeOf'',
                         ''propertyIsEnumerable'', ''toString'', ''valueOf'', ''toLocaleString'']
      then native_function k
      else if k = ''__proto__'' then JOther ''[object Object]''
      else JUndefined)"

definition js_get :: "template_data \<Rightarrow> string \<Rightarrow> jsval" where
  "js_get d k = (case d k of None \<Rightarrow> Object_prototype k | Some v \<Rightarrow> v)"

text \<open>\<^verbatim>\<open>String.prototype.trim\<close> on the white space below code unit 256.\<close>

definition js_space :: "char \<Rightarrow> bool" where
  "js_space c = (c \<in> set [CHR 0x09, CHR 0x0A, CHR 0x0B, CHR 0x0C, CHR 0x0D, CHR 0x20, CHR 0xA0])"

definition js_trim :: "string \<Rightarrow> string" where
  "js_trim s = rev (dropWhile js_space (rev (dropWhile js_space s)))"

text \<open>Truthiness of an optional string: \<^verbatim>\<open>undefined\<close> and \<^verbatim>\<open>''\<close> are falsy.\<close>

fun truthy :: "string option \<Rightarrow> bool" where
  "truthy None = False"
| "truthy (Some s) = (s \<noteq> [])"

text \<open>\<^verbatim>\<open>x || dflt\<close> on an optional string.\<close>

definition or_else :: "string option \<Rightarrow> string \<Rightarrow> string" where
  "or_else x dflt = (case x of None \<Rightarrow> dflt | Some s \<Rightarrow> if s = [] then dflt else s)"

text \<open>
  \<^verbatim>\<open>Array.prototype.slice(start, end)\<close> with integer arguments: a negative index counts
  from the end, both are clamped to the array.
\<close>

definition js_slice :: "'a list \<Rightarrow> int \<Rightarrow> int \<Rightarrow> 'a list" where
  "js_slice xs start fin =
     (let n = int (length xs);
          k = (if start < 0 then max (n + start) 0 else min start n);
          e = (if fin < 0 then max (n + fin) 0 else min fin n)
      in take (nat (e - k)) (drop (nat k) xs))"

section \<open>Template rendering (emailService.ts, processTemplate)\<close>

text \<open>
  \<^verbatim>\<open>template.replace(/\{\{([^}]+)\}\}/g, (match, key) => ...)\<close>.
  The regular expression matches at a position when the text there is \<^verbatim>\<open>{{\<close>, then a
  non-empty run of characters other than \<^verbatim>\<open>}\<close>, then \<^verbatim>\<open>}}\<close>. The run is greedy and
  every character that could end it is a \<^verbatim>\<open>}\<close>, so only the longest run can be followed
  by \<^verbatim>\<open>}}\<close>: no backtracking is needed. \<open>match_placeholder\<close> returns the captured
  key and the text after the match.
\<close>

fun match_placeholder :: "string \<Rightarrow> (string \<times> string) option" where
  "match_placeholder (a # b # s) =
     (if a = CHR ''{'' \<and> b = CHR ''{'' then
        (let key = takeWhile (\<lambda>c. c \<noteq> CHR ''}'') s;
             r = dropWhile (\<lambda>c. c \<noteq> CHR ''}'') s
         in if key \<noteq> [] \<and> take 2 r = ''}}'' then Some (key, drop 2 r) else None)
      else None)"
| "match_placeholder _ = None"

text \<open>The callback: the value's string form, or the matched text when the value is undefined.\<close>

definition replace_match :: "template_data \<Rightarrow> string \<Rightarrow> string" where
  "replace_match d key =
     (let v = js_get d (js_trim key)
      in if v \<noteq> JUndefined then js_to_string v else ''{{'' @ key @ ''}}'')"

text \<open>
  The global replace scans left to right; after a match it goes on behind the match, and
  the replacement text is not scanned again.
\<close>

function processTemplate :: "string \<Rightarrow> template_data \<Rightarrow> string" where
  "processTemplate [] d = []"
| "processTemplate (c # s) d =
     (case match_placeholder (c # s) of
        Some (key, r) \<Rightarrow> replace_match d key @ processTemplate r d
      | None \<Rightarrow> c # processTemplate s d)"
  by pat_completeness auto
termination
proof (relation "measure (\<lambda>(s, d). length s)")
  fix c :: char and s key r :: string and d :: template_data and x2 :: "string \<times> string"
  assume m: "match_placeholder (c # s) = Some x2" and x2: "(key, r) = x2"
  show "((r, d), c # s, d) \<in> measure (\<lambda>(s, d). length s)"
  proof (cases s)
    case Nil
    with m show ?thesis by simp
  next
    case (Cons b t)
    have "length (dropWhile (\<lambda>c. c \<noteq> CHR ''}'') t) \<le> length t"
      by (rule length_dropWhile_le)
    with Cons m x2 show ?thesis
      by (auto simp: Let_def split: if_splits)
  qed
qed auto


section \<open>Data model (config.ts, emailService.ts)\<close>

record SmtpAuth =
  auth_user :: string
  auth_pass :: string

record SmtpServerConfig =
  sc_id :: string
  sc_name :: string
  sc_host :: string
  sc_port :: int
  sc_secure :: bool
  sc_auth :: SmtpAuth
  sc_isDefault :: bool

record RateLimitConfig =
  rl_enabled :: bool
  rl_messagesPerMinute :: int

text \<open>
  The configuration document. \<^verbatim>\<open>getSmtpConfigs\<close> allows for a document without
  \<^verbatim>\<open>smtpServers\<close>, so the field is optional; \<open>otherFields\<close> holds every top-level
  field of the document that the interface does not name, as key and raw text.
\<close>

record SmtpConfig =
  smtpServers :: "SmtpServerConfig list option"
  rateLimit :: RateLimitConfig
  otherFields :: "(string \<times> string) list"

record EmailTemplate =
  et_id :: string
  et_name :: string
  et_subject :: string
  et_body :: string
  et_isDefault :: bool

text \<open>The timestamp of a log entry is the clock reading, not its ISO-8601 text.\<close>

record EmailLogEntry =
  le_timestamp :: nat
  le_smtpConfig :: string
  le_templateId :: "string option"
  le_recipient :: string
  le_subject :: string
  le_success :: bool
  le_message :: "string option"

record EmailRecipient =
  er_email :: string
  er_name :: "string option"

text \<open>\<^verbatim>\<open>to: EmailRecipient | EmailRecipient[]\<close>.\<close>

datatype to_field = Single EmailRecipient | Several "EmailRecipient list"

record EmailData =
  ed_to :: to_field
  ed_subject :: string
  ed_body :: string
  ed_from :: "EmailRecipient option"
  ed_cc :: "EmailRecipient list option"
  ed_bcc :: "EmailRecipient list option"
  ed_templateId :: "string option"
  ed_templateData :: "template_data option"

record BulkEmailData =
  bd_recipients :: "EmailRecipient list"
  bd_subject :: string
  bd_body :: string
  bd_from :: "EmailRecipient option"
  bd_cc :: "EmailRecipient list option"
  bd_bcc :: "EmailRecipient list option"
  bd_templateId :: "string option"
  bd_templateData :: "template_data option"
  bd_batchSize :: "int option"
  bd_delayBetweenBatches :: "int option"

definition DEFAULT_SMTP_CONFIG :: SmtpConfig where
  "DEFAULT_SMTP_CONFIG =
     \<lparr>smtpServers = Some
        [\<lparr>sc_id = ''aws-ses'', sc_name = ''AWS SES'',
          sc_host = ''email-smtp.us-east-1.amazonaws.com'', sc_port = 587, sc_secure = False,
          sc_auth = \<lparr>auth_user = ''AKIAXXXXXXXXXXX'', auth_pass = ''XXXXXXXXXXXXXXXX''\<rparr>,
          sc_isDefault = True\<rparr>,
         \<lparr>sc_id = ''gmail'', sc_name = ''Gmail SMTP'',
          sc_host = ''smtp.gmail.com'', sc_port = 587, sc_secure = False,
          sc_auth = \<lparr>auth_user = ''eugproductions@gmail.com'', auth_pass = ''rovt fswq crlv bhzk''\<rparr>,
          sc_isDefault = False\<rparr>],
      rateLimit = \<lparr>rl_enabled = True, rl_messagesPerMinute = 30\<rparr>,
      otherFields = []\<rparr>"

definition DEFAULT_smtpServers :: "SmtpServerConfig list" where
  "DEFAULT_smtpServers = (case smtpServers DEFAULT_SMTP_CONFIG of Some cs \<Rightarrow> cs | None \<Rightarrow> [])"

definition DEFAULT_TEMPLATE :: EmailTemplate where
  "DEFAULT_TEMPLATE =
     \<lparr>et_id = ''default'', et_name = ''Default Template'', et_subject = ''Default Subject'',
      et_body =
        ''Hello {{name}},\<newline>\<newline>'' @
        ''This is a default email template.\<newline>\<newline>'' @
        ''Best regards,\<newline>'' @
        ''The Team'',
      et_isDefault = True\<rparr>"

definition IE_TEMPLATE :: EmailTemplate where
  "IE_TEMPLATE =
     \<lparr>et_id = ''ie-outreach'', et_name = ''IE Business School Outreach'',
      et_subject = ''Exclusive AI & Data Science Opportunity - IE Business School Students'',
      et_body =
        ''Dear {{name}},\<newline>\<newline>'' @
        ''I hope this email finds you well. I'm reaching out to a select group of IE Business School students in the Business Analytics & Big Data program.\<newline>\<newline>'' @
        ''We're looking for data science and AI enthusiasts to join our growing team for exciting projects combining business analytics with cutting-edge AI solutions.\<newline>\<newline>'' @
        ''Would you be available for a brief call to discuss this opportunity? I'd love to learn more about your experience and interests.\<newline>\<newline>'' @
        ''Best regards,\<newline>'' @
        ''The Indosy Team\<newline>'' @
        ''hello@indosy.com'',
      et_isDefault = False\<rparr>"

definition ESADE_TEMPLATE :: EmailTemplate where
  "ESADE_TEMPLATE =
     \<lparr>et_id = ''esade-outreach'', et_name = ''ESADE Business School Outreach'',
      et_subject = ''AI & Data Science Opportunity for ESADE Students'',
      et_body =
        ''Dear {{name}},\<newline>\<newline>'' @
        ''I hope your studies at ESADE Business School are going well. I'm reaching out to connect with talented MSc students interested in AI and data science.\<newline>\<newline>'' @
        ''Our company is expanding its data science team and looking for talented individuals with your academic background. We'd love to discuss potential opportunities with you.\<newline>\<newline>'' @
        ''Would you be interested in learning more? I'm available for a quick call at your convenience.\<newline>\<newline>'' @
        ''Best regards,\<newline>'' @
        ''The Indosy Team\<newline>'' @
        ''hello@indosy.com'',
      et_isDefault = False\<rparr>"

section \<open>The world: files, clock, and what a bulk send does over time\<close>

text \<open>
  What is thrown: an \<^verbatim>\<open>Error\<close> with its message, or some other value.
\<close>

datatype thrown = Error string | NonError

text \<open>\<^verbatim>\<open>error instanceof Error ? error.message : dflt\<close>.\<close>

fun error_message :: "thrown \<Rightarrow> string \<Rightarrow> string" where
  "error_message (Error m) dflt = m"
| "error_message NonError dflt = dflt"

datatype log_state = LogAbsent | LogCorrupt | LogEntries "EmailLogEntry list"

datatype bulk_event = Batch "EmailRecipient list" | Delay int

text \<open>
  \<^item> \<open>smtp_config_file\<close>: the parsed \<^verbatim>\<open>smtp-config.json\<close>; \<open>None\<close> when the file is
    missing or does not parse.
  \<^item> \<open>templates_dir\<close>: the \<^verbatim>\<open>.json\<close> files of the templates directory in the order
    \<^verbatim>\<open>readdir\<close> lists them, each the file's name without \<^verbatim>\<open>.json\<close> and its parsed
    content (\<open>None\<close> when it does not parse); \<open>None\<close> when the directory is missing.
    Files with another extension are skipped by the code and left out here.
  \<^item> \<open>log_file\<close>: \<^verbatim>\<open>email-logs.json\<close>.
  \<^item> the \<open>_writable\<close> flags: a write to a place that is not writable throws and
    changes nothing. This is the only write failure of the model.
  \<^item> \<open>clock\<close>: milliseconds; only a delay between batches advances it.
  \<^item> \<open>timeline\<close>: the batches a bulk send dispatched and the delays it waited, in order.
\<close>

record world =
  smtp_config_file :: "SmtpConfig option"
  smtp_config_writable :: bool
  templates_dir :: "(string \<times> EmailTemplate option) list option"
  templates_writable :: bool
  log_file :: log_state
  log_writable :: bool
  clock :: nat
  timeline :: "bulk_event list"

text \<open>
  An asynchronous function: it reads and changes the world and either returns (\<open>Inr\<close>)
  or throws (\<open>Inl\<close>). \<^verbatim>\<open>await\<close> is \<open>io_bind\<close>, \<^verbatim>\<open>try { } catch (error) { }\<close> is
  \<open>io_catch\<close>. Writing to the console and to the server's own log file
  (\<^verbatim>\<open>logToFile\<close>, which swallows its errors) changes nothing that is modelled.
\<close>

type_synonym 'a io = "world \<Rightarrow> (thrown + 'a) \<times> world"

definition io_return :: "'a \<Rightarrow> 'a io" where
  "io_return x = (\<lambda>w. (Inr x, w))"

definition io_throw :: "thrown \<Rightarrow> 'a io" where
  "io_throw e = (\<lambda>w. (Inl e, w))"

definition io_bind :: "'a io \<Rightarrow> ('a \<Rightarrow> 'b io) \<Rightarrow> 'b io" where
  "io_bind m f = (\<lambda>w. case m w of (Inl e, w') \<Rightarrow> (Inl e, w') | (Inr x, w') \<Rightarrow> f x w')"

definition io_catch :: "'a io \<Rightarrow> (thrown \<Rightarrow> 'a io) \<Rightarrow> 'a io" where
  "io_catch m h = (\<lambda>w. case m w of (Inl e, w') \<Rightarrow> h e w' | (Inr x, w') \<Rightarrow> (Inr x, w'))"

subsection \<open>The file operations of fs-extra the code calls\<close>

definition readJson_config :: "SmtpConfig io" where
  "readJson_config = (\<lambda>w. case smtp_config_file w of
       None \<Rightarrow> (Inl (Error ''smtp-config.json: cannot read''), w)
     | Some doc \<Rightarrow> (Inr doc, w))"

definition writeJson_config :: "SmtpConfig \<Rightarrow> unit io" where
  "writeJson_config doc = (\<lambda>w.
     if smtp_config_writable w then (Inr (), w\<lparr>smtp_config_file := Some doc\<rparr>)
     else (Inl (Error ''smtp-config.json: cannot write''), w))"

definition readdir_templates :: "(string \<times> EmailTemplate option) list io" where
  "readdir_templates = (\<lambda>w. case templates_dir w of
       None \<Rightarrow> (Inl (Error ''templates: cannot read directory''), w)
     | Some files \<Rightarrow> (Inr files, w))"

definition readJson_template :: "string \<times> EmailTemplate option \<Rightarrow> EmailTemplate io" where
  "readJson_template file = (case snd file of
       None \<Rightarrow> io_throw (Error (fst file @ ''.json: cannot parse''))
     | Some t \<Rightarrow> io_return t)"

text \<open>
  Writing \<^verbatim>\<open>templates/<id>.json\<close>: an existing file keeps its place in the listing, a new
  file is listed last.
\<close>

definition writeJson_template :: "string \<Rightarrow> EmailTemplate \<Rightarrow> unit io" where
  "writeJson_template stem t = (\<lambda>w. case templates_dir w of
       None \<Rightarrow> (Inl (Error (stem @ ''.json: cannot write'')), w)
     | Some files \<Rightarrow>
         if templates_writable w
         then (Inr (), w\<lparr>templates_dir := Some (AList.update stem (Some t) files)\<rparr>)
         else (Inl (Error (stem @ ''.json: cannot write'')), w))"

text \<open>\<^verbatim>\<open>fs.remove\<close>: removing what is not there succeeds.\<close>

definition remove_template :: "string \<Rightarrow> unit io" where
  "remove_template stem = (\<lambda>w. case templates_dir w of
       None \<Rightarrow> (Inr (), w)
     | Some files \<Rightarrow>
         if stem \<notin> fst ` set files then (Inr (), w)
         else if templates_writable w
         then (Inr (), w\<lparr>templates_dir := Some (AList.delete stem files)\<rparr>)
         else (Inl (Error (stem @ ''.json: cannot remove'')), w))"

definition pathExists_log :: "bool io" where
  "pathExists_log = (\<lambda>w. (Inr (log_file w \<noteq> LogAbsent), w))"

definition readJson_log :: "EmailLogEntry list io" where
  "readJson_log = (\<lambda>w. case log_file w of
       LogEntries logs \<Rightarrow> (Inr logs, w)
     | _ \<Rightarrow> (Inl (Error ''email-logs.json: cannot read''), w))"

definition writeJson_log :: "EmailLogEntry list \<Rightarrow> unit io" where
  "writeJson_log logs = (\<lambda>w.
     if log_writable w then (Inr (), w\<lparr>log_file := LogEntries logs\<rparr>)
     else (Inl (Error ''email-logs.json: cannot write''), w))"

definition now :: "nat io" where
  "now = (\<lambda>w. (Inr (clock w), w))"

section \<open>The document store (config.ts)\<close>

text \<open>
  When the file cannot be read the source returns the array of the module constant
  itself, and a handler that changes that array in place changes the constant for the
  rest of the process. The model returns the constant's value and keeps the constant
  fixed; what is proved about handlers below is about a store that can be read.
\<close>

definition getSmtpConfigs :: "SmtpServerConfig list io" where
  "getSmtpConfigs =
     io_catch
       (io_bind readJson_config (\<lambda>config.
          io_return (case smtpServers config of Some cs \<Rightarrow> cs | None \<Rightarrow> [])))
       (\<lambda>error. io_return DEFAULT_smtpServers)"

text \<open>\<^verbatim>\<open>configs.find(c => c.isDefault) || configs[0] || DEFAULT_SMTP_CONFIG.smtpServers[0]\<close>.\<close>

definition getDefaultSmtpConfig :: "SmtpServerConfig io" where
  "getDefaultSmtpConfig =
     io_bind getSmtpConfigs (\<lambda>configs.
       io_return (case find sc_isDefault configs of
                    Some c \<Rightarrow> c
                  | None \<Rightarrow> (case configs of c # _ \<Rightarrow> c | [] \<Rightarrow> hd DEFAULT_smtpServers)))"

definition saveSmtpConfigs :: "SmtpServerConfig list \<Rightarrow> bool io" where
  "saveSmtpConfigs configs =
     io_catch
       (io_bind readJson_config (\<lambda>currentConfig.
        io_bind (writeJson_config (currentConfig\<lparr>smtpServers := Some configs\<rparr>)) (\<lambda>_.
        io_return True)))
       (\<lambda>error. io_return False)"

text \<open>The loop of \<^verbatim>\<open>getEmailTemplates\<close> over the listed files.\<close>

fun read_templates :: "(string \<times> EmailTemplate option) list \<Rightarrow> EmailTemplate list io" where
  "read_templates [] = io_return []"
| "read_templates (file # files) =
     io_bind (readJson_template file) (\<lambda>template.
     io_bind (read_templates files) (\<lambda>templates.
     io_return (template # templates)))"

definition getEmailTemplates :: "EmailTemplate list io" where
  "getEmailTemplates =
     io_catch
       (io_bind readdir_templates read_templates)
       (\<lambda>error. io_return [DEFAULT_TEMPLATE, IE_TEMPLATE, ESADE_TEMPLATE])"

definition getDefaultEmailTemplate :: "EmailTemplate io" where
  "getDefaultEmailTemplate =
     io_bind getEmailTemplates (\<lambda>templates.
       io_return (case find et_isDefault templates of
                    Some t \<Rightarrow> t
                  | None \<Rightarrow> (case templates of t # _ \<Rightarrow> t | [] \<Rightarrow> DEFAULT_TEMPLATE)))"

definition saveEmailTemplate :: "EmailTemplate \<Rightarrow> bool io" where
  "saveEmailTemplate template =
     io_catch
       (io_bind (writeJson_template (et_id template) template) (\<lambda>_. io_return True))
       (\<lambda>error. io_return False)"

definition deleteEmailTemplate :: "string \<Rightarrow> bool io" where
  "deleteEmailTemplate templateId =
     io_catch
       (io_bind (remove_template templateId) (\<lambda>_. io_return True))
       (\<lambda>error. io_return False)"

definition logEmailActivity :: "EmailLogEntry \<Rightarrow> bool io" where
  "logEmailActivity entry =
     io_catch
       (io_bind pathExists_log (\<lambda>exists.
        io_bind (if exists then readJson_log else io_return []) (\<lambda>logs.
        io_bind (writeJson_log (logs @ [entry])) (\<lambda>_.
        io_return True))))
       (\<lambda>error. io_return False)"

section \<open>The CRUD handlers (requestHandler.ts)\<close>

text \<open>
  The parameter object of each tool call, a field that may be missing being an option.
  \<^verbatim>\<open>generateUUID\<close> draws on \<^verbatim>\<open>Math.random\<close>: the identifier it returns is an argument
  (\<open>uuid\<close>) of the two handlers that call it.
\<close>

record AddSmtpParams =
  asp_name :: string
  asp_host :: string
  asp_port :: int
  asp_secure :: "bool option"
  asp_user :: string
  asp_pass :: string
  asp_isDefault :: "bool option"

record UpdateSmtpParams =
  usp_id :: string
  usp_name :: "string option"
  usp_host :: "string option"
  usp_port :: "int option"
  usp_secure :: "bool option"
  usp_user :: "string option"
  usp_pass :: "string option"
  usp_isDefault :: "bool option"

record AddTemplateParams =
  atp_name :: string
  atp_subject :: string
  atp_body :: string
  atp_isDefault :: "bool option"

record UpdateTemplateParams =
  utp_id :: string
  utp_name :: "string option"
  utp_subject :: "string option"
  utp_body :: "string option"
  utp_isDefault :: "bool option"

text \<open>What a handler returns: \<^verbatim>\<open>{ success, message?, config?, template? }\<close>.\<close>

record reply =
  r_success :: bool
  r_message :: "string option"
  r_config :: "SmtpServerConfig option"
  r_template :: "EmailTemplate option"

definition reply_message :: "bool \<Rightarrow> string \<Rightarrow> reply" where
  "reply_message ok m = \<lparr>r_success = ok, r_message = Some m, r_config = None, r_template = None\<rparr>"

definition reply_config :: "SmtpServerConfig \<Rightarrow> reply" where
  "reply_config c = \<lparr>r_success = True, r_message = None, r_config = Some c, r_template = None\<rparr>"

definition reply_template :: "EmailTemplate \<Rightarrow> reply" where
  "reply_template t = \<lparr>r_success = True, r_message = None, r_config = None, r_template = Some t\<rparr>"

text \<open>The \<^verbatim>\<open>catch\<close> block every handler ends with.\<close>

definition handler_failed :: "thrown \<Rightarrow> reply io" where
  "handler_failed error = io_return (reply_message False (error_message error ''Unknown error''))"

text \<open>\<^verbatim>\<open>Array.prototype.findIndex\<close>, \<open>None\<close> for \<open>-1\<close>.\<close>

fun findIndex :: "('a \<Rightarrow> bool) \<Rightarrow> 'a list \<Rightarrow> nat option" where
  "findIndex P [] = None"
| "findIndex P (x # xs) =
     (if P x then Some 0 else (case findIndex P xs of None \<Rightarrow> None | Some i \<Rightarrow> Some (Suc i)))"

text \<open>\<^verbatim>\<open>x ?? dflt\<close> and \<^verbatim>\<open>if (p !== undefined) field = p\<close>.\<close>

definition nullish :: "'a option \<Rightarrow> 'a \<Rightarrow> 'a" where
  "nullish x dflt = (case x of None \<Rightarrow> dflt | Some v \<Rightarrow> v)"

definition assign_if_given :: "'a option \<Rightarrow> 'a \<Rightarrow> 'a" where
  "assign_if_given p old = (case p of None \<Rightarrow> old | Some v \<Rightarrow> v)"

definition handleAddSmtpConfig :: "string \<Rightarrow> AddSmtpParams \<Rightarrow> reply io" where
  "handleAddSmtpConfig uuid parameters =
     io_catch
       (io_bind getSmtpConfigs (\<lambda>configs.
        let newConfig =
              \<lparr>sc_id = uuid, sc_name = asp_name parameters, sc_host = asp_host parameters,
               sc_port = asp_port parameters, sc_secure = nullish (asp_secure parameters) False,
               sc_auth = \<lparr>auth_user = asp_user parameters, auth_pass = asp_pass parameters\<rparr>,
               sc_isDefault = nullish (asp_isDefault parameters) False\<rparr>;
            configs1 = (if sc_isDefault newConfig
                        then map (\<lambda>config. config\<lparr>sc_isDefault := False\<rparr>) configs
                        else configs);
            configs2 = configs1 @ [newConfig]
        in io_bind (saveSmtpConfigs configs2) (\<lambda>_.
           io_return (reply_config newConfig))))
       handler_failed"

text \<open>
  \<^verbatim>\<open>configs.forEach((config, index) => { if (index !== configIndex) config.isDefault = false })\<close>.
\<close>

definition clear_default_except :: "nat \<Rightarrow> SmtpServerConfig list \<Rightarrow> SmtpServerConfig list" where
  "clear_default_except configIndex configs =
     map (\<lambda>(index, config). if index \<noteq> configIndex then config\<lparr>sc_isDefault := False\<rparr> else config)
         (enumerate 0 configs)"

definition handleUpdateSmtpConfig :: "UpdateSmtpParams \<Rightarrow> reply io" where
  "handleUpdateSmtpConfig parameters =
     io_catch
       (io_bind getSmtpConfigs (\<lambda>configs.
        case findIndex (\<lambda>config. sc_id config = usp_id parameters) configs of
          None \<Rightarrow> io_return (reply_message False
                     (''SMTP configuration with ID '' @ usp_id parameters @ '' not found''))
        | Some configIndex \<Rightarrow>
            let old = configs ! configIndex;
                updatedConfig0 = old
                  \<lparr>sc_name := assign_if_given (usp_name parameters) (sc_name old),
                   sc_host := assign_if_given (usp_host parameters) (sc_host old),
                   sc_port := assign_if_given (usp_port parameters) (sc_port old),
                   sc_secure := assign_if_given (usp_secure parameters) (sc_secure old),
                   sc_auth := \<lparr>auth_user = assign_if_given (usp_user parameters) (auth_user (sc_auth old)),
                               auth_pass = assign_if_given (usp_pass parameters) (auth_pass (sc_auth old))\<rparr>\<rparr>;
                updatedConfig = (case usp_isDefault parameters of
                                   None \<Rightarrow> updatedConfig0
                                 | Some b \<Rightarrow> updatedConfig0\<lparr>sc_isDefault := b\<rparr>);
                configs1 = (if usp_isDefault parameters \<noteq> None \<and> sc_isDefault updatedConfig
                            then clear_default_except configIndex configs
                            else configs);
                configs2 = configs1[configIndex := updatedConfig]
            in io_bind (saveSmtpConfigs configs2) (\<lambda>_.
               io_return (reply_config updatedConfig))))
       handler_failed"

text \<open>
  \<^verbatim>\<open>configs.splice(configIndex, 1)\<close>, then
  \<^verbatim>\<open>if (isDefault && configs.length > 0) configs[0].isDefault = true\<close>.
\<close>

definition splice1 :: "nat \<Rightarrow> 'a list \<Rightarrow> 'a list" where
  "splice1 i xs = take i xs @ drop (Suc i) xs"

definition promote_first_config :: "SmtpServerConfig list \<Rightarrow> SmtpServerConfig list" where
  "promote_first_config configs =
     (case configs of [] \<Rightarrow> [] | c # cs \<Rightarrow> c\<lparr>sc_isDefault := True\<rparr> # cs)"

definition handleDeleteSmtpConfig :: "string \<Rightarrow> reply io" where
  "handleDeleteSmtpConfig ident =
     io_catch
       (io_bind getSmtpConfigs (\<lambda>configs.
        case findIndex (\<lambda>config. sc_id config = ident) configs of
          None \<Rightarrow> io_return (reply_message False
                     (''SMTP configuration with ID '' @ ident @ '' not found''))
        | Some configIndex \<Rightarrow>
            if length configs = 1
            then io_return (reply_message False ''Cannot delete the only SMTP configuration'')
            else
              let isDefault = sc_isDefault (configs ! configIndex);
                  configs1 = splice1 configIndex configs;
                  configs2 = (if isDefault \<and> length configs1 > 0
                              then promote_first_config configs1 else configs1)
              in io_bind (saveSmtpConfigs configs2) (\<lambda>_.
                 io_return (reply_message True ''SMTP configuration deleted successfully''))))
       handler_failed"

text \<open>
  The \<^verbatim>\<open>forEach\<close> of the two template handlers that clears the flag of the templates
  picked by \<open>P\<close> and writes each back. The source starts these writes without awaiting
  them (with an error handler attached); here each write is done when it is started.
\<close>

fun demote_templates :: "(EmailTemplate \<Rightarrow> bool) \<Rightarrow> EmailTemplate list \<Rightarrow> unit io" where
  "demote_templates P [] = io_return ()"
| "demote_templates P (t # ts) =
     (if P t
      then io_bind (io_catch (saveEmailTemplate (t\<lparr>et_isDefault := False\<rparr>))
                             (\<lambda>err. io_return False)) (\<lambda>_.
           demote_templates P ts)
      else demote_templates P ts)"

definition handleAddEmailTemplate :: "string \<Rightarrow> AddTemplateParams \<Rightarrow> reply io" where
  "handleAddEmailTemplate uuid parameters =
     io_catch
       (io_bind getEmailTemplates (\<lambda>templates.
        let newTemplate =
              \<lparr>et_id = uuid, et_name = atp_name parameters, et_subject = atp_subject parameters,
               et_body = atp_body parameters,
               et_isDefault = nullish (atp_isDefault parameters) False\<rparr>
        in io_bind (if et_isDefault newTemplate
                    then demote_templates et_isDefault templates
                    else io_return ()) (\<lambda>_.
           io_bind (saveEmailTemplate newTemplate) (\<lambda>_.
           io_return (reply_template newTemplate)))))
       handler_failed"

definition handleUpdateEmailTemplate :: "UpdateTemplateParams \<Rightarrow> reply io" where
  "handleUpdateEmailTemplate parameters =
     io_catch
       (io_bind getEmailTemplates (\<lambda>templates.
        case find (\<lambda>t. et_id t = utp_id parameters) templates of
          None \<Rightarrow> io_return (reply_message False
                     (''Email template with ID '' @ utp_id parameters @ '' not found''))
        | Some template \<Rightarrow>
            let updatedTemplate0 = template
                  \<lparr>et_name := assign_if_given (utp_name parameters) (et_name template),
                   et_subject := assign_if_given (utp_subject parameters) (et_subject template),
                   et_body := assign_if_given (utp_body parameters) (et_body template)\<rparr>;
                changed = (utp_isDefault parameters \<noteq> None \<and>
                           utp_isDefault parameters \<noteq> Some (et_isDefault template));
                updatedTemplate = (if changed
                                   then updatedTemplate0\<lparr>et_isDefault := nullish (utp_isDefault parameters) False\<rparr>
                                   else updatedTemplate0)
            in io_bind (if changed \<and> et_isDefault updatedTemplate
                        then demote_templates (\<lambda>t. et_id t \<noteq> utp_id parameters \<and> et_isDefault t) templates
                        else io_return ()) (\<lambda>_.
               io_bind (saveEmailTemplate updatedTemplate) (\<lambda>_.
               io_return (reply_template updatedTemplate)))))
       handler_failed"

definition handleDeleteEmailTemplate :: "string \<Rightarrow> reply io" where
  "handleDeleteEmailTemplate ident =
     io_catch
       (io_bind getEmailTemplates (\<lambda>templates.
        case find (\<lambda>t. et_id t = ident) templates of
          None \<Rightarrow> io_return (reply_message False
                     (''Email template with ID '' @ ident @ '' not found''))
        | Some template \<Rightarrow>
            io_bind (if et_isDefault template \<and> length templates > 1
                     then (case find (\<lambda>t. et_id t \<noteq> ident) templates of
                             None \<Rightarrow> io_return ()
                           | Some anotherTemplate \<Rightarrow>
                               io_bind (saveEmailTemplate (anotherTemplate\<lparr>et_isDefault := True\<rparr>)) (\<lambda>_.
                               io_return ()))
                     else io_return ()) (\<lambda>_.
            io_bind (deleteEmailTemplate ident) (\<lambda>_.
            io_return (reply_message True ''Email template deleted successfully'')))))
       handler_failed"

text \<open>
  The tool calls that change a store, and the \<^verbatim>\<open>switch (toolName)\<close> of
  \<^verbatim>\<open>setupRequestHandlers\<close> that hands each to its handler.
\<close>

datatype tool_call =
    AddSmtpConfig string AddSmtpParams
  | UpdateSmtpConfig UpdateSmtpParams
  | DeleteSmtpConfig string
  | AddEmailTemplate string AddTemplateParams
  | UpdateEmailTemplate UpdateTemplateParams
  | DeleteEmailTemplate string

fun call_tool :: "tool_call \<Rightarrow> reply io" where
  "call_tool (AddSmtpConfig uuid parameters) = handleAddSmtpConfig uuid parameters"
| "call_tool (UpdateSmtpConfig parameters) = handleUpdateSmtpConfig parameters"
| "call_tool (DeleteSmtpConfig ident) = handleDeleteSmtpConfig ident"
| "call_tool (AddEmailTemplate uuid parameters) = handleAddEmailTemplate uuid parameters"
| "call_tool (UpdateEmailTemplate parameters) = handleUpdateEmailTemplate parameters"
| "call_tool (DeleteEmailTemplate ident) = handleDeleteEmailTemplate ident"

section \<open>The send pipeline (emailService.ts)\<close>

text \<open>
  The delivery collaborator. \<^verbatim>\<open>createTransport\<close> hands the resolved configuration to
  nodemailer, and \<^verbatim>\<open>transport.sendMail(mailOptions)\<close> returns the message id or throws:
  a \<open>delivery\<close> is any function that, for the configuration the transport was made from
  and the envelope, says which.
\<close>

datatype addresses = Address string | AddressList "string list"

record MailOptions =
  mo_from :: string
  mo_to :: addresses
  mo_subject :: string
  mo_html :: string
  mo_cc :: "addresses option"
  mo_bcc :: "addresses option"

type_synonym delivery = "SmtpServerConfig \<Rightarrow> MailOptions \<Rightarrow> thrown + string"

definition sendMail :: "delivery \<Rightarrow> SmtpServerConfig \<Rightarrow> MailOptions \<Rightarrow> string io" where
  "sendMail deliver transport mailOptions = (\<lambda>w. (deliver transport mailOptions, w))"

definition createTransport :: "string option \<Rightarrow> SmtpServerConfig io" where
  "createTransport smtpConfigId =
     (if truthy smtpConfigId
      then io_bind getSmtpConfigs (\<lambda>configs.
             case find (\<lambda>c. Some (sc_id c) = smtpConfigId) configs of
               None \<Rightarrow> io_throw (Error (''SMTP configuration with ID '' @ the smtpConfigId @ '' not found''))
             | Some config \<Rightarrow> io_return config)
      else getDefaultSmtpConfig)"

definition generateEmailContent ::
  "string option \<Rightarrow> template_data option \<Rightarrow> string \<Rightarrow> string \<Rightarrow> (string \<times> string) io" where
  "generateEmailContent templateId templateData subject body =
     (if \<not> truthy templateId then io_return (subject, body)
      else
        io_bind getEmailTemplates (\<lambda>templates.
        io_bind (if templateId = Some ''default''
                 then io_bind getDefaultEmailTemplate (\<lambda>t. io_return (Some t))
                 else io_return (find (\<lambda>t. Some (et_id t) = templateId) templates)) (\<lambda>template.
        case template of
          None \<Rightarrow> io_return (subject, body)
        | Some t \<Rightarrow>
            io_return (processTemplate (et_subject t) (nullish templateData Map.empty),
                       processTemplate (et_body t) (nullish templateData Map.empty)))))"

definition formatRecipient :: "EmailRecipient \<Rightarrow> string" where
  "formatRecipient recipient =
     (if truthy (er_name recipient)
      then [CHR 0x22] @ the (er_name recipient) @ [CHR 0x22] @ '' <'' @ er_email recipient @ ''>''
      else er_email recipient)"

definition formatRecipients :: "to_field \<Rightarrow> addresses" where
  "formatRecipients recipients =
     (case recipients of
        Several rs \<Rightarrow> AddressList (map formatRecipient rs)
      | Single r \<Rightarrow> Address (formatRecipient r))"

text \<open>\<^verbatim>\<open>Array.isArray(data.to) ? data.to : [data.to]\<close>.\<close>

definition recipients_of :: "to_field \<Rightarrow> EmailRecipient list" where
  "recipients_of t = (case t of Several rs \<Rightarrow> rs | Single r \<Rightarrow> [r])"

text \<open>
  The two logging loops of \<^verbatim>\<open>sendEmail\<close>: one entry per recipient, each stamped when
  it is made and appended by its own call of \<^verbatim>\<open>logEmailActivity\<close>.
\<close>

fun log_each :: "(nat \<Rightarrow> EmailRecipient \<Rightarrow> EmailLogEntry) \<Rightarrow> EmailRecipient list \<Rightarrow> unit io" where
  "log_each mk [] = io_return ()"
| "log_each mk (recipient # rest) =
     io_bind now (\<lambda>t.
     io_bind (logEmailActivity (mk t recipient)) (\<lambda>_.
     log_each mk rest))"

record SendResult =
  sr_success :: bool
  sr_message :: "string option"

text \<open>The entry of the success path and the entry of the \<^verbatim>\<open>catch\<close> block.\<close>

definition sent_entry ::
  "SmtpServerConfig \<Rightarrow> EmailData \<Rightarrow> string \<Rightarrow> string \<Rightarrow> nat \<Rightarrow> EmailRecipient \<Rightarrow> EmailLogEntry" where
  "sent_entry smtpConfig data subject messageId t recipient =
     \<lparr>le_timestamp = t, le_smtpConfig = sc_id smtpConfig,
      le_templateId = ed_templateId data, le_recipient = er_email recipient,
      le_subject = subject, le_success = True,
      le_message = Some (''Message sent: '' @ messageId)\<rparr>"

definition failed_entry ::
  "string option \<Rightarrow> EmailData \<Rightarrow> thrown \<Rightarrow> nat \<Rightarrow> EmailRecipient \<Rightarrow> EmailLogEntry" where
  "failed_entry smtpConfigId data error t recipient =
     \<lparr>le_timestamp = t, le_smtpConfig = or_else smtpConfigId ''unknown'',
      le_templateId = ed_templateId data, le_recipient = er_email recipient,
      le_subject = ed_subject data, le_success = False,
      le_message = Some (error_message error ''Unknown error sending email'')\<rparr>"

definition mail_options :: "SmtpServerConfig \<Rightarrow> EmailData \<Rightarrow> string \<Rightarrow> string \<Rightarrow> MailOptions" where
  "mail_options smtpConfig data subject body =
     \<lparr>mo_from = (case ed_from data of
                    Some sender \<Rightarrow> formatRecipient sender
                  | None \<Rightarrow> auth_user (sc_auth smtpConfig)),
      mo_to = formatRecipients (ed_to data),
      mo_subject = subject,
      mo_html = body,
      mo_cc = map_option (\<lambda>rs. formatRecipients (Several rs)) (ed_cc data),
      mo_bcc = map_option (\<lambda>rs. formatRecipients (Several rs)) (ed_bcc data)\<rparr>"

definition sendEmail :: "delivery \<Rightarrow> EmailData \<Rightarrow> string option \<Rightarrow> SendResult io" where
  "sendEmail deliver data smtpConfigId =
     io_catch
       (io_bind (createTransport smtpConfigId) (\<lambda>transport.
        io_bind (if truthy smtpConfigId
                 then io_bind getSmtpConfigs (\<lambda>configs.
                        io_return (find (\<lambda>c. Some (sc_id c) = smtpConfigId) configs))
                 else io_bind getDefaultSmtpConfig (\<lambda>c. io_return (Some c))) (\<lambda>found.
        case found of
          None \<Rightarrow> io_return \<lparr>sr_success = False, sr_message = Some ''SMTP configuration not found''\<rparr>
        | Some smtpConfig \<Rightarrow>
            io_bind (generateEmailContent (ed_templateId data) (ed_templateData data)
                       (ed_subject data) (ed_body data)) (\<lambda>content.
            io_bind (sendMail deliver transport
                       (mail_options smtpConfig data (fst content) (snd content))) (\<lambda>messageId.
            io_bind (log_each (sent_entry smtpConfig data (fst content) messageId)
                       (recipients_of (ed_to data))) (\<lambda>_.
            io_return \<lparr>sr_success = True, sr_message = Some (''Message sent: '' @ messageId)\<rparr>))))))
       (\<lambda>error.
          io_bind (log_each (failed_entry smtpConfigId data error) (recipients_of (ed_to data))) (\<lambda>_.
          io_return \<lparr>sr_success = False,
                     sr_message = Some (error_message error ''Unknown error sending email'')\<rparr>))"

section \<open>The bulk pipeline (emailService.ts, sendBulkEmails)\<close>

record BulkFailure =
  bf_email :: string
  bf_error :: string

record BulkResult =
  br_success :: bool
  br_totalSent :: nat
  br_totalFailed :: nat
  br_failures :: "BulkFailure list option"
  br_message :: "string option"

text \<open>
  The \<^verbatim>\<open>EmailData\<close> built for one recipient of a bulk send; the spread
  \<^verbatim>\<open>{ ...data.templateData, email: recipient.email, name: recipient.name || '' }\<close> is the
  caller's map with the two keys set.
\<close>

definition bulk_emailData :: "BulkEmailData \<Rightarrow> EmailRecipient \<Rightarrow> EmailData" where
  "bulk_emailData data recipient =
     \<lparr>ed_to = Single recipient,
      ed_subject = bd_subject data,
      ed_body = bd_body data,
      ed_from = bd_from data,
      ed_cc = bd_cc data,
      ed_bcc = bd_bcc data,
      ed_templateId = bd_templateId data,
      ed_templateData = Some ((nullish (bd_templateData data) Map.empty)
                                (''email'' \<mapsto> JString (er_email recipient),
                                 ''name'' \<mapsto> JString (or_else (er_name recipient) [])))\<rparr>"

text \<open>
  The callback \<^verbatim>\<open>batch.map\<close> runs for one recipient; \<open>failures\<close> and \<open>totalSent\<close> are
  the two variables of \<^verbatim>\<open>sendBulkEmails\<close> it updates.
\<close>

definition send_one ::
  "delivery \<Rightarrow> BulkEmailData \<Rightarrow> string option \<Rightarrow> EmailRecipient \<Rightarrow>
   BulkFailure list \<times> nat \<Rightarrow> (BulkFailure list \<times> nat) io" where
  "send_one deliver data smtpConfigId recipient acc =
     io_catch
       (io_bind (sendEmail deliver (bulk_emailData data recipient) smtpConfigId) (\<lambda>result.
          if sr_success result
          then io_return (fst acc, snd acc + 1)
          else io_return
                 (fst acc @ [\<lparr>bf_email = er_email recipient,
                               bf_error = or_else (sr_message result) ''Unknown error''\<rparr>],
                  snd acc)))
       (\<lambda>error. io_return
                 (fst acc @ [\<lparr>bf_email = er_email recipient,
                               bf_error = error_message error ''Unknown error''\<rparr>],
                  snd acc))"

text \<open>
  \<^verbatim>\<open>await Promise.all(batch.map(...))\<close>. The source starts the sends of a batch together
  and they take turns at every \<^verbatim>\<open>await\<close>; the model runs them one after the other in
  the order of the batch, which is the run of the source for a batch of one recipient
  and one of its possible runs otherwise. What a send returns does not depend on the
  turns taken (it reads the configuration and the templates, which no send writes, and
  asks the delivery collaborator), so \<open>totalSent\<close> and the failures as a collection are
  those of every run. The order of \<open>failures\<close> is the order in which the sends end, and
  the log file is read and written back by every send without a lock: for a batch of
  more than one recipient neither is determined by the source, and the properties
  below state neither.
\<close>

fun send_batch ::
  "delivery \<Rightarrow> BulkEmailData \<Rightarrow> string option \<Rightarrow> EmailRecipient list \<Rightarrow>
   BulkFailure list \<times> nat \<Rightarrow> (BulkFailure list \<times> nat) io" where
  "send_batch deliver data smtpConfigId [] acc = io_return acc"
| "send_batch deliver data smtpConfigId (recipient # rest) acc =
     io_bind (send_one deliver data smtpConfigId recipient acc) (\<lambda>acc'.
     send_batch deliver data smtpConfigId rest acc')"

definition dispatch :: "EmailRecipient list \<Rightarrow> unit io" where
  "dispatch batch = (\<lambda>w. (Inr (), w\<lparr>timeline := timeline w @ [Batch batch]\<rparr>))"

text \<open>\<^verbatim>\<open>await new Promise(resolve => setTimeout(resolve, ms))\<close>.\<close>

definition sleep :: "int \<Rightarrow> unit io" where
  "sleep ms = (\<lambda>w. (Inr (), w\<lparr>clock := clock w + nat ms, timeline := timeline w @ [Delay ms]\<rparr>))"

text \<open>One turn of the loop: the batch from index \<open>i\<close>, and the delay when more follow.\<close>

definition bulk_step ::
  "delivery \<Rightarrow> BulkEmailData \<Rightarrow> string option \<Rightarrow> int \<Rightarrow> int \<Rightarrow> int \<Rightarrow>
   BulkFailure list \<times> nat \<Rightarrow> (BulkFailure list \<times> nat) io" where
  "bulk_step deliver data smtpConfigId batchSize delayBetweenBatches i acc =
     io_bind (dispatch (js_slice (bd_recipients data) i (i + batchSize))) (\<lambda>_.
     io_bind (send_batch deliver data smtpConfigId
                (js_slice (bd_recipients data) i (i + batchSize)) acc) (\<lambda>acc'.
     io_bind (if i + batchSize < int (length (bd_recipients data))
              then sleep delayBetweenBatches else io_return ()) (\<lambda>_.
     io_return acc')))"

text \<open>
  The \<^verbatim>\<open>for (let i = 0; i < recipients.length; i += batchSize)\<close> loop, from index \<open>i\<close> on.
  With a batch size below one the source's loop does not end; \<open>None\<close> is that.
\<close>

partial_function (option) bulk_loop ::
  "delivery \<Rightarrow> BulkEmailData \<Rightarrow> string option \<Rightarrow> int \<Rightarrow> int \<Rightarrow> int \<Rightarrow>
   BulkFailure list \<times> nat \<Rightarrow> world \<Rightarrow> ((thrown + BulkFailure list \<times> nat) \<times> world) option" where
  "bulk_loop deliver data smtpConfigId batchSize delayBetweenBatches i acc w =
     (if i < int (length (bd_recipients data)) then
        (case bulk_step deliver data smtpConfigId batchSize delayBetweenBatches i acc w of
           (Inl error, w') \<Rightarrow> Some (Inl error, w')
         | (Inr acc', w') \<Rightarrow>
             bulk_loop deliver data smtpConfigId batchSize delayBetweenBatches (i + batchSize) acc' w')
      else Some (Inr acc, w))"

definition sendBulkEmails ::
  "delivery \<Rightarrow> BulkEmailData \<Rightarrow> string option \<Rightarrow> world \<Rightarrow> ((thrown + BulkResult) \<times> world) option" where
  "sendBulkEmails deliver data smtpConfigId w =
     (let recipients = bd_recipients data;
          batchSize = nullish (bd_batchSize data) 10;
          delayBetweenBatches = nullish (bd_delayBetweenBatches data) 1000
      in if recipients = []
         then Some (Inr \<lparr>br_success = False, br_totalSent = 0, br_totalFailed = 0,
                         br_failures = None, br_message = Some ''No recipients provided''\<rparr>, w)
         else
           (case bulk_loop deliver data smtpConfigId batchSize delayBetweenBatches 0 ([], 0) w of
              None \<Rightarrow> None
            | Some (Inr acc, w') \<Rightarrow>
                Some (Inr \<lparr>br_success = (snd acc > 0),
                           br_totalSent = snd acc,
                           br_totalFailed = length (fst acc),
                           br_failures = (if length (fst acc) > 0 then Some (fst acc) else None),
                           br_message = Some (''Successfully sent '' @ show_nat (snd acc) @ '' out of '' @
                                              show_nat (length recipients) @ '' emails'')\<rparr>, w')
            | Some (Inl error, w') \<Rightarrow>
                Some (Inr \<lparr>br_success = False, br_totalSent = 0,
                           br_totalFailed = length recipients,
                           br_failures = None,
                           br_message = Some (error_message error ''Unknown error sending bulk emails'')\<rparr>, w')))"

section \<open>Vocabulary of the properties\<close>

text \<open>
  The definitions of this section are not code of the server: they are the words the
  properties below are stated in.
\<close>

subsection \<open>Templates as pieces\<close>

text \<open>
  A template text seen as the specification sees it: literal text and \<^verbatim>\<open>{{key}}\<close>
  placeholders in turn. A literal is plain when it has no \<^verbatim>\<open>{{\<close> in it and does not end
  with \<^verbatim>\<open>{\<close>; a key is any non-empty text without \<^verbatim>\<open>}\<close>.

  \<open>render_piece\<close> is the rule a placeholder is rendered by. When the data has the trimmed
  key, the placeholder becomes the string form of its value, and stays as it stands when
  that value is undefined. When the data does not have the trimmed key, the placeholder
  stays as it stands, unless the trimmed key is the name of a member every object
  inherits: then it becomes the string form of that member.
\<close>

fun plain_text :: "string \<Rightarrow> bool" where
  "plain_text [] = True"
| "plain_text [c] = (c \<noteq> CHR ''{'')"
| "plain_text (c # c' # s) = (\<not> (c = CHR ''{'' \<and> c' = CHR ''{'') \<and> plain_text (c' # s))"

datatype piece = Literal string | Placeholder string



definition inherited :: "string \<Rightarrow> bool" where
  "inherited k =
     (k \<in> set [''constructor'', ''__defineGetter__'', ''__defineSetter__'', ''hasOwnProperty'',
                ''__lookupGetter__'', ''__lookupSetter__'', ''isPrototypeOf'',
                ''propertyIsEnumerable'', ''toString'', ''valueOf'', ''__proto__'',
                ''toLocaleString''])"

fun render_piece :: "template_data \<Rightarrow> piece \<Rightarrow> string" where
  "render_piece d (Literal l) = l"
| "render_piece d (Placeholder key) =
     (case d (js_trim key) of
        Some v \<Rightarrow> if v = JUndefined then ''{{'' @ key @ ''}}'' else js_to_string v
      | None \<Rightarrow>
          if inherited (js_trim key) then js_to_string (Object_prototype (js_trim key))
          else ''{{'' @ key @ ''}}'')"



subsection \<open>Stores\<close>

text \<open>The collections a world holds, as the code reads them.\<close>

definition stored_configs :: "world \<Rightarrow> SmtpServerConfig list" where
  "stored_configs w = (case fst (getSmtpConfigs w) of Inr configs \<Rightarrow> configs | Inl _ \<Rightarrow> [])"

definition stored_templates :: "world \<Rightarrow> EmailTemplate list" where
  "stored_templates w = (case fst (getEmailTemplates w) of Inr templates \<Rightarrow> templates | Inl _ \<Rightarrow> [])"

definition config_defaults :: "world \<Rightarrow> nat" where
  "config_defaults w = length (filter sc_isDefault (stored_configs w))"

definition template_defaults :: "world \<Rightarrow> nat" where
  "template_defaults w = length (filter et_isDefault (stored_templates w))"

text \<open>
  The templates directory that holds exactly the given templates, in this order, each in
  the file named by its id: what the handlers themselves write.
\<close>

definition dir_of :: "EmailTemplate list \<Rightarrow> (string \<times> EmailTemplate option) list" where
  "dir_of ts = map (\<lambda>t. (et_id t, Some t)) ts"

text \<open>
  The world right after the first start (\<^verbatim>\<open>ensureConfigDirectories\<close>): the default
  configuration document, the three built-in templates, an empty log, everything
  writable.
\<close>

definition fresh_world :: world where
  "fresh_world =
     \<lparr>smtp_config_file = Some DEFAULT_SMTP_CONFIG,
      smtp_config_writable = True,
      templates_dir = Some (dir_of [DEFAULT_TEMPLATE, ESADE_TEMPLATE, IE_TEMPLATE]),
      templates_writable = True,
      log_file = LogEntries [],
      log_writable = True,
      clock = 0,
      timeline = []\<rparr>"

text \<open>
  A tidy templates directory: every file parses and holds the template whose id is the
  file's name (no two files of a directory share a name).
\<close>

definition tidy_templates :: "world \<Rightarrow> bool" where
  "tidy_templates w =
     (case templates_dir w of
        None \<Rightarrow> False
      | Some files \<Rightarrow>
          distinct (map fst files) \<and>
          list_all (\<lambda>file. case snd file of None \<Rightarrow> False | Some t \<Rightarrow> et_id t = fst file) files)"

text \<open>The list view of writing a template's file and of removing the file of an id.\<close>

definition put_template :: "EmailTemplate \<Rightarrow> EmailTemplate list \<Rightarrow> EmailTemplate list" where
  "put_template t ts =
     (if et_id t \<in> set (map et_id ts)
      then map (\<lambda>x. if et_id x = et_id t then t else x) ts
      else ts @ [t])"

definition without_template :: "string \<Rightarrow> EmailTemplate list \<Rightarrow> EmailTemplate list" where
  "without_template ident ts = filter (\<lambda>t. et_id t \<noteq> ident) ts"

text \<open>A sequence of tool calls, one after the other; the world it leaves.\<close>

fun run_calls :: "tool_call list \<Rightarrow> world \<Rightarrow> world" where
  "run_calls [] w = w"
| "run_calls (c # cs) w = run_calls cs (snd (call_tool c w))"

text \<open>
  The calls after which a collection with one default entry may be left with none: an
  update that passes \<^verbatim>\<open>isDefault: false\<close> for the entry that is the default, an added
  template whose generated id is the id of a stored one, and the removal of the last
  template. \<open>keeps_default\<close> says that a call is none of these, \<open>steady\<close> that no call
  of a sequence is.
\<close>

fun keeps_default :: "tool_call \<Rightarrow> world \<Rightarrow> bool" where
  "keeps_default (UpdateSmtpConfig p) w =
     (\<not> (usp_isDefault p = Some False \<and>
         (case find (\<lambda>c. sc_id c = usp_id p) (stored_configs w) of
            Some c \<Rightarrow> sc_isDefault c | None \<Rightarrow> False)))"
| "keeps_default (UpdateEmailTemplate p) w =
     (\<not> (utp_isDefault p = Some False \<and>
         (case find (\<lambda>t. et_id t = utp_id p) (stored_templates w) of
            Some t \<Rightarrow> et_isDefault t | None \<Rightarrow> False)))"
| "keeps_default (AddEmailTemplate uuid p) w = (uuid \<notin> set (map et_id (stored_templates w)))"
| "keeps_default (DeleteEmailTemplate ident) w = (map et_id (stored_templates w) \<noteq> [ident])"
| "keeps_default _ w = True"

fun steady :: "tool_call list \<Rightarrow> world \<Rightarrow> bool" where
  "steady [] w = True"
| "steady (c # cs) w = (keeps_default c w \<and> steady cs (snd (call_tool c w)))"

subsection \<open>Words for the proofs\<close>

text \<open>
  The entry an update call writes back, and \<open>keeps f m\<close>: running \<open>m\<close> leaves the
  reading \<open>f\<close> of the world as it was.
\<close>

definition updated_config :: "UpdateSmtpParams \<Rightarrow> SmtpServerConfig \<Rightarrow> SmtpServerConfig" where
  "updated_config p old =
     (let u = old
            \<lparr>sc_name := assign_if_given (usp_name p) (sc_name old),
             sc_host := assign_if_given (usp_host p) (sc_host old),
             sc_port := assign_if_given (usp_port p) (sc_port old),
             sc_secure := assign_if_given (usp_secure p) (sc_secure old),
             sc_auth := \<lparr>auth_user = assign_if_given (usp_user p) (auth_user (sc_auth old)),
                         auth_pass = assign_if_given (usp_pass p) (auth_pass (sc_auth old))\<rparr>\<rparr>
      in case usp_isDefault p of None \<Rightarrow> u | Some b \<Rightarrow> u\<lparr>sc_isDefault := b\<rparr>)"

definition updated_template :: "UpdateTemplateParams \<Rightarrow> EmailTemplate \<Rightarrow> EmailTemplate" where
  "updated_template p template =
     (let u = template
            \<lparr>et_name := assign_if_given (utp_name p) (et_name template),
             et_subject := assign_if_given (utp_subject p) (et_subject template),
             et_body := assign_if_given (utp_body p) (et_body template)\<rparr>
      in if utp_isDefault p \<noteq> None \<and> utp_isDefault p \<noteq> Some (et_isDefault template)
         then u\<lparr>et_isDefault := nullish (utp_isDefault p) False\<rparr> else u)"

definition keeps :: "(world \<Rightarrow> 'b) \<Rightarrow> 'a io \<Rightarrow> bool" where
  "keeps f m = (\<forall>w. f (snd (m w)) = f w)"

text \<open>A world with one SMTP configuration and one template.\<close>

definition sole_world :: world where
  "sole_world = fresh_world
     \<lparr>smtp_config_file := Some (DEFAULT_SMTP_CONFIG\<lparr>smtpServers := Some [hd DEFAULT_smtpServers]\<rparr>),
      templates_dir := Some (dir_of [DEFAULT_TEMPLATE])\<rparr>"

subsection \<open>Sending\<close>

text \<open>The entries of the log document (none when it is absent or unreadable).\<close>

definition log_entries :: "world \<Rightarrow> EmailLogEntry list" where
  "log_entries w = (case log_file w of LogEntries logs \<Rightarrow> logs | _ \<Rightarrow> [])"

text \<open>
  The final subject and body of a send: what \<open>generateEmailContent\<close> returns for the
  call's data, that is, what goes into the envelope.
\<close>

definition rendered :: "EmailData \<Rightarrow> world \<Rightarrow> string \<times> string" where
  "rendered data w =
     (case fst (generateEmailContent (ed_templateId data) (ed_templateData data)
                  (ed_subject data) (ed_body data) w) of
        Inr content \<Rightarrow> content
      | Inl _ \<Rightarrow> (ed_subject data, ed_body data))"

text \<open>
  What \<open>sendEmail\<close> returns for one recipient of a bulk send from the world the bulk
  send starts in; a throw counts as the failure \<open>send_one\<close> records for it.
\<close>

definition bulk_outcome ::
  "delivery \<Rightarrow> BulkEmailData \<Rightarrow> string option \<Rightarrow> world \<Rightarrow> EmailRecipient \<Rightarrow> SendResult" where
  "bulk_outcome deliver data smtpConfigId w recipient =
     (case fst (sendEmail deliver (bulk_emailData data recipient) smtpConfigId w) of
        Inr result \<Rightarrow> result
      | Inl error \<Rightarrow> \<lparr>sr_success = False, sr_message = Some (error_message error ''Unknown error'')\<rparr>)"

definition bulk_failure ::
  "delivery \<Rightarrow> BulkEmailData \<Rightarrow> string option \<Rightarrow> world \<Rightarrow> EmailRecipient \<Rightarrow> BulkFailure" where
  "bulk_failure deliver data smtpConfigId w recipient =
     \<lparr>bf_email = er_email recipient,
      bf_error = or_else (sr_message (bulk_outcome deliver data smtpConfigId w recipient)) ''Unknown error''\<rparr>"

text \<open>
  The contiguous batches of a list for a batch size, and a list of events with a
  separator between neighbours.
\<close>

fun batches :: "nat \<Rightarrow> 'a list \<Rightarrow> 'a list list" where
  "batches n xs = (if n = 0 \<or> xs = [] then [] else take n xs # batches n (drop n xs))"

declare batches.simps [simp del]

fun separated :: "'a \<Rightarrow> 'a list \<Rightarrow> 'a list" where
  "separated s [] = []"
| "separated s [x] = [x]"
| "separated s (x # y # zs) = x # s # separated s (y # zs)"

fun is_delay :: "bulk_event \<Rightarrow> bool" where
  "is_delay (Delay ms) = True"
| "is_delay (Batch b) = False"
text \<open>
  The two ways \<open>sendEmail\<close> ends: by its \<^verbatim>\<open>catch\<close> block, which logs a failure for each
  recipient and returns the error's message, or past \<^verbatim>\<open>sendMail\<close>, logging a success for
  each recipient with the subject that went into the envelope.
\<close>

definition send_failed :: "string option \<Rightarrow> EmailData \<Rightarrow> thrown \<Rightarrow> world \<Rightarrow> (thrown + SendResult) \<times> world" where
  "send_failed smtpConfigId data error w =
     (Inr \<lparr>sr_success = False, sr_message = Some (error_message error ''Unknown error sending email'')\<rparr>,
      snd (log_each (failed_entry smtpConfigId data error) (recipients_of (ed_to data)) w))"

definition send_done :: "SmtpServerConfig \<Rightarrow> EmailData \<Rightarrow> string \<Rightarrow> world \<Rightarrow> (thrown + SendResult) \<times> world" where
  "send_done smtpConfig data messageId w =
     (Inr \<lparr>sr_success = True, sr_message = Some (''Message sent: '' @ messageId)\<rparr>,
      snd (log_each (sent_entry smtpConfig data (fst (rendered data w)) messageId)
             (recipients_of (ed_to data)) w))"

text \<open>
  The documents a send reads (it writes neither), and a log document that can be read
  and written.
\<close>

definition store :: "world \<Rightarrow> SmtpConfig option \<times> (string \<times> EmailTemplate option) list option" where
  "store w = (smtp_config_file w, templates_dir w)"

definition log_ok :: "world \<Rightarrow> bool" where
  "log_ok w = (log_file w \<noteq> LogCorrupt \<and> log_writable w)"

text \<open>
  The failures and the number of successes of a list of recipients of a bulk send, and
  the log of \<open>w'\<close> being the log of \<open>w\<close> with one more entry for each recipient, in order.
\<close>

definition bulk_failures ::
  "delivery \<Rightarrow> BulkEmailData \<Rightarrow> string option \<Rightarrow> world \<Rightarrow> EmailRecipient list \<Rightarrow> BulkFailure list" where
  "bulk_failures deliver data smtpConfigId w rs =
     map (bulk_failure deliver data smtpConfigId w)
       (filter (\<lambda>r. \<not> sr_success (bulk_outcome deliver data smtpConfigId w r)) rs)"

definition bulk_sent ::
  "delivery \<Rightarrow> BulkEmailData \<Rightarrow> string option \<Rightarrow> world \<Rightarrow> EmailRecipient list \<Rightarrow> nat" where
  "bulk_sent deliver data smtpConfigId w rs =
     length (filter (\<lambda>r. sr_success (bulk_outcome deliver data smtpConfigId w r)) rs)"

definition logged :: "world \<Rightarrow> world \<Rightarrow> EmailRecipient list \<Rightarrow> bool" where
  "logged w w' rs =
     (take (length (log_entries w)) (log_entries w') = log_entries w \<and>
      map le_recipient (drop (length (log_entries w)) (log_entries w')) = map er_email rs)"

text \<open>
  The template a send renders, as \<open>generateEmailContent\<close> selects it (none without a
  template id, the default template for the id \<^verbatim>\<open>default\<close>, the stored template of that id
  otherwise); the template data of the call a bulk send makes for a recipient; and the
  delivery collaborator returning, rather than throwing, for a message with the given
  subject and body on the transport the send resolves.
\<close>

definition template_of :: "string option \<Rightarrow> world \<Rightarrow> EmailTemplate option" where
  "template_of templateId w =
     (if \<not> truthy templateId then None
      else if templateId = Some ''default''
      then (case fst (getDefaultEmailTemplate w) of Inr t \<Rightarrow> Some t | Inl _ \<Rightarrow> None)
      else find (\<lambda>t. Some (et_id t) = templateId) (stored_templates w))"

definition recipient_data :: "BulkEmailData \<Rightarrow> EmailRecipient \<Rightarrow> template_data" where
  "recipient_data data r =
     (case ed_templateData (bulk_emailData data r) of Some d \<Rightarrow> d | None \<Rightarrow> Map.empty)"

definition delivered ::
  "delivery \<Rightarrow> string option \<Rightarrow> world \<Rightarrow> EmailData \<Rightarrow> string \<Rightarrow> string \<Rightarrow> bool" where
  "delivered deliver smtpConfigId w data subject body =
     (case fst (createTransport smtpConfigId w) of
        Inr transport \<Rightarrow> \<not> isl (deliver transport (mail_options transport data subject body))
      | Inl _ \<Rightarrow> False)"

subsection \<open>Examples\<close>

text \<open>
  Two recipients, one of them without a name; a send and a bulk send to both with the
  built-in template, and the same bulk send one recipient at a time; a bulk send to 25
  recipients with the default batch size; and four delivery collaborators: one that
  refuses every message, one that accepts every message, one that refuses the messages
  to the second recipient only, one that accepts only a message whose body is the
  built-in template with nothing in the place of the name.
\<close>

definition ana :: EmailRecipient where
  "ana = \<lparr>er_email = ''ana@example.com'', er_name = Some ''Ana''\<rparr>"

definition bo :: EmailRecipient where
  "bo = \<lparr>er_email = ''bo@example.com'', er_name = None\<rparr>"

definition templated_email :: EmailData where
  "templated_email =
     \<lparr>ed_to = Several [ana, bo], ed_subject = ''Hello'', ed_body = ''Body'',
      ed_from = None, ed_cc = None, ed_bcc = None,
      ed_templateId = Some ''default'', ed_templateData = None\<rparr>"

definition nameless_bulk :: BulkEmailData where
  "nameless_bulk =
     \<lparr>bd_recipients = [ana, bo], bd_subject = ''Hello'', bd_body = ''Hello {{name}},'',
      bd_from = None, bd_cc = None, bd_bcc = None, bd_templateId = Some ''default'',
      bd_templateData = None, bd_batchSize = None, bd_delayBetweenBatches = None\<rparr>"

definition class_of_25 :: BulkEmailData where
  "class_of_25 =
     \<lparr>bd_recipients = map (\<lambda>n. \<lparr>er_email = show_nat n @ ''@example.com'', er_name = None\<rparr>) [0..<25],
      bd_subject = ''Hello'', bd_body = ''Body'',
      bd_from = None, bd_cc = None, bd_bcc = None, bd_templateId = None,
      bd_templateData = None, bd_batchSize = None, bd_delayBetweenBatches = None\<rparr>"

definition refusing :: delivery where
  "refusing transport options = Inl (Error ''Connection refused'')"

definition accepting :: delivery where
  "accepting transport options = Inr ''<1@example.com>''"

definition picky :: delivery where
  "picky transport options =
     (if mo_to options = Address ''bo@example.com'' then Inl (Error ''Mailbox unavailable'')
      else Inr ''<1@example.com>'')"

definition one_by_one :: BulkEmailData where
  "one_by_one = nameless_bulk\<lparr>bd_batchSize := Some 1\<rparr>"

definition exacting :: delivery where
  "exacting transport options =
     (if mo_html options =
           ''Hello ,\<newline>\<newline>'' @
           ''This is a default email template.\<newline>\<newline>'' @
           ''Best regards,\<newline>'' @
           ''The Team''
      then Inr ''<1@example.com>''
      else Inl (Error ''Message rejected''))"


section \<open>Properties of the template renderer\<close>

lemma match_placeholder_other: "c \<noteq> CHR ''{'' \<Longrightarrow> match_placeholder (c # s) = None"
  by (cases s) simp_all

lemma processTemplate_no_match:
  "match_placeholder (c # s) = None \<Longrightarrow> processTemplate (c # s) d = c # processTemplate s d"
  by simp

lemma processTemplate_match:
  "match_placeholder (c # s) = Some (key, r) \<Longrightarrow>
   processTemplate (c # s) d = replace_match d key @ processTemplate r d"
  by simp

lemma processTemplate_plain:
  "plain_text l \<Longrightarrow> processTemplate (l @ s) d = l @ processTemplate s d"
proof (induction l rule: plain_text.induct)
  case 1
  then show ?case by simp
next
  case (2 c)
  then have "match_placeholder (c # s) = None"
    by (simp add: match_placeholder_other)
  then show ?case
    by (simp add: processTemplate_no_match del: processTemplate.simps)
next
  case (3 c c' l)
  from "3.prems" have "match_placeholder (c # c' # l @ s) = None" by auto
  then have "processTemplate (c # c' # l @ s) d = c # processTemplate (c' # l @ s) d"
    by (rule processTemplate_no_match)
  moreover from 3 have "processTemplate ((c' # l) @ s) d = (c' # l) @ processTemplate s d"
    by (simp del: processTemplate.simps)
  ultimately show ?case by (simp del: processTemplate.simps)
qed

lemma match_placeholder_token:
  assumes "key \<noteq> []" and "CHR ''}'' \<notin> set key"
  shows "match_placeholder (''{{'' @ key @ ''}}'' @ s) = Some (key, s)"
proof -
  have all: "\<forall>c\<in>set key. c \<noteq> CHR ''}''" using assms(2) by auto
  have t: "takeWhile (\<lambda>c. c \<noteq> CHR ''}'') (key @ ''}}'' @ s) = key"
    using all by (simp add: takeWhile_append2)
  have dr: "dropWhile (\<lambda>c. c \<noteq> CHR ''}'') (key @ ''}}'' @ s) = ''}}'' @ s"
    using all by (simp add: dropWhile_append2)
  show ?thesis using assms(1) t dr by simp
qed

lemma processTemplate_token:
  assumes "key \<noteq> []" and "CHR ''}'' \<notin> set key"
  shows "processTemplate (''{{'' @ key @ ''}}'' @ s) d = replace_match d key @ processTemplate s d"
proof -
  have "match_placeholder (CHR ''{'' # (CHR ''{'' # key @ ''}}'' @ s)) = Some (key, s)"
    using match_placeholder_token [OF assms, of s] by simp
  then have "processTemplate (CHR ''{'' # (CHR ''{'' # key @ ''}}'' @ s)) d =
             replace_match d key @ processTemplate s d"
    by (rule processTemplate_match)
  then show ?thesis by (simp del: processTemplate.simps)
qed

lemma inherited_defined: "inherited k \<longleftrightarrow> Object_prototype k \<noteq> JUndefined"
  by (auto simp: inherited_def Object_prototype_def native_function_def)

lemma replace_match_render: "replace_match d key = render_piece d (Placeholder key)"
  by (simp add: replace_match_def js_get_def inherited_defined split: option.splits)









section \<open>Properties of the document store\<close>

lemma io_return_apply [simp]: "io_return x w = (Inr x, w)"
  by (simp add: io_return_def)

lemma io_throw_apply [simp]: "io_throw e w = (Inl e, w)"
  by (simp add: io_throw_def)

lemma io_bind_Inr: "m w = (Inr x, w') \<Longrightarrow> io_bind m f w = f x w'"
  by (simp add: io_bind_def)

lemma io_bind_Inl: "m w = (Inl e, w') \<Longrightarrow> io_bind m f w = (Inl e, w')"
  by (simp add: io_bind_def)

lemma io_catch_Inr: "m w = (Inr x, w') \<Longrightarrow> io_catch m h w = (Inr x, w')"
  by (simp add: io_catch_def)

lemma io_catch_Inl: "m w = (Inl e, w') \<Longrightarrow> io_catch m h w = h e w'"
  by (simp add: io_catch_def)

lemma getSmtpConfigs_apply: "getSmtpConfigs w = (Inr (stored_configs w), w)"
  by (simp add: getSmtpConfigs_def stored_configs_def io_catch_def io_bind_def readJson_config_def
      split: option.splits)

lemma stored_configs_eq:
  "stored_configs w =
     (case smtp_config_file w of
        None \<Rightarrow> DEFAULT_smtpServers
      | Some doc \<Rightarrow> (case smtpServers doc of Some cs \<Rightarrow> cs | None \<Rightarrow> []))"
  by (simp add: getSmtpConfigs_def stored_configs_def io_catch_def io_bind_def readJson_config_def
      split: option.splits)

lemma saveSmtpConfigs_apply:
  "saveSmtpConfigs configs w =
     (case smtp_config_file w of
        None \<Rightarrow> (Inr False, w)
      | Some doc \<Rightarrow>
          if smtp_config_writable w
          then (Inr True, w\<lparr>smtp_config_file := Some (doc\<lparr>smtpServers := Some configs\<rparr>)\<rparr>)
          else (Inr False, w))"
  by (simp add: saveSmtpConfigs_def io_catch_def io_bind_def readJson_config_def writeJson_config_def
      split: option.splits)

text \<open>
  C9. \<open>saveSmtpConfigs\<close> never throws and changes nothing but the configuration file.
  When it returns true the document it wrote is the document it read with its
  \<open>smtpServers\<close> replaced by the given list: the rate-limit settings and every other
  top-level field are the ones read. When the file cannot be read or cannot be written it
  returns false and the world is as before.
\<close>

theorem saveSmtpConfigs_frame:
  "(\<exists>ok w'. saveSmtpConfigs configs w = (Inr ok, w') \<and>
      smtp_config_writable w' = smtp_config_writable w \<and>
      templates_dir w' = templates_dir w \<and> templates_writable w' = templates_writable w \<and>
      log_file w' = log_file w \<and> log_writable w' = log_writable w \<and>
      clock w' = clock w \<and> timeline w' = timeline w \<and>
      (ok \<longrightarrow> (\<exists>doc doc'. smtp_config_file w = Some doc \<and> smtp_config_file w' = Some doc' \<and>
                 smtpServers doc' = Some configs \<and> rateLimit doc' = rateLimit doc \<and>
                 otherFields doc' = otherFields doc)) \<and>
      (\<not> ok \<longrightarrow> w' = w)) \<and>
   (smtp_config_file w = None \<or> \<not> smtp_config_writable w \<longrightarrow>
      saveSmtpConfigs configs w = (Inr False, w)) \<and>
   (smtp_config_file w \<noteq> None \<and> smtp_config_writable w \<longrightarrow>
      fst (saveSmtpConfigs configs w) = Inr True)"
  by (auto simp: saveSmtpConfigs_apply split: option.splits)


theorem saveSmtpConfigs_frame_witness:
  "smtp_config_file fresh_world \<noteq> None \<and> smtp_config_writable fresh_world \<and>
   fst (saveSmtpConfigs [] fresh_world) = Inr True \<and>
   saveSmtpConfigs [] (fresh_world\<lparr>smtp_config_writable := False\<rparr>) =
     (Inr False, fresh_world\<lparr>smtp_config_writable := False\<rparr>)"
proof -
  have a: "smtp_config_file fresh_world \<noteq> None" "smtp_config_writable fresh_world"
    by (simp_all add: fresh_world_def)
  have b: "\<not> smtp_config_writable (fresh_world\<lparr>smtp_config_writable := False\<rparr>)"
    by simp
  from a b saveSmtpConfigs_frame [of "[]" fresh_world]
    saveSmtpConfigs_frame [of "[]" "fresh_world\<lparr>smtp_config_writable := False\<rparr>"]
  show ?thesis by blast
qed

section \<open>Properties of the configuration handlers\<close>

lemma findIndex_Some:
  "findIndex P xs = Some i \<Longrightarrow> i < length xs \<and> P (xs ! i) \<and> find P xs = Some (xs ! i)"
proof (induction xs arbitrary: i)
  case Nil
  then show ?case by simp
next
  case (Cons x xs)
  then show ?case by (auto split: if_splits option.splits)
qed

lemma findIndex_None: "findIndex P xs = None \<Longrightarrow> find P xs = None"
  by (induction xs) (auto split: if_splits option.splits)

lemma count_split:
  "i < length xs \<Longrightarrow>
   length (filter P xs) =
     length (filter P (take i xs)) + (if P (xs ! i) then 1 else 0) + length (filter P (drop (Suc i) xs))"
proof -
  assume "i < length xs"
  then have "xs = take i xs @ xs ! i # drop (Suc i) xs" by (rule id_take_nth_drop)
  then have "filter P xs = filter P (take i xs @ xs ! i # drop (Suc i) xs)" by simp
  then show ?thesis by (simp del: append_take_drop_id)
qed

lemma count_update:
  "i < length xs \<Longrightarrow>
   length (filter P (xs[i := u])) =
     length (filter P (take i xs)) + (if P u then 1 else 0) + length (filter P (drop (Suc i) xs))"
  by (simp add: upd_conv_take_nth_drop)

lemma count_splice1:
  "i < length xs \<Longrightarrow>
   length (filter P (splice1 i xs)) = length (filter P (take i xs)) + length (filter P (drop (Suc i) xs))"
  by (simp add: splice1_def)

lemma clear_default_except_eq:
  "clear_default_except i cs = map (\<lambda>(k, c). if k \<noteq> i then c\<lparr>sc_isDefault := False\<rparr> else c) (enumerate 0 cs)"
  by (simp add: clear_default_except_def)

lemma clear_default_except_nth:
  "k < length cs \<Longrightarrow>
   clear_default_except i cs ! k = (if k \<noteq> i then (cs ! k)\<lparr>sc_isDefault := False\<rparr> else cs ! k)"
  by (simp add: clear_default_except_def nth_enumerate_eq)

lemma length_clear_default_except [simp]: "length (clear_default_except i cs) = length cs"
  by (simp add: clear_default_except_def)

lemma filter_none: "(\<And>x. x \<in> set xs \<Longrightarrow> \<not> P x) \<Longrightarrow> filter P xs = []"
  by (induction xs) auto

lemma count_clear_take:
  "n \<le> i \<Longrightarrow> filter sc_isDefault (take n (clear_default_except i cs)) = []"
proof (rule filter_none)
  fix x assume n: "n \<le> i" and "x \<in> set (take n (clear_default_except i cs))"
  then obtain k where k: "k < length (take n (clear_default_except i cs))"
    and x: "x = take n (clear_default_except i cs) ! k"
    by (auto simp: in_set_conv_nth)
  from k have "k < n" "k < length cs" by simp_all
  with n x show "\<not> sc_isDefault x" by (simp add: clear_default_except_nth)
qed

lemma count_clear_drop:
  "filter sc_isDefault (drop (Suc i) (clear_default_except i cs)) = []"
proof (rule filter_none)
  fix x assume "x \<in> set (drop (Suc i) (clear_default_except i cs))"
  then obtain k where k: "k < length (drop (Suc i) (clear_default_except i cs))"
    and x: "x = drop (Suc i) (clear_default_except i cs) ! k"
    by (auto simp: in_set_conv_nth)
  from k have "Suc i + k < length cs" by simp
  with x show "\<not> sc_isDefault x" by (simp add: clear_default_except_nth)
qed

lemma count_clear_update:
  "i < length cs \<Longrightarrow>
   length (filter sc_isDefault ((clear_default_except i cs)[i := u])) = (if sc_isDefault u then 1 else 0)"
  by (simp add: count_update count_clear_take count_clear_drop)

lemma count_map_clear:
  "filter sc_isDefault (map (\<lambda>config. config\<lparr>sc_isDefault := False\<rparr>) cs) = []"
  by (induction cs) auto

text \<open>What the three handlers hand to \<open>saveSmtpConfigs\<close>.\<close>

lemma saved_configs:
  "smtp_config_file w = Some doc \<Longrightarrow> smtp_config_writable w \<Longrightarrow>
   stored_configs (snd (saveSmtpConfigs configs w)) = configs"
  by (simp add: saveSmtpConfigs_apply stored_configs_eq)

lemma unsaved_configs:
  "\<not> smtp_config_writable w \<Longrightarrow> snd (saveSmtpConfigs configs w) = w"
  by (simp add: saveSmtpConfigs_apply split: option.splits)

lemma saveSmtpConfigs_Inr: "fst (saveSmtpConfigs configs w) = Inr (smtp_config_file w \<noteq> None \<and> smtp_config_writable w)"
  by (simp add: saveSmtpConfigs_apply split: option.splits)

lemma saveSmtpConfigs_readable:
  "smtp_config_file (snd (saveSmtpConfigs configs w)) = None \<longleftrightarrow> smtp_config_file w = None"
  by (simp add: saveSmtpConfigs_apply split: option.splits)

lemma saveSmtpConfigs_others:
  "templates_dir (snd (saveSmtpConfigs configs w)) = templates_dir w"
  "templates_writable (snd (saveSmtpConfigs configs w)) = templates_writable w"
  "smtp_config_writable (snd (saveSmtpConfigs configs w)) = smtp_config_writable w"
  "log_file (snd (saveSmtpConfigs configs w)) = log_file w"
  "log_writable (snd (saveSmtpConfigs configs w)) = log_writable w"
  by (simp_all add: saveSmtpConfigs_apply split: option.splits)

lemma io_bind_save:
  "io_bind (saveSmtpConfigs configs) (\<lambda>_. io_return r) w = (Inr r, snd (saveSmtpConfigs configs w))"
  by (simp add: io_bind_def saveSmtpConfigs_apply split: option.splits)

lemma handleAddSmtpConfig_apply:
  "handleAddSmtpConfig uuid p w =
     (let newConfig =
            \<lparr>sc_id = uuid, sc_name = asp_name p, sc_host = asp_host p,
             sc_port = asp_port p, sc_secure = nullish (asp_secure p) False,
             sc_auth = \<lparr>auth_user = asp_user p, auth_pass = asp_pass p\<rparr>,
             sc_isDefault = nullish (asp_isDefault p) False\<rparr>
      in (Inr (reply_config newConfig),
          snd (saveSmtpConfigs
                 ((if sc_isDefault newConfig
                   then map (\<lambda>config. config\<lparr>sc_isDefault := False\<rparr>) (stored_configs w)
                   else stored_configs w) @ [newConfig]) w)))"
  by (simp add: handleAddSmtpConfig_def io_catch_def io_bind_save Let_def
      io_bind_Inr [OF getSmtpConfigs_apply])

lemma handleDeleteSmtpConfig_apply:
  "handleDeleteSmtpConfig ident w =
     (case findIndex (\<lambda>config. sc_id config = ident) (stored_configs w) of
        None \<Rightarrow> (Inr (reply_message False (''SMTP configuration with ID '' @ ident @ '' not found'')), w)
      | Some i \<Rightarrow>
          if length (stored_configs w) = 1
          then (Inr (reply_message False ''Cannot delete the only SMTP configuration''), w)
          else (Inr (reply_message True ''SMTP configuration deleted successfully''),
                snd (saveSmtpConfigs
                       (if sc_isDefault (stored_configs w ! i) \<and> length (splice1 i (stored_configs w)) > 0
                        then promote_first_config (splice1 i (stored_configs w))
                        else splice1 i (stored_configs w)) w)))"
  by (simp add: handleDeleteSmtpConfig_def io_catch_def io_bind_save Let_def
      io_bind_Inr [OF getSmtpConfigs_apply] split: option.splits)

lemma handleUpdateSmtpConfig_apply:
  "handleUpdateSmtpConfig p w =
     (case findIndex (\<lambda>config. sc_id config = usp_id p) (stored_configs w) of
        None \<Rightarrow> (Inr (reply_message False (''SMTP configuration with ID '' @ usp_id p @ '' not found'')), w)
      | Some i \<Rightarrow>
          (Inr (reply_config (updated_config p (stored_configs w ! i))),
           snd (saveSmtpConfigs
                  ((if usp_isDefault p = Some True
                    then clear_default_except i (stored_configs w)
                    else stored_configs w)[i := updated_config p (stored_configs w ! i)]) w)))"
  by (auto simp: handleUpdateSmtpConfig_def io_catch_def io_bind_save Let_def updated_config_def
      io_bind_Inr [OF getSmtpConfigs_apply] split: option.splits)


lemma config_defaults_saved:
  "smtp_config_file w \<noteq> None \<Longrightarrow>
   config_defaults (snd (saveSmtpConfigs configs w)) =
     (if smtp_config_writable w then length (filter sc_isDefault configs) else config_defaults w)"
  by (auto simp: config_defaults_def saved_configs unsaved_configs)

lemma updated_config_isDefault:
  "sc_isDefault (updated_config p old) =
     (case usp_isDefault p of None \<Rightarrow> sc_isDefault old | Some b \<Rightarrow> b)"
  by (simp add: updated_config_def Let_def split: option.splits)

lemma count_promote_first:
  "cs \<noteq> [] \<Longrightarrow> filter sc_isDefault cs = [] \<Longrightarrow>
   length (filter sc_isDefault (promote_first_config cs)) = 1"
  by (cases cs) (auto simp: promote_first_config_def split: if_splits)

lemma splice1_nonempty: "i < length xs \<Longrightarrow> length xs \<noteq> 1 \<Longrightarrow> splice1 i xs \<noteq> []"
  by (cases xs) (auto simp: splice1_def)

lemma add_config_defaults:
  assumes "smtp_config_file w \<noteq> None"
  shows "config_defaults (snd (handleAddSmtpConfig uuid p w)) =
           (if smtp_config_writable w \<and> nullish (asp_isDefault p) False then 1 else config_defaults w)"
  using assms
  by (simp add: handleAddSmtpConfig_apply Let_def config_defaults_saved count_map_clear)
     (simp add: config_defaults_def)

lemma update_config_defaults:
  assumes r: "smtp_config_file w \<noteq> None"
    and f: "findIndex (\<lambda>config. sc_id config = usp_id p) (stored_configs w) = Some i"
  shows "config_defaults (snd (handleUpdateSmtpConfig p w)) =
           (if \<not> smtp_config_writable w then config_defaults w
            else case usp_isDefault p of
                   None \<Rightarrow> config_defaults w
                 | Some True \<Rightarrow> 1
                 | Some False \<Rightarrow> config_defaults w - (if sc_isDefault (stored_configs w ! i) then 1 else 0))"
proof -
  from findIndex_Some [OF f] have i: "i < length (stored_configs w)" by simp
  let ?u = "updated_config p (stored_configs w ! i)"
  have saved: "config_defaults (snd (handleUpdateSmtpConfig p w)) =
      (if smtp_config_writable w
       then length (filter sc_isDefault
              ((if usp_isDefault p = Some True
                then clear_default_except i (stored_configs w)
                else stored_configs w)[i := ?u]))
       else config_defaults w)"
    using r f by (simp add: handleUpdateSmtpConfig_apply config_defaults_saved)
  have whole: "config_defaults w =
      length (filter sc_isDefault (take i (stored_configs w))) +
      (if sc_isDefault (stored_configs w ! i) then 1 else 0) +
      length (filter sc_isDefault (drop (Suc i) (stored_configs w)))"
    unfolding config_defaults_def by (rule count_split [OF i])
  show ?thesis
  proof (cases "usp_isDefault p")
    case None
    then show ?thesis
      unfolding saved whole using i
      by (simp add: count_update updated_config_isDefault)
  next
    case (Some b)
    then show ?thesis
      unfolding saved whole using i
      by (cases b)
         (simp_all add: count_update count_clear_take count_clear_drop updated_config_isDefault)
  qed
qed

lemma update_config_missing:
  "findIndex (\<lambda>config. sc_id config = usp_id p) (stored_configs w) = None \<Longrightarrow>
   snd (handleUpdateSmtpConfig p w) = w"
  by (simp add: handleUpdateSmtpConfig_apply)

lemma delete_config_defaults:
  assumes r: "smtp_config_file w \<noteq> None" and m: "config_defaults w \<le> 1"
  shows "config_defaults (snd (handleDeleteSmtpConfig ident w)) \<le> 1 \<and>
         (config_defaults w = 1 \<longrightarrow> config_defaults (snd (handleDeleteSmtpConfig ident w)) = 1)"
proof (cases "findIndex (\<lambda>config. sc_id config = ident) (stored_configs w)")
  case None
  with m show ?thesis by (simp add: handleDeleteSmtpConfig_apply)
next
  case (Some i)
  from findIndex_Some [OF Some] have i: "i < length (stored_configs w)" by simp
  show ?thesis
  proof (cases "length (stored_configs w) = 1 \<or> \<not> smtp_config_writable w")
    case True
    with Some m r show ?thesis
      by (auto simp: handleDeleteSmtpConfig_apply config_defaults_saved)
  next
    case False
    then have ne: "splice1 i (stored_configs w) \<noteq> []" and wr: "smtp_config_writable w"
      and l: "length (stored_configs w) \<noteq> 1"
      using i by (simp_all add: splice1_nonempty)
    have whole: "config_defaults w =
        length (filter sc_isDefault (take i (stored_configs w))) +
        (if sc_isDefault (stored_configs w ! i) then 1 else 0) +
        length (filter sc_isDefault (drop (Suc i) (stored_configs w)))"
      unfolding config_defaults_def by (rule count_split [OF i])
    have rest: "length (filter sc_isDefault (splice1 i (stored_configs w))) =
        length (filter sc_isDefault (take i (stored_configs w))) +
        length (filter sc_isDefault (drop (Suc i) (stored_configs w)))"
      by (rule count_splice1 [OF i])
    show ?thesis
    proof (cases "sc_isDefault (stored_configs w ! i)")
      case True
      with m whole rest have none: "filter sc_isDefault (splice1 i (stored_configs w)) = []"
        by simp
      have "config_defaults (snd (handleDeleteSmtpConfig ident w)) =
            length (filter sc_isDefault (promote_first_config (splice1 i (stored_configs w))))"
        using True Some r wr l ne
        by (simp add: handleDeleteSmtpConfig_apply config_defaults_saved)
      then show ?thesis by (simp add: count_promote_first [OF ne none])
    next
      case False
      have "config_defaults (snd (handleDeleteSmtpConfig ident w)) =
            length (filter sc_isDefault (splice1 i (stored_configs w)))"
        using False Some r wr l
        by (simp add: handleDeleteSmtpConfig_apply config_defaults_saved)
      with False m whole rest show ?thesis by simp
    qed
  qed
qed

lemma config_handlers_readable:
  "smtp_config_file (snd (handleAddSmtpConfig uuid a w)) = None \<longleftrightarrow> smtp_config_file w = None"
  "smtp_config_file (snd (handleUpdateSmtpConfig u w)) = None \<longleftrightarrow> smtp_config_file w = None"
  "smtp_config_file (snd (handleDeleteSmtpConfig ident w)) = None \<longleftrightarrow> smtp_config_file w = None"
  by (simp_all add: handleAddSmtpConfig_apply handleUpdateSmtpConfig_apply
      handleDeleteSmtpConfig_apply Let_def saveSmtpConfigs_readable split: option.splits)

lemma config_handlers_templates:
  "templates_dir (snd (handleAddSmtpConfig uuid a w)) = templates_dir w"
  "templates_dir (snd (handleUpdateSmtpConfig u w)) = templates_dir w"
  "templates_dir (snd (handleDeleteSmtpConfig ident w)) = templates_dir w"
  "templates_writable (snd (handleAddSmtpConfig uuid a w)) = templates_writable w"
  "templates_writable (snd (handleUpdateSmtpConfig u w)) = templates_writable w"
  "templates_writable (snd (handleDeleteSmtpConfig ident w)) = templates_writable w"
  by (simp_all add: handleAddSmtpConfig_apply handleUpdateSmtpConfig_apply
      handleDeleteSmtpConfig_apply Let_def saveSmtpConfigs_others split: option.splits)

section \<open>Properties of the template handlers\<close>

lemma tidy_templates_dir_of:
  "distinct (map et_id ts) \<Longrightarrow> templates_dir w = Some (dir_of ts) \<Longrightarrow> tidy_templates w"
  by (simp add: tidy_templates_def dir_of_def list_all_iff comp_def)

lemma tidy_templates_obtain:
  assumes "tidy_templates w"
  shows "\<exists>ts. templates_dir w = Some (dir_of ts) \<and> distinct (map et_id ts)"
proof -
  from assms obtain files where f: "templates_dir w = Some files"
    and d: "distinct (map fst files)"
    and a: "list_all (\<lambda>file. case snd file of None \<Rightarrow> False | Some t \<Rightarrow> et_id t = fst file) files"
    by (auto simp: tidy_templates_def split: option.splits)
  have "files = dir_of (map (\<lambda>file. the (snd file)) files) \<and>
        map et_id (map (\<lambda>file. the (snd file)) files) = map fst files"
    using a by (induction files) (auto simp: dir_of_def split: option.splits)
  with f d show ?thesis by metis
qed

lemma read_templates_dir_of: "read_templates (dir_of ts) w = (Inr ts, w)"
  by (induction ts) (simp_all add: dir_of_def io_bind_def readJson_template_def)

lemma getEmailTemplates_dir_of:
  "templates_dir w = Some (dir_of ts) \<Longrightarrow> getEmailTemplates w = (Inr ts, w)"
  by (simp add: getEmailTemplates_def io_catch_def io_bind_def readdir_templates_def
      read_templates_dir_of)

lemma stored_templates_dir_of:
  "templates_dir w = Some (dir_of ts) \<Longrightarrow> stored_templates w = ts"
  by (simp add: stored_templates_def getEmailTemplates_dir_of)

lemma update_dir_of:
  "distinct (map et_id ts) \<Longrightarrow>
   AList.update (et_id t) (Some t) (dir_of ts) = dir_of (put_template t ts)"
proof (induction ts)
  case Nil
  then show ?case by (simp add: dir_of_def put_template_def)
next
  case (Cons x ts)
  then have ih: "AList.update (et_id t) (Some t) (dir_of ts) = dir_of (put_template t ts)"
    by simp
  show ?case
  proof (cases "et_id x = et_id t")
    case True
    with Cons.prems have "et_id t \<notin> et_id ` set ts" by simp
    then have "\<forall>y\<in>set ts. et_id y \<noteq> et_id t" by (metis imageI)
    then have "map (\<lambda>y. if et_id y = et_id t then t else y) ts = ts"
      by (simp add: map_idI)
    with True show ?thesis by (simp add: dir_of_def put_template_def)
  next
    case False
    with ih show ?thesis by (auto simp: dir_of_def put_template_def)
  qed
qed

lemma delete_dir_of: "AList.delete ident (dir_of ts) = dir_of (without_template ident ts)"
  by (induction ts) (auto simp: dir_of_def without_template_def)

lemma ids_put_template:
  "map et_id (put_template t ts) =
     (if et_id t \<in> set (map et_id ts) then map et_id ts else map et_id ts @ [et_id t])"
  by (auto simp: put_template_def)

lemma distinct_put_template:
  "distinct (map et_id ts) \<Longrightarrow> distinct (map et_id (put_template t ts))"
  by (simp add: ids_put_template)

lemma distinct_without_template:
  "distinct (map et_id ts) \<Longrightarrow> distinct (map et_id (without_template ident ts))"
  by (simp add: without_template_def distinct_map_filter)

lemma saveEmailTemplate_tidy:
  "templates_dir w = Some (dir_of ts) \<Longrightarrow> distinct (map et_id ts) \<Longrightarrow> templates_writable w \<Longrightarrow>
   saveEmailTemplate t w = (Inr True, w\<lparr>templates_dir := Some (dir_of (put_template t ts))\<rparr>)"
  by (simp add: saveEmailTemplate_def io_catch_def io_bind_def writeJson_template_def update_dir_of)

lemma saveEmailTemplate_readonly:
  "\<not> templates_writable w \<Longrightarrow> saveEmailTemplate t w = (Inr False, w)"
  by (simp add: saveEmailTemplate_def io_catch_def io_bind_def writeJson_template_def
      split: option.splits)

lemma deleteEmailTemplate_tidy:
  "templates_dir w = Some (dir_of ts) \<Longrightarrow> templates_writable w \<Longrightarrow>
   deleteEmailTemplate ident w =
     (Inr True, w\<lparr>templates_dir := Some (dir_of (without_template ident ts))\<rparr>)"
proof -
  assume d: "templates_dir w = Some (dir_of ts)" and wr: "templates_writable w"
  have "ident \<notin> fst ` set (dir_of ts) \<Longrightarrow> without_template ident ts = ts"
    by (auto simp: dir_of_def without_template_def image_iff filter_id_conv)
  then have "ident \<notin> fst ` set (dir_of ts) \<Longrightarrow>
             w\<lparr>templates_dir := Some (dir_of (without_template ident ts))\<rparr> = w"
    using d by simp
  with d wr show ?thesis
    by (simp add: deleteEmailTemplate_def io_catch_def io_bind_def remove_template_def delete_dir_of)
qed

lemma deleteEmailTemplate_readonly:
  "\<not> templates_writable w \<Longrightarrow> snd (deleteEmailTemplate ident w) = w \<and>
     (\<exists>ok. fst (deleteEmailTemplate ident w) = Inr ok)"
  by (auto simp: deleteEmailTemplate_def io_catch_def io_bind_def remove_template_def
      split: option.splits)

text \<open>The loop that clears flags, on a tidy directory.\<close>

lemma demote_templates_tidy:
  assumes "templates_dir w = Some (dir_of cur)" and "distinct (map et_id cur)"
    and "templates_writable w" and "set us \<subseteq> set cur" and "distinct (map et_id us)"
  shows "demote_templates P us w =
           (Inr (), w\<lparr>templates_dir := Some (dir_of
              (map (\<lambda>x. if x \<in> set us \<and> P x then x\<lparr>et_isDefault := False\<rparr> else x) cur))\<rparr>)"
  using assms
proof (induction us arbitrary: cur w)
  case Nil
  then show ?case by simp
next
  case (Cons u us)
  show ?case
  proof (cases "P u")
    case False
    have "map (\<lambda>x. if x \<in> set (u # us) \<and> P x then x\<lparr>et_isDefault := False\<rparr> else x) cur =
          map (\<lambda>x. if x \<in> set us \<and> P x then x\<lparr>et_isDefault := False\<rparr> else x) cur"
      using False by (intro map_cong) auto
    moreover have "demote_templates P us w =
        (Inr (), w\<lparr>templates_dir := Some (dir_of
           (map (\<lambda>x. if x \<in> set us \<and> P x then x\<lparr>et_isDefault := False\<rparr> else x) cur))\<rparr>)"
      using Cons.prems by (intro Cons.IH) simp_all
    moreover have "demote_templates P (u # us) w = demote_templates P us w"
      using False by simp
    ultimately show ?thesis by (simp only:)
  next
    case True
    let ?u' = "u\<lparr>et_isDefault := False\<rparr>"
    let ?cur' = "put_template ?u' cur"
    let ?w' = "w\<lparr>templates_dir := Some (dir_of ?cur')\<rparr>"
    from Cons.prems have ucur: "u \<in> set cur" by simp
    have put: "?cur' = map (\<lambda>x. if x = u then ?u' else x) cur"
    proof -
      have "\<And>x. x \<in> set cur \<Longrightarrow> (et_id x = et_id u) = (x = u)"
        using Cons.prems(2) ucur by (auto simp: distinct_map inj_on_def)
      then have "map (\<lambda>x. if et_id x = et_id ?u' then ?u' else x) cur =
                 map (\<lambda>x. if x = u then ?u' else x) cur"
        by (intro map_cong) auto
      with ucur show ?thesis by (auto simp: put_template_def)
    qed
    have save: "saveEmailTemplate ?u' w = (Inr True, ?w')"
      using Cons.prems by (simp add: saveEmailTemplate_tidy)
    from Cons.prems(5) have "et_id u \<notin> et_id ` set us" by simp
    then have notin: "\<And>x. x \<in> set us \<Longrightarrow> et_id x \<noteq> et_id u"
      by (metis imageI)
    have sub: "set us \<subseteq> set ?cur'"
    proof
      fix x assume x: "x \<in> set us"
      with Cons.prems(4) have "x \<in> set cur" by auto
      moreover from x notin have "x \<noteq> u" by auto
      ultimately show "x \<in> set ?cur'" unfolding put by (auto simp: image_iff)
    qed
    have ih: "demote_templates P us ?w' =
        (Inr (), ?w'\<lparr>templates_dir := Some (dir_of
           (map (\<lambda>x. if x \<in> set us \<and> P x then x\<lparr>et_isDefault := False\<rparr> else x) ?cur'))\<rparr>)"
      using Cons.prems sub by (intro Cons.IH) (simp_all add: distinct_put_template)
    have u'notin: "?u' \<notin> set us"
      using notin by force
    have final: "map (\<lambda>x. if x \<in> set us \<and> P x then x\<lparr>et_isDefault := False\<rparr> else x) ?cur' =
                 map (\<lambda>x. if x \<in> set (u # us) \<and> P x then x\<lparr>et_isDefault := False\<rparr> else x) cur"
      unfolding put using True u'notin by (auto simp: comp_def)
    show ?thesis
      using True save ih final by (simp add: io_bind_def io_catch_def)
  qed
qed

lemma demote_templates_all:
  assumes "templates_dir w = Some (dir_of ts)" and "distinct (map et_id ts)"
    and "templates_writable w"
  shows "demote_templates P ts w =
           (Inr (), w\<lparr>templates_dir := Some (dir_of
              (map (\<lambda>x. if P x then x\<lparr>et_isDefault := False\<rparr> else x) ts))\<rparr>)"
proof -
  have "map (\<lambda>x. if x \<in> set ts \<and> P x then x\<lparr>et_isDefault := False\<rparr> else x) ts =
        map (\<lambda>x. if P x then x\<lparr>et_isDefault := False\<rparr> else x) ts"
    by (intro map_cong) auto
  with demote_templates_tidy [OF assms(1,2,3) subset_refl assms(2), of P] show ?thesis by simp
qed

lemma demote_templates_readonly:
  "\<not> templates_writable w \<Longrightarrow> demote_templates P us w = (Inr (), w)"
  by (induction us) (simp_all add: io_bind_def io_catch_def saveEmailTemplate_readonly)

lemma ids_demoted:
  "map et_id (map (\<lambda>x. if Q x then x\<lparr>et_isDefault := False\<rparr> else x) ts) = map et_id ts"
  by (induction ts) auto

lemma read_templates_world: "snd (read_templates files w) = w"
proof (induction files)
  case Nil
  then show ?case by simp
next
  case (Cons f files)
  then show ?case
    by (cases "read_templates files w"; cases "snd f")
       (auto simp: io_bind_def readJson_template_def split: sum.splits)
qed

lemma getEmailTemplates_total: "\<exists>ts. getEmailTemplates w = (Inr ts, w)"
proof (cases "templates_dir w")
  case None
  then show ?thesis
    by (simp add: getEmailTemplates_def io_catch_def io_bind_def readdir_templates_def)
next
  case (Some files)
  obtain r where r: "read_templates files w = (r, w)"
    using read_templates_world [of files w] by (cases "read_templates files w") simp
  with Some show ?thesis
    by (cases r) (simp_all add: getEmailTemplates_def io_catch_def io_bind_def readdir_templates_def)
qed

lemma handleAddEmailTemplate_tidy:
  assumes "templates_dir w = Some (dir_of ts)" and "distinct (map et_id ts)"
    and "templates_writable w"
  shows "handleAddEmailTemplate uuid p w =
     (let newTemplate =
            \<lparr>et_id = uuid, et_name = atp_name p, et_subject = atp_subject p,
             et_body = atp_body p, et_isDefault = nullish (atp_isDefault p) False\<rparr>
      in (Inr (reply_template newTemplate),
          w\<lparr>templates_dir := Some (dir_of (put_template newTemplate
               (if et_isDefault newTemplate
                then map (\<lambda>x. if et_isDefault x then x\<lparr>et_isDefault := False\<rparr> else x) ts
                else ts)))\<rparr>))"
proof -
  let ?new = "\<lparr>et_id = uuid, et_name = atp_name p, et_subject = atp_subject p,
             et_body = atp_body p, et_isDefault = nullish (atp_isDefault p) False\<rparr>"
  let ?D = "map (\<lambda>x. if et_isDefault x then x\<lparr>et_isDefault := False\<rparr> else x) ts"
  show ?thesis
  proof (cases "nullish (atp_isDefault p) False")
    case True
    have d: "demote_templates et_isDefault ts w = (Inr (), w\<lparr>templates_dir := Some (dir_of ?D)\<rparr>)"
      by (rule demote_templates_all [OF assms])
    have "distinct (map et_id ?D)" using assms(2) by (simp only: ids_demoted)
    then have s: "saveEmailTemplate ?new (w\<lparr>templates_dir := Some (dir_of ?D)\<rparr>) =
             (Inr True, w\<lparr>templates_dir := Some (dir_of (put_template ?new ?D))\<rparr>)"
      using assms(3) saveEmailTemplate_tidy [of "w\<lparr>templates_dir := Some (dir_of ?D)\<rparr>" ?D ?new]
      by simp
    show ?thesis
      using True getEmailTemplates_dir_of [OF assms(1)] d s
      by (simp add: handleAddEmailTemplate_def io_catch_def io_bind_def Let_def)
  next
    case False
    have s: "saveEmailTemplate ?new w = (Inr True, w\<lparr>templates_dir := Some (dir_of (put_template ?new ts))\<rparr>)"
      by (rule saveEmailTemplate_tidy [OF assms])
    show ?thesis
      using False getEmailTemplates_dir_of [OF assms(1)] s
      by (simp add: handleAddEmailTemplate_def io_catch_def io_bind_def Let_def)
  qed
qed

lemma updated_template_id [simp]: "et_id (updated_template p t) = et_id t"
  by (simp add: updated_template_def Let_def)

lemma updated_template_isDefault:
  "et_isDefault (updated_template p t) =
     (case utp_isDefault p of None \<Rightarrow> et_isDefault t | Some b \<Rightarrow> b)"
  by (auto simp: updated_template_def Let_def nullish_def split: option.splits)

lemma find_Some_id: "find (\<lambda>t. et_id t = k) ts = Some t \<Longrightarrow> t \<in> set ts \<and> et_id t = k"
  by (auto simp: find_Some_iff)

lemma handleUpdateEmailTemplate_alt:
  "handleUpdateEmailTemplate p =
     io_catch
       (io_bind getEmailTemplates (\<lambda>templates.
        case find (\<lambda>t. et_id t = utp_id p) templates of
          None \<Rightarrow> io_return (reply_message False
                     (''Email template with ID '' @ utp_id p @ '' not found''))
        | Some template \<Rightarrow>
            io_bind (if utp_isDefault p = Some True \<and> \<not> et_isDefault template
                     then demote_templates (\<lambda>t. et_id t \<noteq> utp_id p \<and> et_isDefault t) templates
                     else io_return ()) (\<lambda>_.
            io_bind (saveEmailTemplate (updated_template p template)) (\<lambda>_.
            io_return (reply_template (updated_template p template))))))
       handler_failed"
proof -
  have c: "\<And>template. (utp_isDefault p \<noteq> None \<and> utp_isDefault p \<noteq> Some (et_isDefault template) \<and>
             et_isDefault (updated_template p template)) =
           (utp_isDefault p = Some True \<and> \<not> et_isDefault template)"
    by (auto simp: updated_template_isDefault)
  show ?thesis
    unfolding handleUpdateEmailTemplate_def Let_def updated_template_def [symmetric, unfolded Let_def]
    by (simp only: c conj_assoc)
qed

lemma handleUpdateEmailTemplate_tidy:
  assumes "templates_dir w = Some (dir_of ts)" and "distinct (map et_id ts)"
    and "templates_writable w"
  shows "handleUpdateEmailTemplate p w =
     (case find (\<lambda>t. et_id t = utp_id p) ts of
        None \<Rightarrow> (Inr (reply_message False (''Email template with ID '' @ utp_id p @ '' not found'')), w)
      | Some template \<Rightarrow>
          (Inr (reply_template (updated_template p template)),
           w\<lparr>templates_dir := Some (dir_of (put_template (updated_template p template)
              (if utp_isDefault p = Some True \<and> \<not> et_isDefault template
               then map (\<lambda>x. if et_id x \<noteq> utp_id p \<and> et_isDefault x
                              then x\<lparr>et_isDefault := False\<rparr> else x) ts
               else ts)))\<rparr>))"
proof (cases "find (\<lambda>t. et_id t = utp_id p) ts")
  case None
  then show ?thesis
    using getEmailTemplates_dir_of [OF assms(1)]
    by (simp add: handleUpdateEmailTemplate_alt io_catch_def io_bind_def)
next
  case (Some template)
  let ?u = "updated_template p template"
  let ?D = "map (\<lambda>x. if et_id x \<noteq> utp_id p \<and> et_isDefault x
                       then x\<lparr>et_isDefault := False\<rparr> else x) ts"
  show ?thesis
  proof (cases "utp_isDefault p = Some True \<and> \<not> et_isDefault template")
    case True
    have d: "demote_templates (\<lambda>t. et_id t \<noteq> utp_id p \<and> et_isDefault t) ts w =
             (Inr (), w\<lparr>templates_dir := Some (dir_of ?D)\<rparr>)"
      by (rule demote_templates_all [OF assms])
    have "distinct (map et_id ?D)" using assms(2) by (simp only: ids_demoted)
    then have s: "saveEmailTemplate ?u (w\<lparr>templates_dir := Some (dir_of ?D)\<rparr>) =
             (Inr True, w\<lparr>templates_dir := Some (dir_of (put_template ?u ?D))\<rparr>)"
      using assms(3) saveEmailTemplate_tidy [of "w\<lparr>templates_dir := Some (dir_of ?D)\<rparr>" ?D ?u]
      by simp
    show ?thesis
      using True Some getEmailTemplates_dir_of [OF assms(1)] d s
      by (simp add: handleUpdateEmailTemplate_alt io_catch_def io_bind_def)
  next
    case False
    have s: "saveEmailTemplate ?u w = (Inr True, w\<lparr>templates_dir := Some (dir_of (put_template ?u ts))\<rparr>)"
      by (rule saveEmailTemplate_tidy [OF assms])
    from False have c: "(utp_isDefault p = Some True \<and> \<not> et_isDefault template) = False"
      by simp
    show ?thesis
      using Some getEmailTemplates_dir_of [OF assms(1)] s
      by (simp add: handleUpdateEmailTemplate_alt io_catch_def io_bind_def c)
  qed
qed

lemma handleDeleteEmailTemplate_tidy:
  assumes "templates_dir w = Some (dir_of ts)" and "distinct (map et_id ts)"
    and "templates_writable w"
  shows "handleDeleteEmailTemplate ident w =
     (case find (\<lambda>t. et_id t = ident) ts of
        None \<Rightarrow> (Inr (reply_message False (''Email template with ID '' @ ident @ '' not found'')), w)
      | Some template \<Rightarrow>
          (Inr (reply_message True ''Email template deleted successfully''),
           w\<lparr>templates_dir := Some (dir_of (without_template ident
              (if et_isDefault template \<and> length ts > 1
               then (case find (\<lambda>t. et_id t \<noteq> ident) ts of
                       None \<Rightarrow> ts
                     | Some another \<Rightarrow> put_template (another\<lparr>et_isDefault := True\<rparr>) ts)
               else ts)))\<rparr>))"
proof (cases "find (\<lambda>t. et_id t = ident) ts")
  case None
  then show ?thesis
    using getEmailTemplates_dir_of [OF assms(1)]
    by (simp add: handleDeleteEmailTemplate_def io_catch_def io_bind_def)
next
  case (Some template)
  show ?thesis
  proof (cases "et_isDefault template \<and> length ts > 1 \<and> find (\<lambda>t. et_id t \<noteq> ident) ts \<noteq> None")
    case True
    then obtain another where a: "find (\<lambda>t. et_id t \<noteq> ident) ts = Some another" by auto
    let ?a = "another\<lparr>et_isDefault := True\<rparr>"
    let ?w = "w\<lparr>templates_dir := Some (dir_of (put_template ?a ts))\<rparr>"
    have s: "saveEmailTemplate ?a w = (Inr True, ?w)"
      by (rule saveEmailTemplate_tidy [OF assms])
    have d: "deleteEmailTemplate ident ?w =
             (Inr True, ?w\<lparr>templates_dir := Some (dir_of (without_template ident (put_template ?a ts)))\<rparr>)"
      using assms(3) by (intro deleteEmailTemplate_tidy) simp_all
    show ?thesis
      using True Some a s d getEmailTemplates_dir_of [OF assms(1)]
      by (simp add: handleDeleteEmailTemplate_def io_catch_def io_bind_def)
  next
    case False
    have d: "deleteEmailTemplate ident w =
             (Inr True, w\<lparr>templates_dir := Some (dir_of (without_template ident ts))\<rparr>)"
      by (rule deleteEmailTemplate_tidy [OF assms(1,3)])
    show ?thesis
      using False Some d getEmailTemplates_dir_of [OF assms(1)]
      by (auto simp: handleDeleteEmailTemplate_def io_catch_def io_bind_def split: option.splits)
  qed
qed

lemma template_handlers_readonly:
  assumes "\<not> templates_writable w"
  shows "snd (handleAddEmailTemplate uuid a w) = w"
    and "snd (handleUpdateEmailTemplate u w) = w"
    and "snd (handleDeleteEmailTemplate ident w) = w"
proof -
  obtain ts where g: "getEmailTemplates w = (Inr ts, w)"
    using getEmailTemplates_total by blast
  show "snd (handleAddEmailTemplate uuid a w) = w"
    using assms g
    by (simp add: handleAddEmailTemplate_def io_catch_def Let_def
        io_bind_def demote_templates_readonly saveEmailTemplate_readonly)
  show "snd (handleUpdateEmailTemplate u w) = w"
    using assms g
    by (simp add: handleUpdateEmailTemplate_def io_catch_def Let_def
        io_bind_def demote_templates_readonly saveEmailTemplate_readonly split: option.splits)
  obtain ok where d: "deleteEmailTemplate ident w = (Inr ok, w)"
    using deleteEmailTemplate_readonly [OF assms, of ident]
    by (cases "deleteEmailTemplate ident w") auto
  show "snd (handleDeleteEmailTemplate ident w) = w"
    using assms g d
    by (simp add: handleDeleteEmailTemplate_def io_catch_def Let_def
        io_bind_def saveEmailTemplate_readonly split: option.splits)
qed

lemma without_fresh: "k \<notin> set (map et_id ts) \<Longrightarrow> without_template k ts = ts"
  by (induction ts) (auto simp: without_template_def)

lemma count_without:
  "distinct (map et_id ts) \<Longrightarrow> t \<in> set ts \<Longrightarrow>
   length (filter P ts) = length (filter P (without_template (et_id t) ts)) + (if P t then 1 else 0)"
proof (induction ts)
  case Nil
  then show ?case by simp
next
  case (Cons x ts)
  show ?case
  proof (cases "x = t")
    case True
    with Cons.prems have "et_id t \<notin> set (map et_id ts)" by simp
    then have "without_template (et_id t) ts = ts" by (rule without_fresh)
    with True show ?thesis by (simp add: without_template_def)
  next
    case False
    with Cons.prems have t: "t \<in> set ts" by simp
    from Cons.prems have "et_id x \<notin> et_id ` set ts" by simp
    with t have "et_id x \<noteq> et_id t" by (metis imageI)
    with Cons t show ?thesis by (simp add: without_template_def)
  qed
qed

lemma count_without_le: "length (filter P (without_template k ts)) \<le> length (filter P ts)"
  by (induction ts) (auto simp: without_template_def)

lemma put_template_Cons_other:
  "et_id x \<noteq> et_id t \<Longrightarrow> put_template t (x # ts) = x # put_template t ts"
  by (simp add: put_template_def)

lemma put_template_Cons_same:
  "et_id x = et_id t \<Longrightarrow>
   put_template t (x # ts) = t # map (\<lambda>y. if et_id y = et_id t then t else y) ts"
  by (simp add: put_template_def)

lemma without_template_Cons:
  "without_template k (x # ts) = (if et_id x = k then without_template k ts else x # without_template k ts)"
  by (simp add: without_template_def)

lemma count_put:
  "distinct (map et_id ts) \<Longrightarrow>
   length (filter P (put_template t ts)) =
     length (filter P (without_template (et_id t) ts)) + (if P t then 1 else 0)"
proof (induction ts)
  case Nil
  then show ?case by (simp add: put_template_def without_template_def)
next
  case (Cons x ts)
  show ?case
  proof (cases "et_id x = et_id t")
    case True
    with Cons.prems have n: "et_id t \<notin> set (map et_id ts)" by simp
    then have "\<forall>y\<in>set ts. et_id y \<noteq> et_id t" by (metis imageI set_map)
    then have "map (\<lambda>y. if et_id y = et_id t then t else y) ts = ts"
      by (simp add: map_idI)
    with True without_fresh [OF n] show ?thesis
      by (simp add: put_template_Cons_same without_template_Cons)
  next
    case False
    from Cons have "length (filter P (put_template t ts)) =
      length (filter P (without_template (et_id t) ts)) + (if P t then 1 else 0)"
      by simp
    with False show ?thesis
      by (simp add: put_template_Cons_other without_template_Cons)
  qed
qed

lemma without_replaced:
  "without_template k (map (\<lambda>y. if et_id y = et_id t then t else y) ts) =
   map (\<lambda>y. if et_id y = et_id t then t else y) (without_template k ts)"
  by (induction ts) (auto simp: without_template_def)

lemma without_demoted:
  "without_template k (map (\<lambda>x. if Q x then x\<lparr>et_isDefault := False\<rparr> else x) ts) =
   map (\<lambda>x. if Q x then x\<lparr>et_isDefault := False\<rparr> else x) (without_template k ts)"
  by (induction ts) (auto simp: without_template_def)

lemma without_put_other:
  "et_id t \<noteq> k \<Longrightarrow> without_template k (put_template t ts) = put_template t (without_template k ts)"
proof (induction ts)
  case Nil
  then show ?case by (simp add: put_template_def without_template_def)
next
  case (Cons x ts)
  show ?case
  proof (cases "et_id x = et_id t")
    case True
    with Cons.prems show ?thesis
      by (simp add: put_template_Cons_same without_template_Cons without_replaced)
  next
    case False
    with Cons show ?thesis
      by (simp add: put_template_Cons_other without_template_Cons)
  qed
qed

lemma distinct_demoted_if:
  "distinct (map et_id ts) \<Longrightarrow>
   distinct (map et_id (if c then map (\<lambda>x. if Q x then x\<lparr>et_isDefault := False\<rparr> else x) ts else ts))"
  by (cases c) (simp_all only: ids_demoted if_True if_False)

lemma no_defaults_demoted:
  "filter et_isDefault (map (\<lambda>x. if et_isDefault x then x\<lparr>et_isDefault := False\<rparr> else x) ts) = []"
  by (induction ts) auto

lemma no_defaults_demoted_others:
  "filter et_isDefault (without_template k
     (map (\<lambda>x. if et_id x \<noteq> k \<and> et_isDefault x then x\<lparr>et_isDefault := False\<rparr> else x) ts)) = []"
  by (induction ts) (auto simp: without_template_def)

lemma filter_without_empty: "filter P ts = [] \<Longrightarrow> filter P (without_template k ts) = []"
  by (induction ts) (auto simp: without_template_def split: if_splits)

text \<open>The default count after each template handler, on a tidy writable directory.\<close>

lemma template_defaults_dir_of:
  "templates_dir w = Some (dir_of ts) \<Longrightarrow> template_defaults w = length (filter et_isDefault ts)"
  by (simp add: template_defaults_def stored_templates_dir_of)

lemma add_template_defaults:
  assumes d: "templates_dir w = Some (dir_of ts)" and i: "distinct (map et_id ts)"
    and wr: "templates_writable w"
  shows "\<exists>ts'. templates_dir (snd (handleAddEmailTemplate uuid p w)) = Some (dir_of ts') \<and>
           distinct (map et_id ts') \<and> ts' \<noteq> [] \<and>
           length (filter et_isDefault ts') =
             (if nullish (atp_isDefault p) False then 1
              else length (filter et_isDefault (without_template uuid ts)))"
proof -
  let ?new = "\<lparr>et_id = uuid, et_name = atp_name p, et_subject = atp_subject p,
             et_body = atp_body p, et_isDefault = nullish (atp_isDefault p) False\<rparr>"
  let ?D = "map (\<lambda>x. if et_isDefault x then x\<lparr>et_isDefault := False\<rparr> else x) ts"
  let ?base = "if nullish (atp_isDefault p) False then ?D else ts"
  have dist: "distinct (map et_id ?base)" using i by (rule distinct_demoted_if)
  have dir: "templates_dir (snd (handleAddEmailTemplate uuid p w)) = Some (dir_of (put_template ?new ?base))"
    by (simp add: handleAddEmailTemplate_tidy [OF d i wr] Let_def)
  have ne: "put_template ?new ?base \<noteq> []"
    by (auto simp: put_template_def)
  have cnt: "length (filter et_isDefault (put_template ?new ?base)) =
             length (filter et_isDefault (without_template uuid ?base)) +
             (if nullish (atp_isDefault p) False then 1 else 0)"
    using count_put [OF dist, of et_isDefault ?new] by simp
  have "nullish (atp_isDefault p) False \<Longrightarrow> filter et_isDefault (without_template uuid ?base) = []"
    by (simp add: filter_without_empty no_defaults_demoted)
  with cnt have "length (filter et_isDefault (put_template ?new ?base)) =
             (if nullish (atp_isDefault p) False then 1
              else length (filter et_isDefault (without_template uuid ts)))"
    by (cases "nullish (atp_isDefault p) False") simp_all
  with dir ne distinct_put_template [OF dist, of ?new] show ?thesis by blast
qed

lemma update_template_defaults:
  assumes d: "templates_dir w = Some (dir_of ts)" and i: "distinct (map et_id ts)"
    and wr: "templates_writable w"
    and f: "find (\<lambda>t. et_id t = utp_id p) ts = Some template"
  shows "\<exists>ts'. templates_dir (snd (handleUpdateEmailTemplate p w)) = Some (dir_of ts') \<and>
           distinct (map et_id ts') \<and> ts' \<noteq> [] \<and>
           length (filter et_isDefault ts') =
             (case utp_isDefault p of
                None \<Rightarrow> length (filter et_isDefault ts)
              | Some True \<Rightarrow> if et_isDefault template then length (filter et_isDefault ts) else 1
              | Some False \<Rightarrow> length (filter et_isDefault ts) - (if et_isDefault template then 1 else 0))"
proof -
  let ?u = "updated_template p template"
  let ?D = "map (\<lambda>x. if et_id x \<noteq> utp_id p \<and> et_isDefault x
                       then x\<lparr>et_isDefault := False\<rparr> else x) ts"
  let ?c = "utp_isDefault p = Some True \<and> \<not> et_isDefault template"
  let ?base = "if ?c then ?D else ts"
  from find_Some_id [OF f] have tin: "template \<in> set ts" and tid: "et_id template = utp_id p"
    by simp_all
  have dist: "distinct (map et_id ?base)" using i by (rule distinct_demoted_if)
  have dir: "templates_dir (snd (handleUpdateEmailTemplate p w)) = Some (dir_of (put_template ?u ?base))"
    using f by (simp add: handleUpdateEmailTemplate_tidy [OF d i wr])
  have ne: "put_template ?u ?base \<noteq> []"
    using tin by (auto simp: put_template_def)
  have cnt: "length (filter et_isDefault (put_template ?u ?base)) =
             length (filter et_isDefault (without_template (utp_id p) ?base)) +
             (if et_isDefault ?u then 1 else 0)"
    using count_put [OF dist, of et_isDefault ?u] tid by simp
  have whole: "length (filter et_isDefault ts) =
               length (filter et_isDefault (without_template (utp_id p) ts)) +
               (if et_isDefault template then 1 else 0)"
    using count_without [OF i tin, of et_isDefault] tid by simp
  have "length (filter et_isDefault (put_template ?u ?base)) =
             (case utp_isDefault p of
                None \<Rightarrow> length (filter et_isDefault ts)
              | Some True \<Rightarrow> if et_isDefault template then length (filter et_isDefault ts) else 1
              | Some False \<Rightarrow> length (filter et_isDefault ts) - (if et_isDefault template then 1 else 0))"
  proof (cases ?c)
    case True
    then show ?thesis
      unfolding cnt by (simp add: no_defaults_demoted_others updated_template_isDefault)
  next
    case False
    then have b: "?base = ts" by auto
    from cnt have "length (filter et_isDefault (put_template ?u ts)) =
             length (filter et_isDefault (without_template (utp_id p) ts)) +
             (if et_isDefault ?u then 1 else 0)"
      by (simp only: b)
    with False show ?thesis
      unfolding b whole
      by (auto simp: updated_template_isDefault split: option.splits bool.splits)
  qed
  with dir ne distinct_put_template [OF dist, of ?u] show ?thesis by blast
qed

lemma update_template_missing:
  assumes d: "templates_dir w = Some (dir_of ts)" and i: "distinct (map et_id ts)"
    and wr: "templates_writable w"
    and f: "find (\<lambda>t. et_id t = utp_id p) ts = None"
  shows "snd (handleUpdateEmailTemplate p w) = w"
  using f by (simp add: handleUpdateEmailTemplate_tidy [OF d i wr])

lemma find_other_exists:
  assumes "distinct (map et_id ts)" and "length ts > 1"
  shows "\<exists>a. find (\<lambda>t. et_id t \<noteq> k) ts = Some a"
proof -
  from assms obtain x y r where ts: "ts = x # y # r"
    by (cases ts; cases "tl ts") auto
  with assms(1) have "et_id x \<noteq> et_id y" by simp
  then have "et_id x \<noteq> k \<or> et_id y \<noteq> k" by auto
  with ts show ?thesis by auto
qed

lemma delete_template_defaults:
  assumes d: "templates_dir w = Some (dir_of ts)" and i: "distinct (map et_id ts)"
    and wr: "templates_writable w"
    and f: "find (\<lambda>t. et_id t = ident) ts = Some template"
    and m: "length (filter et_isDefault ts) \<le> 1"
  shows "\<exists>ts'. templates_dir (snd (handleDeleteEmailTemplate ident w)) = Some (dir_of ts') \<and>
           distinct (map et_id ts') \<and> length ts' = length ts - 1 \<and>
           length (filter et_isDefault ts') =
             (if length ts > 1 then length (filter et_isDefault ts) else 0)"
proof -
  from find_Some_id [OF f] have tin: "template \<in> set ts" and tid: "et_id template = ident"
    by simp_all
  have whole: "length (filter P ts) =
               length (filter P (without_template ident ts)) + (if P template then 1 else 0)" for P
    using count_without [OF i tin, of P] tid by simp
  have len: "length (without_template ident ts) = length ts - 1"
    using whole [of "\<lambda>_. True"] by simp
  show ?thesis
  proof (cases "et_isDefault template \<and> length ts > 1")
    case True
    then obtain a where a: "find (\<lambda>t. et_id t \<noteq> ident) ts = Some a"
      using find_other_exists [OF i, of ident] by auto
    then have aid: "et_id a \<noteq> ident" and ain: "a \<in> set ts"
      by (auto simp: find_Some_iff)
    let ?a = "a\<lparr>et_isDefault := True\<rparr>"
    let ?rest = "without_template ident ts"
    have dir: "templates_dir (snd (handleDeleteEmailTemplate ident w)) =
               Some (dir_of (put_template ?a ?rest))"
      using f a True aid
      by (simp add: handleDeleteEmailTemplate_tidy [OF d i wr] without_put_other)
    have dr: "distinct (map et_id ?rest)" by (rule distinct_without_template [OF i])
    have ainr: "a \<in> set ?rest" using ain aid by (simp add: without_template_def)
    then have "et_id ?a \<in> set (map et_id ?rest)" by force
    then have l: "length (put_template ?a ?rest) = length ?rest"
      by (simp add: put_template_def)
    from m True whole [of et_isDefault] have none: "filter et_isDefault ?rest = []" by simp
    have "length (filter et_isDefault (put_template ?a ?rest)) =
          length (filter et_isDefault (without_template (et_id ?a) ?rest)) + 1"
      using count_put [OF dr, of et_isDefault ?a] by simp
    also have "\<dots> = 1"
      using filter_without_empty [OF none, of "et_id ?a"] by simp
    finally have c: "length (filter et_isDefault (put_template ?a ?rest)) = 1" .
    from m True whole [of et_isDefault] have "length (filter et_isDefault ts) = 1" by simp
    with dir distinct_put_template [OF dr, of ?a] l len c True show ?thesis by auto
  next
    case False
    have dir: "templates_dir (snd (handleDeleteEmailTemplate ident w)) =
               Some (dir_of (without_template ident ts))"
      using f False by (auto simp: handleDeleteEmailTemplate_tidy [OF d i wr])
    have "length (filter et_isDefault (without_template ident ts)) =
          (if length ts > 1 then length (filter et_isDefault ts) else 0)"
    proof (cases "length ts > 1")
      case True
      with False whole [of et_isDefault] show ?thesis by simp
    next
      case False
      with len have "without_template ident ts = []" by simp
      with False show ?thesis by simp
    qed
    with dir distinct_without_template [OF i, of ident] len show ?thesis by blast
  qed
qed

lemma delete_template_missing:
  assumes d: "templates_dir w = Some (dir_of ts)" and i: "distinct (map et_id ts)"
    and wr: "templates_writable w"
    and f: "find (\<lambda>t. et_id t = ident) ts = None"
  shows "snd (handleDeleteEmailTemplate ident w) = w"
  using f by (simp add: handleDeleteEmailTemplate_tidy [OF d i wr])

lemma keepsD: "keeps f m \<Longrightarrow> f (snd (m w)) = f w"
  by (simp add: keeps_def)

lemma keeps_return [intro!, simp]: "keeps f (io_return x)"
  by (simp add: keeps_def)

lemma keeps_throw [intro!, simp]: "keeps f (io_throw e)"
  by (simp add: keeps_def)

lemma keeps_Pair [intro!, simp]: "keeps f (Pair r)"
  by (simp add: keeps_def)

lemma keeps_bind [intro!]: "keeps f m \<Longrightarrow> (\<And>x. keeps f (g x)) \<Longrightarrow> keeps f (io_bind m g)"
  by (auto simp: keeps_def io_bind_def split: prod.splits sum.splits) (metis snd_conv)+

lemma keeps_catch [intro!]: "keeps f m \<Longrightarrow> (\<And>e. keeps f (h e)) \<Longrightarrow> keeps f (io_catch m h)"
  by (auto simp: keeps_def io_catch_def split: prod.splits sum.splits) (metis snd_conv)+

lemma keeps_if [intro!]: "(c \<Longrightarrow> keeps f m) \<Longrightarrow> (\<not> c \<Longrightarrow> keeps f n) \<Longrightarrow> keeps f (if c then m else n)"
  by simp

lemma keeps_case_option [intro!]:
  "(x = None \<Longrightarrow> keeps f m) \<Longrightarrow> (\<And>y. x = Some y \<Longrightarrow> keeps f (n y)) \<Longrightarrow>
   keeps f (case x of None \<Rightarrow> m | Some y \<Rightarrow> n y)"
  by (cases x) simp_all

lemma keeps_handler_failed [intro!, simp]: "keeps f (handler_failed e)"
  by (simp add: handler_failed_def)

text \<open>Reading keeps everything.\<close>

lemma keeps_reads [intro!, simp]:
  "keeps f readJson_config" "keeps f readdir_templates" "keeps f (readJson_template file)"
  "keeps f pathExists_log" "keeps f readJson_log" "keeps f now"
  by (auto simp: keeps_def readJson_config_def readdir_templates_def readJson_template_def
      pathExists_log_def readJson_log_def now_def split: option.splits log_state.splits)

lemma keeps_read_templates [intro!, simp]: "keeps f (read_templates files)"
  by (induction files) auto

lemma keeps_getSmtpConfigs [intro!, simp]: "keeps f getSmtpConfigs"
  unfolding getSmtpConfigs_def by auto

lemma keeps_getDefaultSmtpConfig [intro!, simp]: "keeps f getDefaultSmtpConfig"
  unfolding getDefaultSmtpConfig_def by auto

lemma keeps_getEmailTemplates [intro!, simp]: "keeps f getEmailTemplates"
  unfolding getEmailTemplates_def by auto

lemma keeps_getDefaultEmailTemplate [intro!, simp]: "keeps f getDefaultEmailTemplate"
  unfolding getDefaultEmailTemplate_def by auto

text \<open>A write keeps what does not look at the file it writes.\<close>

lemma keeps_writeJson_template:
  "(\<And>w d. f (w\<lparr>templates_dir := d\<rparr>) = f w) \<Longrightarrow> keeps f (writeJson_template stem t)"
  by (simp add: keeps_def writeJson_template_def split: option.splits)

lemma keeps_remove_template:
  "(\<And>w d. f (w\<lparr>templates_dir := d\<rparr>) = f w) \<Longrightarrow> keeps f (remove_template stem)"
  by (simp add: keeps_def remove_template_def split: option.splits)

lemma keeps_saveEmailTemplate:
  "(\<And>w d. f (w\<lparr>templates_dir := d\<rparr>) = f w) \<Longrightarrow> keeps f (saveEmailTemplate t)"
  unfolding saveEmailTemplate_def by (auto intro: keeps_writeJson_template)

lemma keeps_deleteEmailTemplate:
  "(\<And>w d. f (w\<lparr>templates_dir := d\<rparr>) = f w) \<Longrightarrow> keeps f (deleteEmailTemplate ident)"
  unfolding deleteEmailTemplate_def by (auto intro: keeps_remove_template)

lemma keeps_demote_templates:
  "(\<And>w d. f (w\<lparr>templates_dir := d\<rparr>) = f w) \<Longrightarrow> keeps f (demote_templates P ts)"
  by (induction ts) (auto intro: keeps_saveEmailTemplate)

lemma keeps_template_handlers:
  assumes "\<And>w d. f (w\<lparr>templates_dir := d\<rparr>) = f w"
  shows "keeps f (handleAddEmailTemplate uuid a)"
    and "keeps f (handleUpdateEmailTemplate u)"
    and "keeps f (handleDeleteEmailTemplate ident)"
  unfolding handleAddEmailTemplate_def handleUpdateEmailTemplate_def
    handleDeleteEmailTemplate_def Let_def
  by (auto intro!: keeps_saveEmailTemplate keeps_deleteEmailTemplate keeps_demote_templates assms)

lemma template_handlers_config:
  "smtp_config_file (snd (handleAddEmailTemplate uuid a w)) = smtp_config_file w"
  "smtp_config_file (snd (handleUpdateEmailTemplate u w)) = smtp_config_file w"
  "smtp_config_file (snd (handleDeleteEmailTemplate ident w)) = smtp_config_file w"
  by (rule keepsD, rule keeps_template_handlers, simp)+

lemma template_handlers_writable:
  "templates_writable (snd (handleAddEmailTemplate uuid a w)) = templates_writable w"
  "templates_writable (snd (handleUpdateEmailTemplate u w)) = templates_writable w"
  "templates_writable (snd (handleDeleteEmailTemplate ident w)) = templates_writable w"
  by (rule keepsD, rule keeps_template_handlers, simp)+

lemma config_defaults_cong:
  "smtp_config_file w' = smtp_config_file w \<Longrightarrow> config_defaults w' = config_defaults w"
  by (simp add: config_defaults_def stored_configs_eq)

lemma stored_configs_cong:
  "smtp_config_file w' = smtp_config_file w \<Longrightarrow> stored_configs w' = stored_configs w"
  by (simp add: stored_configs_eq)

lemma read_templates_result: "fst (read_templates files w) = fst (read_templates files w')"
proof (induction files)
  case Nil
  then show ?case by simp
next
  case (Cons f files)
  obtain r where r: "read_templates files w = (r, w)"
    using read_templates_world [of files w] by (cases "read_templates files w") simp
  obtain r' where r': "read_templates files w' = (r', w')"
    using read_templates_world [of files w'] by (cases "read_templates files w'") simp
  from Cons r r' have "r = r'" by simp
  with r r' show ?case
    by (cases "snd f"; cases r') (auto simp: io_bind_def readJson_template_def)
qed

lemma stored_templates_cong:
  assumes "templates_dir w' = templates_dir w"
  shows "stored_templates w' = stored_templates w"
proof (cases "templates_dir w")
  case None
  with assms show ?thesis
    by (simp add: stored_templates_def getEmailTemplates_def io_catch_def io_bind_def
        readdir_templates_def)
next
  case (Some files)
  obtain r where r: "read_templates files w = (r, w)"
    using read_templates_world [of files w] by (cases "read_templates files w") simp
  obtain r' where r': "read_templates files w' = (r', w')"
    using read_templates_world [of files w'] by (cases "read_templates files w'") simp
  from r r' read_templates_result [of files w w'] have "r = r'" by simp
  with Some assms r r' show ?thesis
    by (cases r') (auto simp: stored_templates_def getEmailTemplates_def io_catch_def io_bind_def
        readdir_templates_def)
qed

section \<open>The default flags over sequences of calls\<close>

lemma config_step:
  assumes r: "smtp_config_file w \<noteq> None" and m: "config_defaults w \<le> 1"
  shows "smtp_config_file (snd (call_tool c w)) \<noteq> None \<and>
         config_defaults (snd (call_tool c w)) \<le> 1 \<and>
         (config_defaults w = 1 \<and> keeps_default c w \<longrightarrow> config_defaults (snd (call_tool c w)) = 1)"
proof (cases c)
  case (AddSmtpConfig uuid p)
  with r m show ?thesis
    by (simp add: config_handlers_readable add_config_defaults)
next
  case (UpdateSmtpConfig p)
  show ?thesis
  proof (cases "findIndex (\<lambda>config. sc_id config = usp_id p) (stored_configs w)")
    case None
    with UpdateSmtpConfig r m show ?thesis by (simp add: update_config_missing)
  next
    case (Some i)
    from findIndex_Some [OF Some]
    have f: "find (\<lambda>config. sc_id config = usp_id p) (stored_configs w) = Some (stored_configs w ! i)"
      by simp
    from UpdateSmtpConfig r m f show ?thesis
      by (auto simp: config_handlers_readable update_config_defaults [OF r Some]
          split: option.splits bool.splits)
  qed
next
  case (DeleteSmtpConfig ident)
  with r delete_config_defaults [OF r m, of ident] show ?thesis
    by (simp add: config_handlers_readable)
next
  case (AddEmailTemplate uuid p)
  with r m show ?thesis
    by (simp add: template_handlers_config config_defaults_cong [OF template_handlers_config(1)])
next
  case (UpdateEmailTemplate p)
  with r m show ?thesis
    by (simp add: template_handlers_config config_defaults_cong [OF template_handlers_config(2)])
next
  case (DeleteEmailTemplate ident)
  with r m show ?thesis
    by (simp add: template_handlers_config config_defaults_cong [OF template_handlers_config(3)])
qed

lemma tidy_templates_cong:
  "templates_dir w' = templates_dir w \<Longrightarrow> tidy_templates w' = tidy_templates w"
  by (simp add: tidy_templates_def)

lemma template_defaults_cong:
  "templates_dir w' = templates_dir w \<Longrightarrow> template_defaults w' = template_defaults w"
  by (simp add: template_defaults_def stored_templates_cong [of w' w])

lemma find_id_ids: "find (\<lambda>t. et_id t = k) ts = None \<longleftrightarrow> k \<notin> set (map et_id ts)"
  by (auto simp: find_None_iff)

lemma template_step:
  assumes t: "tidy_templates w" and m: "template_defaults w \<le> 1"
  shows "tidy_templates (snd (call_tool c w)) \<and>
         template_defaults (snd (call_tool c w)) \<le> 1 \<and>
         (template_defaults w = 1 \<and> keeps_default c w \<longrightarrow> template_defaults (snd (call_tool c w)) = 1)"
proof -
  from tidy_templates_obtain [OF t] obtain ts
    where d: "templates_dir w = Some (dir_of ts)" and i: "distinct (map et_id ts)"
    by blast
  have st: "stored_templates w = ts" by (rule stored_templates_dir_of [OF d])
  have td: "template_defaults w = length (filter et_isDefault ts)"
    by (rule template_defaults_dir_of [OF d])
  have same: ?thesis if "snd (call_tool c w) = w"
    unfolding that using t m by simp
  have result: ?thesis
    if a: "templates_dir (snd (call_tool c w)) = Some (dir_of ts')"
      and b: "distinct (map et_id ts')"
      and c1: "length (filter et_isDefault ts') \<le> 1"
      and c2: "template_defaults w = 1 \<and> keeps_default c w \<longrightarrow> length (filter et_isDefault ts') = 1"
    for ts'
  proof -
    have "tidy_templates (snd (call_tool c w))" by (rule tidy_templates_dir_of [OF b a])
    moreover have "template_defaults (snd (call_tool c w)) = length (filter et_isDefault ts')"
      by (rule template_defaults_dir_of [OF a])
    ultimately show ?thesis using c1 c2 by simp
  qed
  show ?thesis
  proof (cases c)
    case (AddSmtpConfig uuid p)
    with t m show ?thesis
      by (simp add: tidy_templates_cong [OF config_handlers_templates(1)]
          template_defaults_cong [OF config_handlers_templates(1)])
  next
    case (UpdateSmtpConfig p)
    with t m show ?thesis
      by (simp add: tidy_templates_cong [OF config_handlers_templates(2)]
          template_defaults_cong [OF config_handlers_templates(2)])
  next
    case (DeleteSmtpConfig ident)
    with t m show ?thesis
      by (simp add: tidy_templates_cong [OF config_handlers_templates(3)]
          template_defaults_cong [OF config_handlers_templates(3)])
  next
    case (AddEmailTemplate uuid p)
    show ?thesis
    proof (cases "templates_writable w")
      case False
      with AddEmailTemplate same show ?thesis by (simp add: template_handlers_readonly)
    next
      case True
      from add_template_defaults [OF d i True, of uuid p] obtain ts'
        where r: "templates_dir (snd (handleAddEmailTemplate uuid p w)) = Some (dir_of ts')"
          "distinct (map et_id ts')"
          "length (filter et_isDefault ts') =
             (if nullish (atp_isDefault p) False then 1
              else length (filter et_isDefault (without_template uuid ts)))"
        by blast
      have le: "length (filter et_isDefault (without_template uuid ts)) \<le> length (filter et_isDefault ts)"
        by (rule count_without_le)
      have fresh: "keeps_default c w \<Longrightarrow> without_template uuid ts = ts"
        using AddEmailTemplate st by (simp add: without_fresh)
      have a: "templates_dir (snd (call_tool c w)) = Some (dir_of ts')"
        using r(1) AddEmailTemplate by simp
      have c1: "length (filter et_isDefault ts') \<le> 1"
        using r(3) le m td by (simp split: if_splits)
      have c2: "template_defaults w = 1 \<and> keeps_default c w \<longrightarrow> length (filter et_isDefault ts') = 1"
        using r(3) fresh td by (simp split: if_splits)
      show ?thesis by (rule result [OF a r(2) c1 c2])
    qed
  next
    case (UpdateEmailTemplate p)
    show ?thesis
    proof (cases "templates_writable w")
      case False
      with UpdateEmailTemplate same show ?thesis by (simp add: template_handlers_readonly)
    next
      case True
      show ?thesis
      proof (cases "find (\<lambda>t. et_id t = utp_id p) ts")
        case None
        with UpdateEmailTemplate same show ?thesis
          by (simp add: update_template_missing [OF d i True])
      next
        case (Some template)
        from update_template_defaults [OF d i True Some] obtain ts'
          where r: "templates_dir (snd (handleUpdateEmailTemplate p w)) = Some (dir_of ts')"
            "distinct (map et_id ts')"
            "length (filter et_isDefault ts') =
             (case utp_isDefault p of
                None \<Rightarrow> length (filter et_isDefault ts)
              | Some True \<Rightarrow> if et_isDefault template then length (filter et_isDefault ts) else 1
              | Some False \<Rightarrow> length (filter et_isDefault ts) - (if et_isDefault template then 1 else 0))"
          by blast
        have a: "templates_dir (snd (call_tool c w)) = Some (dir_of ts')"
          using r(1) UpdateEmailTemplate by simp
        have c1: "length (filter et_isDefault ts') \<le> 1"
          using r(3) m td by (simp split: option.splits bool.splits if_splits)
        have kd: "keeps_default c w \<Longrightarrow> \<not> (utp_isDefault p = Some False \<and> et_isDefault template)"
          using UpdateEmailTemplate Some st by simp
        have c2: "template_defaults w = 1 \<and> keeps_default c w \<longrightarrow> length (filter et_isDefault ts') = 1"
          using r(3) kd td by (auto split: option.splits bool.splits if_splits)
        show ?thesis by (rule result [OF a r(2) c1 c2])
      qed
    qed
  next
    case (DeleteEmailTemplate ident)
    show ?thesis
    proof (cases "templates_writable w")
      case False
      with DeleteEmailTemplate same show ?thesis by (simp add: template_handlers_readonly)
    next
      case True
      show ?thesis
      proof (cases "find (\<lambda>t. et_id t = ident) ts")
        case None
        with DeleteEmailTemplate same show ?thesis
          by (simp add: delete_template_missing [OF d i True])
      next
        case (Some template)
        from m td have m': "length (filter et_isDefault ts) \<le> 1" by simp
        from delete_template_defaults [OF d i True Some m'] obtain ts'
          where r: "templates_dir (snd (handleDeleteEmailTemplate ident w)) = Some (dir_of ts')"
            "distinct (map et_id ts')"
            "length (filter et_isDefault ts') =
               (if length ts > 1 then length (filter et_isDefault ts) else 0)"
          by blast
        from find_Some_id [OF Some] have tin: "template \<in> set ts" "et_id template = ident"
          by simp_all
        have sole: "\<not> length ts > 1 \<Longrightarrow> map et_id ts = [ident]"
        proof -
          assume "\<not> length ts > 1"
          with tin(1) have "ts = [template]" by (cases ts) auto
          with tin(2) show ?thesis by simp
        qed
        have a: "templates_dir (snd (call_tool c w)) = Some (dir_of ts')"
          using r(1) DeleteEmailTemplate by simp
        have c1: "length (filter et_isDefault ts') \<le> 1"
          using r(3) m' by (simp split: if_splits)
        have kd: "keeps_default c w \<Longrightarrow> length ts > 1"
          using DeleteEmailTemplate st sole by auto
        have c2: "template_defaults w = 1 \<and> keeps_default c w \<longrightarrow> length (filter et_isDefault ts') = 1"
          using r(3) kd td by auto
        show ?thesis by (rule result [OF a r(2) c1 c2])
      qed
    qed
  qed
qed

lemma config_run:
  "smtp_config_file w \<noteq> None \<Longrightarrow> config_defaults w \<le> 1 \<Longrightarrow>
   config_defaults (run_calls calls w) \<le> 1 \<and>
   (config_defaults w = 1 \<and> steady calls w \<longrightarrow> config_defaults (run_calls calls w) = 1)"
proof (induction calls arbitrary: w)
  case Nil
  then show ?case by simp
next
  case (Cons c calls)
  from config_step [OF Cons.prems, of c] Cons.IH [of "snd (call_tool c w)"]
  show ?case by auto
qed

lemma template_run:
  "tidy_templates w \<Longrightarrow> template_defaults w \<le> 1 \<Longrightarrow>
   tidy_templates (run_calls calls w) \<and> template_defaults (run_calls calls w) \<le> 1 \<and>
   (template_defaults w = 1 \<and> steady calls w \<longrightarrow> template_defaults (run_calls calls w) = 1)"
proof (induction calls arbitrary: w)
  case Nil
  then show ?case by simp
next
  case (Cons c calls)
  from template_step [OF Cons.prems, of c] Cons.IH [of "snd (call_tool c w)"]
  show ?case by auto
qed

section \<open>The claims about the handlers\<close>

lemma put_hd:
  assumes "distinct (map et_id ts)" and "ts \<noteq> []"
  shows "put_template ((hd ts)\<lparr>et_isDefault := b\<rparr>) ts = (hd ts)\<lparr>et_isDefault := b\<rparr> # tl ts"
proof -
  from assms(2) obtain x r where ts: "ts = x # r" by (cases ts) auto
  with assms(1) have "et_id x \<notin> et_id ` set r" by simp
  then have "\<forall>y\<in>set r. et_id y \<noteq> et_id x" by (metis imageI)
  then have "map (\<lambda>y. if et_id y = et_id x then x\<lparr>et_isDefault := b\<rparr> else y) r = r"
    by (simp add: map_idI)
  with ts show ?thesis by (simp add: put_template_def)
qed

lemma find_hd_filter: "find P xs = Some a \<Longrightarrow> filter P xs \<noteq> [] \<and> hd (filter P xs) = a"
  by (induction xs) (auto split: if_splits)


lemma stored_configs_fresh:
  "stored_configs fresh_world =
     [\<lparr>sc_id = ''aws-ses'', sc_name = ''AWS SES'',
       sc_host = ''email-smtp.us-east-1.amazonaws.com'', sc_port = 587, sc_secure = False,
       sc_auth = \<lparr>auth_user = ''AKIAXXXXXXXXXXX'', auth_pass = ''XXXXXXXXXXXXXXXX''\<rparr>,
       sc_isDefault = True\<rparr>,
      \<lparr>sc_id = ''gmail'', sc_name = ''Gmail SMTP'',
       sc_host = ''smtp.gmail.com'', sc_port = 587, sc_secure = False,
       sc_auth = \<lparr>auth_user = ''eugproductions@gmail.com'', auth_pass = ''rovt fswq crlv bhzk''\<rparr>,
       sc_isDefault = False\<rparr>]"
  by (simp add: stored_configs_eq fresh_world_def DEFAULT_SMTP_CONFIG_def)

lemma fresh_world_fields:
  "smtp_config_file fresh_world = Some DEFAULT_SMTP_CONFIG"
  "smtp_config_writable fresh_world"
  "templates_dir fresh_world = Some (dir_of [DEFAULT_TEMPLATE, ESADE_TEMPLATE, IE_TEMPLATE])"
  "templates_writable fresh_world"
  "log_file fresh_world = LogEntries []"
  "log_writable fresh_world"
  by (simp_all add: fresh_world_def)

lemma builtin_template_ids:
  "et_id DEFAULT_TEMPLATE = ''default''" "et_id ESADE_TEMPLATE = ''esade-outreach''"
  "et_id IE_TEMPLATE = ''ie-outreach''"
  by (simp_all add: DEFAULT_TEMPLATE_def ESADE_TEMPLATE_def IE_TEMPLATE_def)

lemma fresh_templates_distinct: "distinct (map et_id [DEFAULT_TEMPLATE, ESADE_TEMPLATE, IE_TEMPLATE])"
  by (simp add: DEFAULT_TEMPLATE_def ESADE_TEMPLATE_def IE_TEMPLATE_def)


text \<open>
  C7. Deleting the only SMTP configuration is refused and changes nothing (whatever id
  is given, the call fails; with the id of that configuration the message is the refusal).
  Deleting the only template of a tidy, writable templates directory succeeds and leaves
  no template.
\<close>

theorem delete_sole_entry:
  "(stored_configs w = [c] \<longrightarrow>
      snd (handleDeleteSmtpConfig ident w) = w \<and>
      (\<exists>r. fst (handleDeleteSmtpConfig ident w) = Inr r \<and> \<not> r_success r) \<and>
      (sc_id c = ident \<longrightarrow>
         fst (handleDeleteSmtpConfig ident w) =
           Inr (reply_message False ''Cannot delete the only SMTP configuration''))) \<and>
   (templates_dir w = Some (dir_of [t]) \<and> templates_writable w \<and> et_id t = ident \<longrightarrow>
      fst (handleDeleteEmailTemplate ident w) =
        Inr (reply_message True ''Email template deleted successfully'') \<and>
      templates_dir (snd (handleDeleteEmailTemplate ident w)) = Some [] \<and>
      stored_templates (snd (handleDeleteEmailTemplate ident w)) = [])"
proof (intro conjI impI)
  assume s: "stored_configs w = [c]"
  show "snd (handleDeleteSmtpConfig ident w) = w"
    using s by (simp add: handleDeleteSmtpConfig_apply split: option.splits)
  show "\<exists>r. fst (handleDeleteSmtpConfig ident w) = Inr r \<and> \<not> r_success r"
    using s by (simp add: handleDeleteSmtpConfig_apply reply_message_def split: option.splits)
  show "fst (handleDeleteSmtpConfig ident w) =
        Inr (reply_message False ''Cannot delete the only SMTP configuration'')"
    if "sc_id c = ident"
    using s that by (simp add: handleDeleteSmtpConfig_apply)
next
  assume a: "templates_dir w = Some (dir_of [t]) \<and> templates_writable w \<and> et_id t = ident"
  then have d: "templates_dir w = Some (dir_of [t])" and wr: "templates_writable w"
    and i: "et_id t = ident" by simp_all
  have dist: "distinct (map et_id [t])" by simp
  have h: "handleDeleteEmailTemplate ident w =
      (Inr (reply_message True ''Email template deleted successfully''),
       w\<lparr>templates_dir := Some (dir_of [])\<rparr>)"
    using i by (simp add: handleDeleteEmailTemplate_tidy [OF d dist wr] without_template_def)
  show "fst (handleDeleteEmailTemplate ident w) =
        Inr (reply_message True ''Email template deleted successfully'')"
    by (simp add: h)
  show "templates_dir (snd (handleDeleteEmailTemplate ident w)) = Some []"
    by (simp add: h dir_of_def)
  show "stored_templates (snd (handleDeleteEmailTemplate ident w)) = []"
    by (simp add: h stored_templates_dir_of [of _ "[]"])
qed


theorem delete_sole_entry_witness:
  "stored_configs sole_world = [hd DEFAULT_smtpServers] \<and>
   sc_id (hd DEFAULT_smtpServers) = ''aws-ses'' \<and>
   handleDeleteSmtpConfig ''aws-ses'' sole_world =
     (Inr (reply_message False ''Cannot delete the only SMTP configuration''), sole_world) \<and>
   templates_dir sole_world = Some (dir_of [DEFAULT_TEMPLATE]) \<and>
   templates_writable sole_world \<and> et_id DEFAULT_TEMPLATE = ''default'' \<and>
   fst (handleDeleteEmailTemplate ''default'' sole_world) =
     Inr (reply_message True ''Email template deleted successfully'') \<and>
   stored_templates (snd (handleDeleteEmailTemplate ''default'' sole_world)) = []"
proof -
  have a: "stored_configs sole_world = [hd DEFAULT_smtpServers]"
    by (simp add: sole_world_def stored_configs_eq)
  have b: "sc_id (hd DEFAULT_smtpServers) = ''aws-ses''"
    by (simp add: DEFAULT_smtpServers_def DEFAULT_SMTP_CONFIG_def)
  have c: "templates_dir sole_world = Some (dir_of [DEFAULT_TEMPLATE])"
    "templates_writable sole_world" "et_id DEFAULT_TEMPLATE = ''default''"
    by (simp_all add: sole_world_def fresh_world_def DEFAULT_TEMPLATE_def)
  from a b c delete_sole_entry [of sole_world "hd DEFAULT_smtpServers" "''aws-ses''" DEFAULT_TEMPLATE]
    delete_sole_entry [of sole_world "hd DEFAULT_smtpServers" "''default''" DEFAULT_TEMPLATE]
  show ?thesis by (simp add: prod_eq_iff)
qed


text \<open>
  C8. When the entry a delete call removes is the default and others remain, the
  collection stored afterwards is the remaining entries in their order with the first of
  them made the default. For configurations the file must be readable and writable, for
  templates the directory tidy and writable.
\<close>

theorem delete_default_promotes_first:
  "(smtp_config_file w \<noteq> None \<and> smtp_config_writable w \<and>
    findIndex (\<lambda>c. sc_id c = ident) (stored_configs w) = Some i \<and>
    sc_isDefault (stored_configs w ! i) \<and> length (stored_configs w) > 1 \<longrightarrow>
      fst (handleDeleteSmtpConfig ident w) =
        Inr (reply_message True ''SMTP configuration deleted successfully'') \<and>
      stored_configs (snd (handleDeleteSmtpConfig ident w)) =
        (hd (take i (stored_configs w) @ drop (Suc i) (stored_configs w)))\<lparr>sc_isDefault := True\<rparr> #
        tl (take i (stored_configs w) @ drop (Suc i) (stored_configs w))) \<and>
   (templates_dir w = Some (dir_of ts) \<and> distinct (map et_id ts) \<and> templates_writable w \<and>
    find (\<lambda>t. et_id t = ident) ts = Some t \<and> et_isDefault t \<and> length ts > 1 \<longrightarrow>
      fst (handleDeleteEmailTemplate ident w) =
        Inr (reply_message True ''Email template deleted successfully'') \<and>
      stored_templates (snd (handleDeleteEmailTemplate ident w)) =
        (hd (filter (\<lambda>x. et_id x \<noteq> ident) ts))\<lparr>et_isDefault := True\<rparr> #
        tl (filter (\<lambda>x. et_id x \<noteq> ident) ts))"
proof (intro conjI impI)
  assume a: "smtp_config_file w \<noteq> None \<and> smtp_config_writable w \<and>
    findIndex (\<lambda>c. sc_id c = ident) (stored_configs w) = Some i \<and>
    sc_isDefault (stored_configs w ! i) \<and> length (stored_configs w) > 1"
  then obtain doc where doc: "smtp_config_file w = Some doc" by auto
  from a have f: "findIndex (\<lambda>c. sc_id c = ident) (stored_configs w) = Some i" by simp
  from findIndex_Some [OF f] have i: "i < length (stored_configs w)" by simp
  from a i have ne: "splice1 i (stored_configs w) \<noteq> []" by (simp add: splice1_nonempty)
  show "fst (handleDeleteSmtpConfig ident w) =
        Inr (reply_message True ''SMTP configuration deleted successfully'')"
    using a by (simp add: handleDeleteSmtpConfig_apply)
  have "stored_configs (snd (handleDeleteSmtpConfig ident w)) =
        promote_first_config (splice1 i (stored_configs w))"
    using a ne doc by (simp add: handleDeleteSmtpConfig_apply saved_configs)
  also have "\<dots> = (hd (splice1 i (stored_configs w)))\<lparr>sc_isDefault := True\<rparr> #
                   tl (splice1 i (stored_configs w))"
    using ne by (cases "splice1 i (stored_configs w)") (simp_all add: promote_first_config_def)
  finally show "stored_configs (snd (handleDeleteSmtpConfig ident w)) =
        (hd (take i (stored_configs w) @ drop (Suc i) (stored_configs w)))\<lparr>sc_isDefault := True\<rparr> #
        tl (take i (stored_configs w) @ drop (Suc i) (stored_configs w))"
    by (simp add: splice1_def)
next
  assume a: "templates_dir w = Some (dir_of ts) \<and> distinct (map et_id ts) \<and> templates_writable w \<and>
    find (\<lambda>t. et_id t = ident) ts = Some t \<and> et_isDefault t \<and> length ts > 1"
  then have d: "templates_dir w = Some (dir_of ts)" and dist: "distinct (map et_id ts)"
    and wr: "templates_writable w" and f: "find (\<lambda>t. et_id t = ident) ts = Some t"
    and df: "et_isDefault t" and l: "length ts > 1" by simp_all
  from find_other_exists [OF dist l, of ident]
  obtain another where an: "find (\<lambda>t. et_id t \<noteq> ident) ts = Some another" by blast
  then have aid: "et_id another \<noteq> ident" by (auto simp: find_Some_iff)
  let ?rest = "filter (\<lambda>x. et_id x \<noteq> ident) ts"
  from find_hd_filter [OF an] have rne: "?rest \<noteq> []" and hd: "hd ?rest = another" by simp_all
  have dr: "distinct (map et_id ?rest)"
    using distinct_without_template [OF dist, of ident] by (simp add: without_template_def)
  have h: "handleDeleteEmailTemplate ident w =
      (Inr (reply_message True ''Email template deleted successfully''),
       w\<lparr>templates_dir := Some (dir_of (put_template (another\<lparr>et_isDefault := True\<rparr>) ?rest))\<rparr>)"
    using f an df l aid
    by (simp add: handleDeleteEmailTemplate_tidy [OF d dist wr] without_put_other)
       (simp add: without_template_def)
  show "fst (handleDeleteEmailTemplate ident w) =
        Inr (reply_message True ''Email template deleted successfully'')"
    by (simp add: h)
  have "stored_templates (snd (handleDeleteEmailTemplate ident w)) =
        put_template (another\<lparr>et_isDefault := True\<rparr>) ?rest"
    by (simp add: h stored_templates_dir_of [of _ "put_template (another\<lparr>et_isDefault := True\<rparr>) ?rest"])
  also have "\<dots> = (hd ?rest)\<lparr>et_isDefault := True\<rparr> # tl ?rest"
    using put_hd [OF dr rne, of True] hd by simp
  finally show "stored_templates (snd (handleDeleteEmailTemplate ident w)) =
        (hd ?rest)\<lparr>et_isDefault := True\<rparr> # tl ?rest" .
qed


theorem delete_default_promotes_first_witness:
  "findIndex (\<lambda>c. sc_id c = ''aws-ses'') (stored_configs fresh_world) = Some 0 \<and>
   sc_isDefault (stored_configs fresh_world ! 0) \<and> length (stored_configs fresh_world) = 2 \<and>
   map (\<lambda>c. (sc_id c, sc_isDefault c))
     (stored_configs (snd (handleDeleteSmtpConfig ''aws-ses'' fresh_world))) = [(''gmail'', True)] \<and>
   find (\<lambda>t. et_id t = ''default'') [DEFAULT_TEMPLATE, ESADE_TEMPLATE, IE_TEMPLATE] = Some DEFAULT_TEMPLATE \<and>
   et_isDefault DEFAULT_TEMPLATE \<and>
   stored_templates (snd (handleDeleteEmailTemplate ''default'' fresh_world)) =
     [ESADE_TEMPLATE\<lparr>et_isDefault := True\<rparr>, IE_TEMPLATE]"
proof -
  have a: "findIndex (\<lambda>c. sc_id c = ''aws-ses'') (stored_configs fresh_world) = Some 0"
    "sc_isDefault (stored_configs fresh_world ! 0)" "length (stored_configs fresh_world) = 2"
    by (simp_all add: stored_configs_fresh)
  have b: "find (\<lambda>t. et_id t = ''default'') [DEFAULT_TEMPLATE, ESADE_TEMPLATE, IE_TEMPLATE] = Some DEFAULT_TEMPLATE"
    "et_isDefault DEFAULT_TEMPLATE"
    by (simp_all add: DEFAULT_TEMPLATE_def)
  have c: "filter (\<lambda>x. et_id x \<noteq> ''default'') [DEFAULT_TEMPLATE, ESADE_TEMPLATE, IE_TEMPLATE] =
           [ESADE_TEMPLATE, IE_TEMPLATE]"
    by (simp add: DEFAULT_TEMPLATE_def ESADE_TEMPLATE_def IE_TEMPLATE_def)
  from a b fresh_world_fields fresh_templates_distinct
    delete_default_promotes_first [of fresh_world "''aws-ses''" 0
      "[DEFAULT_TEMPLATE, ESADE_TEMPLATE, IE_TEMPLATE]" DEFAULT_TEMPLATE]
    delete_default_promotes_first [of fresh_world "''default''" 0
      "[DEFAULT_TEMPLATE, ESADE_TEMPLATE, IE_TEMPLATE]" DEFAULT_TEMPLATE]
  show ?thesis
    by (simp add: builtin_template_ids stored_configs_fresh)
qed


text \<open>
  C1, as amended. From a readable configuration file, or a tidy templates directory,
  with at most one default entry, every sequence of add, update and delete calls leaves
  at most one default entry. From exactly one default entry a steady sequence leaves
  exactly one.
\<close>

theorem default_flags_over_calls:
  "(smtp_config_file w \<noteq> None \<and> config_defaults w \<le> 1 \<longrightarrow>
      config_defaults (run_calls calls w) \<le> 1) \<and>
   (tidy_templates w \<and> template_defaults w \<le> 1 \<longrightarrow>
      template_defaults (run_calls calls w) \<le> 1) \<and>
   (smtp_config_file w \<noteq> None \<and> config_defaults w = 1 \<and> steady calls w \<longrightarrow>
      config_defaults (run_calls calls w) = 1) \<and>
   (tidy_templates w \<and> template_defaults w = 1 \<and> steady calls w \<longrightarrow>
      template_defaults (run_calls calls w) = 1)"
  using config_run [of w calls] template_run [of w calls] by auto

theorem default_flags_over_calls_witness:
  "smtp_config_file fresh_world \<noteq> None \<and> config_defaults fresh_world = 1 \<and>
   tidy_templates fresh_world \<and> template_defaults fresh_world = 1 \<and>
   steady [UpdateSmtpConfig \<lparr>usp_id = ''gmail'', usp_name = None, usp_host = None, usp_port = None,
             usp_secure = None, usp_user = None, usp_pass = None, usp_isDefault = Some True\<rparr>,
           DeleteEmailTemplate ''default''] fresh_world \<and>
   config_defaults (run_calls
          [UpdateSmtpConfig \<lparr>usp_id = ''gmail'', usp_name = None, usp_host = None, usp_port = None,
             usp_secure = None, usp_user = None, usp_pass = None, usp_isDefault = Some True\<rparr>,
           DeleteEmailTemplate ''default''] fresh_world) = 1 \<and>
   template_defaults (run_calls
          [UpdateSmtpConfig \<lparr>usp_id = ''gmail'', usp_name = None, usp_host = None, usp_port = None,
             usp_secure = None, usp_user = None, usp_pass = None, usp_isDefault = Some True\<rparr>,
           DeleteEmailTemplate ''default''] fresh_world) = 1"
proof -
  let ?p = "\<lparr>usp_id = ''gmail'', usp_name = None, usp_host = None, usp_port = None,
             usp_secure = None, usp_user = None, usp_pass = None, usp_isDefault = Some True\<rparr>"
  have a: "smtp_config_file fresh_world \<noteq> None" "config_defaults fresh_world = 1"
    by (simp_all add: fresh_world_fields config_defaults_def stored_configs_fresh)
  have b: "tidy_templates fresh_world"
    by (rule tidy_templates_dir_of [OF fresh_templates_distinct fresh_world_fields(3)])
  have st: "stored_templates fresh_world = [DEFAULT_TEMPLATE, ESADE_TEMPLATE, IE_TEMPLATE]"
    by (rule stored_templates_dir_of [OF fresh_world_fields(3)])
  have c: "template_defaults fresh_world = 1"
    by (simp add: template_defaults_def st DEFAULT_TEMPLATE_def ESADE_TEMPLATE_def IE_TEMPLATE_def)
  have "stored_templates (snd (handleUpdateSmtpConfig ?p fresh_world)) = stored_templates fresh_world"
    by (rule stored_templates_cong [OF config_handlers_templates(2)])
  then have s: "steady [UpdateSmtpConfig ?p, DeleteEmailTemplate ''default''] fresh_world"
    by (simp add: st)
  from a b c s default_flags_over_calls
    [of fresh_world "[UpdateSmtpConfig ?p, DeleteEmailTemplate ''default'']"]
  show ?thesis by simp
qed

text \<open>
  The claim as the specification states it fails: from the configuration document of the
  first start, which has exactly one default entry, one update call that passes
  \<^verbatim>\<open>isDefault: false\<close> for that entry leaves two entries and no default.
\<close>

theorem default_flag_lost:
  "config_defaults fresh_world = 1 \<and>
   map sc_isDefault (stored_configs (run_calls
     [UpdateSmtpConfig \<lparr>usp_id = ''aws-ses'', usp_name = None, usp_host = None, usp_port = None,
        usp_secure = None, usp_user = None, usp_pass = None, usp_isDefault = Some False\<rparr>]
     fresh_world)) = [False, False] \<and>
   config_defaults (run_calls
     [UpdateSmtpConfig \<lparr>usp_id = ''aws-ses'', usp_name = None, usp_host = None, usp_port = None,
        usp_secure = None, usp_user = None, usp_pass = None, usp_isDefault = Some False\<rparr>]
     fresh_world) = 0"
  by (simp add: config_defaults_def handleUpdateSmtpConfig_apply stored_configs_fresh
      saved_configs [OF fresh_world_fields(1) fresh_world_fields(2)] updated_config_def)




section \<open>Properties of the send pipeline\<close>

lemma logEmailActivity_apply:
  "logEmailActivity entry w =
     (if log_file w = LogCorrupt \<or> \<not> log_writable w then (Inr False, w)
      else (Inr True, w\<lparr>log_file := LogEntries (log_entries w @ [entry])\<rparr>))"
  by (cases "log_file w")
     (simp_all add: logEmailActivity_def io_catch_def io_bind_def pathExists_log_def
        readJson_log_def writeJson_log_def log_entries_def)

lemma keeps_logEmailActivity:
  "(\<And>w l. f (w\<lparr>log_file := l\<rparr>) = f w) \<Longrightarrow> keeps f (logEmailActivity entry)"
  by (simp add: keeps_def logEmailActivity_apply)

lemma keeps_log_each:
  "(\<And>w l. f (w\<lparr>log_file := l\<rparr>) = f w) \<Longrightarrow> keeps f (log_each mk rs)"
  by (induction rs) (auto intro: keeps_logEmailActivity)

lemma log_each_returns: "fst (log_each mk rs w) = Inr ()"
proof (induction rs arbitrary: w)
  case Nil
  then show ?case by simp
next
  case (Cons r rs)
  show ?case
    using Cons [of w] Cons [of "w\<lparr>log_file := LogEntries (log_entries w @ [mk (clock w) r])\<rparr>"]
    by (simp add: io_bind_def now_def logEmailActivity_apply)
qed

lemma log_each_appends:
  assumes "log_file w \<noteq> LogCorrupt" and "log_writable w"
  shows "log_entries (snd (log_each mk rs w)) = log_entries w @ map (mk (clock w)) rs"
  using assms
proof (induction rs arbitrary: w)
  case Nil
  then show ?case by simp
next
  case (Cons r rs)
  let ?w = "w\<lparr>log_file := LogEntries (log_entries w @ [mk (clock w) r])\<rparr>"
  have "log_entries (snd (log_each mk rs ?w)) = log_entries ?w @ map (mk (clock ?w)) rs"
    using Cons.prems by (intro Cons.IH) simp_all
  with Cons.prems show ?case
    by (simp add: io_bind_def now_def logEmailActivity_apply log_entries_def)
qed

lemma log_each_unwritable:
  "log_file w = LogCorrupt \<or> \<not> log_writable w \<Longrightarrow> snd (log_each mk rs w) = w"
  by (induction rs) (auto simp: io_bind_def now_def logEmailActivity_apply)

text \<open>Resolving the configuration: what \<open>createTransport\<close> finds, \<open>sendEmail\<close> finds again.\<close>

lemma createTransport_world: "snd (createTransport smtpConfigId w) = w"
proof -
  have "keeps (\<lambda>w. w) (createTransport smtpConfigId)"
    unfolding createTransport_def by (auto split: option.splits)
  then show ?thesis by (simp add: keeps_def)
qed

lemma getDefaultSmtpConfig_apply:
  "getDefaultSmtpConfig w =
     (Inr (case find sc_isDefault (stored_configs w) of
             Some c \<Rightarrow> c
           | None \<Rightarrow> (case stored_configs w of c # _ \<Rightarrow> c | [] \<Rightarrow> hd DEFAULT_smtpServers)), w)"
  by (simp add: getDefaultSmtpConfig_def io_bind_def getSmtpConfigs_apply)

lemma createTransport_apply:
  "createTransport smtpConfigId w =
     (if truthy smtpConfigId
      then (case find (\<lambda>c. Some (sc_id c) = smtpConfigId) (stored_configs w) of
              None \<Rightarrow> (Inl (Error (''SMTP configuration with ID '' @ the smtpConfigId @ '' not found'')), w)
            | Some config \<Rightarrow> (Inr config, w))
      else getDefaultSmtpConfig w)"
  by (simp add: createTransport_def io_bind_def getSmtpConfigs_apply split: option.splits)

lemma second_lookup:
  "createTransport smtpConfigId w = (Inr transport, w') \<Longrightarrow>
   (if truthy smtpConfigId
    then io_bind getSmtpConfigs (\<lambda>configs.
           io_return (find (\<lambda>c. Some (sc_id c) = smtpConfigId) configs))
    else io_bind getDefaultSmtpConfig (\<lambda>c. io_return (Some c))) w = (Inr (Some transport), w)"
  by (auto simp: createTransport_apply io_bind_def getSmtpConfigs_apply getDefaultSmtpConfig_apply
      split: if_splits option.splits)

lemma createTransport_cong:
  "smtp_config_file w' = smtp_config_file w \<Longrightarrow>
   fst (createTransport smtpConfigId w') = fst (createTransport smtpConfigId w)"
  by (simp add: createTransport_apply getDefaultSmtpConfig_apply stored_configs_cong [of w' w]
      split: option.splits)

text \<open>Rendering never throws and changes nothing.\<close>

lemma getEmailTemplates_apply: "getEmailTemplates w = (Inr (stored_templates w), w)"
  using getEmailTemplates_total [of w] by (auto simp: stored_templates_def)

lemma getDefaultEmailTemplate_apply:
  "getDefaultEmailTemplate w =
     (Inr (case find et_isDefault (stored_templates w) of
             Some t \<Rightarrow> t
           | None \<Rightarrow> (case stored_templates w of t # _ \<Rightarrow> t | [] \<Rightarrow> DEFAULT_TEMPLATE)), w)"
  by (simp add: getDefaultEmailTemplate_def io_bind_def getEmailTemplates_apply)

lemma generateEmailContent_apply:
  "generateEmailContent (ed_templateId data) (ed_templateData data) (ed_subject data) (ed_body data) w =
     (Inr (rendered data w), w)"
proof -
  have "\<exists>c. generateEmailContent (ed_templateId data) (ed_templateData data)
               (ed_subject data) (ed_body data) w = (Inr c, w)"
    by (simp add: generateEmailContent_def io_bind_def getEmailTemplates_apply
        getDefaultEmailTemplate_apply split: option.splits)
  then show ?thesis by (auto simp: rendered_def)
qed

lemma rendered_eq:
  "rendered data w =
     (if \<not> truthy (ed_templateId data) then (ed_subject data, ed_body data)
      else case (if ed_templateId data = Some ''default''
                 then Some (case find et_isDefault (stored_templates w) of
                              Some t \<Rightarrow> t
                            | None \<Rightarrow> (case stored_templates w of t # _ \<Rightarrow> t | [] \<Rightarrow> DEFAULT_TEMPLATE))
                 else find (\<lambda>t. Some (et_id t) = ed_templateId data) (stored_templates w)) of
             None \<Rightarrow> (ed_subject data, ed_body data)
           | Some t \<Rightarrow> (processTemplate (et_subject t) (nullish (ed_templateData data) Map.empty),
                       processTemplate (et_body t) (nullish (ed_templateData data) Map.empty)))"
  by (simp add: rendered_def generateEmailContent_def io_bind_def getEmailTemplates_apply
      getDefaultEmailTemplate_apply split: option.splits)

lemma rendered_cong:
  assumes "templates_dir w' = templates_dir w"
  shows "rendered data w' = rendered data w"
proof -
  have "stored_templates w' = stored_templates w"
    by (rule stored_templates_cong [OF assms])
  then show ?thesis by (simp only: rendered_eq)
qed

text \<open>The two ways \<open>sendEmail\<close> ends.\<close>

lemma log_each_pair: "\<exists>w'. log_each mk rs w = (Inr (), w')"
  using log_each_returns [of mk rs w] by (cases "log_each mk rs w") simp

lemma sendEmail_apply:
  "sendEmail deliver data smtpConfigId w =
     (case fst (createTransport smtpConfigId w) of
        Inl error \<Rightarrow> send_failed smtpConfigId data error w
      | Inr smtpConfig \<Rightarrow>
          (case deliver smtpConfig
                  (mail_options smtpConfig data (fst (rendered data w)) (snd (rendered data w))) of
             Inl error \<Rightarrow> send_failed smtpConfigId data error w
           | Inr messageId \<Rightarrow> send_done smtpConfig data messageId w))"
proof (cases "fst (createTransport smtpConfigId w)")
  case (Inl error)
  then have c: "createTransport smtpConfigId w = (Inl error, w)"
    using createTransport_world [of smtpConfigId w]
    by (cases "createTransport smtpConfigId w") simp
  obtain wl where lw: "log_each (failed_entry smtpConfigId data error) (recipients_of (ed_to data)) w = (Inr (), wl)"
    using log_each_pair by blast
  show ?thesis
    unfolding sendEmail_def
    using c Inl lw
    by (simp add: io_catch_def io_bind_def send_failed_def)
next
  case (Inr smtpConfig)
  then have c: "createTransport smtpConfigId w = (Inr smtpConfig, w)"
    using createTransport_world [of smtpConfigId w]
    by (cases "createTransport smtpConfigId w") simp
  note l = second_lookup [OF c]
  note g = generateEmailContent_apply [of data w]
  show ?thesis
  proof (cases "deliver smtpConfig
                  (mail_options smtpConfig data (fst (rendered data w)) (snd (rendered data w)))")
    case (Inl error)
    obtain wl where lw: "log_each (failed_entry smtpConfigId data error) (recipients_of (ed_to data)) w = (Inr (), wl)"
      using log_each_pair by blast
    show ?thesis
      unfolding sendEmail_def
      using c Inr l g Inl lw
      by (simp add: io_catch_def io_bind_def send_failed_def sendMail_def)
  next
    case (Inr messageId)
    obtain wl where lw: "log_each (sent_entry smtpConfig data (fst (rendered data w)) messageId)
          (recipients_of (ed_to data)) w = (Inr (), wl)"
      using log_each_pair by blast
    show ?thesis
      unfolding sendEmail_def
      using c \<open>fst (createTransport smtpConfigId w) = Inr smtpConfig\<close> l g Inr lw
      by (simp add: io_catch_def io_bind_def send_done_def sendMail_def)
  qed
qed

section \<open>Properties of the bulk pipeline\<close>

lemma sendEmail_returns: "\<exists>result. fst (sendEmail deliver data smtpConfigId w) = Inr result"
  by (simp add: sendEmail_apply send_failed_def send_done_def split: sum.splits)

lemma sendEmail_world:
  "\<exists>mk. snd (sendEmail deliver data smtpConfigId w) = snd (log_each mk (recipients_of (ed_to data)) w)"
  by (auto simp: sendEmail_apply send_failed_def send_done_def split: sum.splits)

lemma keeps_sendEmail:
  assumes "\<And>w l. f (w\<lparr>log_file := l\<rparr>) = f w"
  shows "keeps f (sendEmail deliver data smtpConfigId)"
  unfolding keeps_def
proof
  fix w
  from sendEmail_world [of deliver data smtpConfigId w] obtain mk
    where "snd (sendEmail deliver data smtpConfigId w) = snd (log_each mk (recipients_of (ed_to data)) w)"
    by blast
  then show "f (snd (sendEmail deliver data smtpConfigId w)) = f w"
    using keeps_log_each [OF assms, of mk "recipients_of (ed_to data)"] by (simp add: keeps_def)
qed

lemma sendEmail_cong:
  assumes "store w' = store w"
  shows "fst (sendEmail deliver data smtpConfigId w') = fst (sendEmail deliver data smtpConfigId w)"
proof -
  from assms have c: "smtp_config_file w' = smtp_config_file w" and t: "templates_dir w' = templates_dir w"
    by (simp_all add: store_def)
  show ?thesis
    unfolding sendEmail_apply createTransport_cong [OF c] rendered_cong [OF t]
    by (simp add: send_failed_def send_done_def split: sum.splits)
qed

lemma bulk_outcome_cong:
  "store w' = store w \<Longrightarrow>
   bulk_outcome deliver data smtpConfigId w' r = bulk_outcome deliver data smtpConfigId w r"
  by (simp add: bulk_outcome_def sendEmail_cong [of w' w])

lemma loggedI:
  "log_entries w' = log_entries w @ new \<Longrightarrow> map le_recipient new = map er_email rs \<Longrightarrow> logged w w' rs"
  by (simp add: logged_def)

lemma loggedD:
  "logged w w' rs \<Longrightarrow>
   \<exists>new. log_entries w' = log_entries w @ new \<and> map le_recipient new = map er_email rs"
  unfolding logged_def by (metis append_take_drop_id)

lemma logged_refl: "logged w w []"
  by (simp add: logged_def)

lemma logged_trans: "logged w w' rs \<Longrightarrow> logged w' w'' rs' \<Longrightarrow> logged w w'' (rs @ rs')"
proof -
  assume a: "logged w w' rs" and b: "logged w' w'' rs'"
  from loggedD [OF a] obtain n1 where n1: "log_entries w' = log_entries w @ n1"
    "map le_recipient n1 = map er_email rs" by blast
  from loggedD [OF b] obtain n2 where n2: "log_entries w'' = log_entries w' @ n2"
    "map le_recipient n2 = map er_email rs'" by blast
  from n1 n2 show ?thesis by (intro loggedI [of _ _ "n1 @ n2"]) simp_all
qed

lemma log_each_ok: "log_ok w \<Longrightarrow> log_ok (snd (log_each mk rs w))"
proof (induction rs arbitrary: w)
  case Nil
  then show ?case by simp
next
  case (Cons r rs)
  from Cons.prems have "log_ok (w\<lparr>log_file := LogEntries (log_entries w @ [mk (clock w) r])\<rparr>)"
    by (simp add: log_ok_def)
  from Cons.IH [OF this] Cons.prems show ?case
    by (simp add: io_bind_def now_def logEmailActivity_apply log_ok_def)
qed

lemma sendEmail_cases:
  "(\<exists>error. sendEmail deliver data smtpConfigId w = send_failed smtpConfigId data error w) \<or>
   (\<exists>smtpConfig messageId. sendEmail deliver data smtpConfigId w = send_done smtpConfig data messageId w)"
  by (simp add: sendEmail_apply split: sum.splits) blast

lemma send_failed_log:
  assumes "log_ok w"
  shows "log_entries (snd (send_failed smtpConfigId data error w)) =
           log_entries w @ map (failed_entry smtpConfigId data error (clock w)) (recipients_of (ed_to data))"
  using assms by (simp add: send_failed_def log_ok_def log_each_appends)

lemma send_done_log:
  assumes "log_ok w"
  shows "log_entries (snd (send_done smtpConfig data messageId w)) =
           log_entries w @ map (sent_entry smtpConfig data (fst (rendered data w)) messageId (clock w))
                              (recipients_of (ed_to data))"
  using assms by (simp add: send_done_def log_ok_def log_each_appends)

lemma sendEmail_log:
  assumes "log_ok w"
  shows "\<exists>result w' new.
           sendEmail deliver data smtpConfigId w = (Inr result, w') \<and>
           log_entries w' = log_entries w @ new \<and>
           map le_recipient new = map er_email (recipients_of (ed_to data)) \<and>
           (\<forall>e\<in>set new.
              le_success e = sr_success result \<and>
              le_subject e = (if sr_success result then fst (rendered data w) else ed_subject data))"
proof -
  from sendEmail_cases [of deliver data smtpConfigId w] show ?thesis
  proof (elim disjE exE)
    fix error
    assume s: "sendEmail deliver data smtpConfigId w = send_failed smtpConfigId data error w"
    let ?new = "map (failed_entry smtpConfigId data error (clock w)) (recipients_of (ed_to data))"
    have "sendEmail deliver data smtpConfigId w =
          (Inr \<lparr>sr_success = False, sr_message = Some (error_message error ''Unknown error sending email'')\<rparr>,
           snd (send_failed smtpConfigId data error w))"
      by (simp add: s send_failed_def)
    moreover have "log_entries (snd (send_failed smtpConfigId data error w)) = log_entries w @ ?new"
      by (rule send_failed_log [OF assms])
    moreover have "map le_recipient ?new = map er_email (recipients_of (ed_to data))"
      by (simp add: failed_entry_def comp_def)
    moreover have "\<forall>e\<in>set ?new. le_success e = False \<and> le_subject e = ed_subject data"
      by (auto simp: failed_entry_def)
    ultimately show ?thesis by (intro exI [of _ ?new] exI conjI) auto
  next
    fix smtpConfig messageId
    assume s: "sendEmail deliver data smtpConfigId w = send_done smtpConfig data messageId w"
    let ?new = "map (sent_entry smtpConfig data (fst (rendered data w)) messageId (clock w))
                  (recipients_of (ed_to data))"
    have "sendEmail deliver data smtpConfigId w =
          (Inr \<lparr>sr_success = True, sr_message = Some (''Message sent: '' @ messageId)\<rparr>,
           snd (send_done smtpConfig data messageId w))"
      by (simp add: s send_done_def)
    moreover have "log_entries (snd (send_done smtpConfig data messageId w)) = log_entries w @ ?new"
      by (rule send_done_log [OF assms])
    moreover have "map le_recipient ?new = map er_email (recipients_of (ed_to data))"
      by (simp add: sent_entry_def comp_def)
    moreover have "\<forall>e\<in>set ?new. le_success e = True \<and> le_subject e = fst (rendered data w)"
      by (auto simp: sent_entry_def)
    ultimately show ?thesis by (intro exI [of _ ?new] exI conjI) auto
  qed
qed

lemma sendEmail_logged:
  assumes "log_ok w"
  shows "log_ok (snd (sendEmail deliver data smtpConfigId w)) \<and>
         logged w (snd (sendEmail deliver data smtpConfigId w)) (recipients_of (ed_to data))"
proof -
  from sendEmail_world [of deliver data smtpConfigId w] obtain mk
    where "snd (sendEmail deliver data smtpConfigId w) =
           snd (log_each mk (recipients_of (ed_to data)) w)"
    by blast
  with log_each_ok [OF assms, of mk] have "log_ok (snd (sendEmail deliver data smtpConfigId w))"
    by simp
  moreover from sendEmail_log [OF assms, of deliver data smtpConfigId]
  have "logged w (snd (sendEmail deliver data smtpConfigId w)) (recipients_of (ed_to data))"
    by (auto intro: loggedI)
  ultimately show ?thesis by simp
qed

lemma send_one_apply:
  "send_one deliver data smtpConfigId r acc w =
     (Inr (if sr_success (bulk_outcome deliver data smtpConfigId w r)
           then (fst acc, snd acc + 1)
           else (fst acc @ [bulk_failure deliver data smtpConfigId w r], snd acc)),
      snd (sendEmail deliver (bulk_emailData data r) smtpConfigId w))"
proof -
  from sendEmail_returns [of deliver "bulk_emailData data r" smtpConfigId w]
  obtain result w' where s: "sendEmail deliver (bulk_emailData data r) smtpConfigId w = (Inr result, w')"
    by (cases "sendEmail deliver (bulk_emailData data r) smtpConfigId w") auto
  then have b: "bulk_outcome deliver data smtpConfigId w r = result"
    by (simp add: bulk_outcome_def)
  show ?thesis
    unfolding send_one_def bulk_failure_def b
    by (simp add: io_catch_def io_bind_def s)
qed

lemma bulk_failures_simps:
  "bulk_failures deliver data smtpConfigId w [] = []"
  "bulk_failures deliver data smtpConfigId w (r # rs) =
     (if sr_success (bulk_outcome deliver data smtpConfigId w r) then []
      else [bulk_failure deliver data smtpConfigId w r]) @ bulk_failures deliver data smtpConfigId w rs"
  "bulk_failures deliver data smtpConfigId w (xs @ ys) =
     bulk_failures deliver data smtpConfigId w xs @ bulk_failures deliver data smtpConfigId w ys"
  by (simp_all add: bulk_failures_def)

lemma bulk_sent_simps:
  "bulk_sent deliver data smtpConfigId w [] = 0"
  "bulk_sent deliver data smtpConfigId w (r # rs) =
     (if sr_success (bulk_outcome deliver data smtpConfigId w r) then 1 else 0) +
     bulk_sent deliver data smtpConfigId w rs"
  "bulk_sent deliver data smtpConfigId w (xs @ ys) =
     bulk_sent deliver data smtpConfigId w xs + bulk_sent deliver data smtpConfigId w ys"
  by (simp_all add: bulk_sent_def)

lemma sendEmail_frame:
  "store (snd (sendEmail deliver data smtpConfigId w)) = store w"
  "timeline (snd (sendEmail deliver data smtpConfigId w)) = timeline w"
  "clock (snd (sendEmail deliver data smtpConfigId w)) = clock w"
  by (rule keepsD, rule keeps_sendEmail, simp add: store_def)+

lemma send_batch_apply:
  assumes "store w = store w0"
  shows "\<exists>w'. send_batch deliver data smtpConfigId rs acc w =
            (Inr (fst acc @ bulk_failures deliver data smtpConfigId w0 rs,
                  snd acc + bulk_sent deliver data smtpConfigId w0 rs), w') \<and>
          store w' = store w0 \<and> timeline w' = timeline w \<and> clock w' = clock w \<and>
          (log_ok w \<longrightarrow> log_ok w' \<and> logged w w' rs)"
  using assms
proof (induction rs arbitrary: acc w)
  case Nil
  then show ?case by (simp add: bulk_failures_simps bulk_sent_simps logged_refl)
next
  case (Cons r rs)
  let ?w1 = "snd (sendEmail deliver (bulk_emailData data r) smtpConfigId w)"
  let ?acc1 = "if sr_success (bulk_outcome deliver data smtpConfigId w0 r)
           then (fst acc, snd acc + 1)
           else (fst acc @ [bulk_failure deliver data smtpConfigId w0 r], snd acc)"
  have o: "bulk_outcome deliver data smtpConfigId w r = bulk_outcome deliver data smtpConfigId w0 r"
    by (rule bulk_outcome_cong [OF Cons.prems])
  then have f: "bulk_failure deliver data smtpConfigId w r = bulk_failure deliver data smtpConfigId w0 r"
    by (simp add: bulk_failure_def)
  have one: "send_one deliver data smtpConfigId r acc w = (Inr ?acc1, ?w1)"
    by (simp add: send_one_apply o f)
  have st1: "store ?w1 = store w0" using Cons.prems by (simp add: sendEmail_frame)
  from Cons.IH [OF st1, of ?acc1] obtain w'
    where rest: "send_batch deliver data smtpConfigId rs ?acc1 ?w1 =
            (Inr (fst ?acc1 @ bulk_failures deliver data smtpConfigId w0 rs,
                  snd ?acc1 + bulk_sent deliver data smtpConfigId w0 rs), w')"
      and fr: "store w' = store w0" "timeline w' = timeline ?w1" "clock w' = clock ?w1"
      and lg: "log_ok ?w1 \<longrightarrow> log_ok w' \<and> logged ?w1 w' rs"
    by blast
  have res: "send_batch deliver data smtpConfigId (r # rs) acc w =
            (Inr (fst acc @ bulk_failures deliver data smtpConfigId w0 (r # rs),
                  snd acc + bulk_sent deliver data smtpConfigId w0 (r # rs)), w')"
    using one rest by (simp add: io_bind_def bulk_failures_simps bulk_sent_simps)
  have log: "log_ok w \<longrightarrow> log_ok w' \<and> logged w w' (r # rs)"
  proof
    assume ok: "log_ok w"
    from sendEmail_logged [OF ok, of deliver "bulk_emailData data r" smtpConfigId]
    have a: "log_ok ?w1" "logged w ?w1 [r]"
      by (simp_all add: bulk_emailData_def recipients_of_def)
    with lg have "log_ok w'" "logged ?w1 w' rs" by simp_all
    with a logged_trans [of w ?w1 "[r]" w' rs] show "log_ok w' \<and> logged w w' (r # rs)" by simp
  qed
  from res fr log show ?case by (simp add: sendEmail_frame)
qed

lemma js_slice_batch:
  assumes "0 \<le> i" and "i < int (length xs)" and "1 \<le> b"
  shows "js_slice xs i (i + b) = take (nat b) (drop (nat i) xs)"
proof -
  have k: "min i (int (length xs)) = i" using assms by simp
  have "nat (min (i + b) (int (length xs)) - i) = min (nat b) (length xs - nat i)"
    using assms by (simp add: min_def) linarith
  then show ?thesis
    using assms by (simp add: js_slice_def Let_def k del: min_less_iff_conj) (simp add: min_def)
qed

lemma batches_Nil [simp]: "batches n [] = []"
  by (simp add: batches.simps)

lemma batches_step: "n \<noteq> 0 \<Longrightarrow> xs \<noteq> [] \<Longrightarrow> batches n xs = take n xs # batches n (drop n xs)"
  by (subst batches.simps) simp

lemma batches_empty: "n \<noteq> 0 \<Longrightarrow> batches n xs = [] \<longleftrightarrow> xs = []"
  by (subst batches.simps) simp

lemma separated_Cons: "separated s (x # ys) = x # (if ys = [] then [] else s # separated s ys)"
  by (cases ys) simp_all

lemma frame_simps [simp]:
  "store (w\<lparr>timeline := t\<rparr>) = store w" "store (w\<lparr>clock := c\<rparr>) = store w"
  "log_ok (w\<lparr>timeline := t\<rparr>) = log_ok w" "log_ok (w\<lparr>clock := c\<rparr>) = log_ok w"
  "log_entries (w\<lparr>timeline := t\<rparr>) = log_entries w" "log_entries (w\<lparr>clock := c\<rparr>) = log_entries w"
  by (simp_all add: store_def log_ok_def log_entries_def)

lemma logged_frame [simp]:
  "logged (w\<lparr>timeline := t\<rparr>) w' rs = logged w w' rs"
  "logged w (w'\<lparr>timeline := t\<rparr>) rs = logged w w' rs"
  "logged w (w'\<lparr>clock := c\<rparr>) rs = logged w w' rs"
  by (simp_all add: logged_def)

lemma bulk_step_apply:
  assumes st: "store w = store w0" and i: "0 \<le> i" "i < int (length (bd_recipients data))"
    and b: "1 \<le> b"
  shows "\<exists>w'. bulk_step deliver data smtpConfigId b d i acc w =
            (Inr (fst acc @ bulk_failures deliver data smtpConfigId w0
                               (take (nat b) (drop (nat i) (bd_recipients data))),
                  snd acc + bulk_sent deliver data smtpConfigId w0
                               (take (nat b) (drop (nat i) (bd_recipients data)))), w') \<and>
          store w' = store w0 \<and>
          timeline w' = timeline w @ Batch (take (nat b) (drop (nat i) (bd_recipients data))) #
                          (if i + b < int (length (bd_recipients data)) then [Delay d] else []) \<and>
          (log_ok w \<longrightarrow> log_ok w' \<and> logged w w' (take (nat b) (drop (nat i) (bd_recipients data))))"
proof -
  let ?batch = "take (nat b) (drop (nat i) (bd_recipients data))"
  let ?w1 = "w\<lparr>timeline := timeline w @ [Batch ?batch]\<rparr>"
  have sl: "js_slice (bd_recipients data) i (i + b) = ?batch"
    by (rule js_slice_batch [OF i b])
  have st1: "store ?w1 = store w0" using st by simp
  from send_batch_apply [OF st1, of deliver data smtpConfigId ?batch acc] obtain w2
    where sb: "send_batch deliver data smtpConfigId ?batch acc ?w1 =
            (Inr (fst acc @ bulk_failures deliver data smtpConfigId w0 ?batch,
                  snd acc + bulk_sent deliver data smtpConfigId w0 ?batch), w2)"
      and fr: "store w2 = store w0" "timeline w2 = timeline ?w1" "clock w2 = clock ?w1"
      and lg: "log_ok ?w1 \<longrightarrow> log_ok w2 \<and> logged ?w1 w2 ?batch"
    by blast
  show ?thesis
  proof (cases "i + b < int (length (bd_recipients data))")
    case True
    have "bulk_step deliver data smtpConfigId b d i acc w =
            (Inr (fst acc @ bulk_failures deliver data smtpConfigId w0 ?batch,
                  snd acc + bulk_sent deliver data smtpConfigId w0 ?batch),
             w2\<lparr>clock := clock w2 + nat d, timeline := timeline w2 @ [Delay d]\<rparr>)"
      using True sb by (simp add: bulk_step_def sl io_bind_def dispatch_def sleep_def)
    with True fr lg show ?thesis by simp
  next
    case False
    have "bulk_step deliver data smtpConfigId b d i acc w =
            (Inr (fst acc @ bulk_failures deliver data smtpConfigId w0 ?batch,
                  snd acc + bulk_sent deliver data smtpConfigId w0 ?batch), w2)"
      using False sb by (simp add: bulk_step_def sl io_bind_def dispatch_def)
    with False fr lg show ?thesis by simp
  qed
qed

lemma bulk_loop_apply:
  assumes b: "1 \<le> b" and i: "0 \<le> i" and st: "store w = store w0"
  shows "\<exists>w'. bulk_loop deliver data smtpConfigId b d i acc w =
            Some (Inr (fst acc @ bulk_failures deliver data smtpConfigId w0
                                   (drop (nat i) (bd_recipients data)),
                       snd acc + bulk_sent deliver data smtpConfigId w0
                                   (drop (nat i) (bd_recipients data))), w') \<and>
          store w' = store w0 \<and>
          timeline w' = timeline w @
            separated (Delay d) (map Batch (batches (nat b) (drop (nat i) (bd_recipients data)))) \<and>
          (log_ok w \<longrightarrow> log_ok w' \<and> logged w w' (drop (nat i) (bd_recipients data)))"
  using i st
proof (induction "length (bd_recipients data) - nat i" arbitrary: i acc w rule: less_induct)
  case less
  let ?rs = "bd_recipients data"
  show ?case
  proof (cases "i < int (length ?rs)")
    case False
    then have "drop (nat i) ?rs = []" using less.prems by simp
    with False less.prems(2) show ?thesis
      by (subst bulk_loop.simps) (simp add: bulk_failures_simps bulk_sent_simps logged_refl)
  next
    case True
    let ?batch = "take (nat b) (drop (nat i) ?rs)"
    let ?acc1 = "(fst acc @ bulk_failures deliver data smtpConfigId w0 ?batch,
                  snd acc + bulk_sent deliver data smtpConfigId w0 ?batch)"
    from bulk_step_apply [OF less.prems(2) less.prems(1) True b, of deliver smtpConfigId d acc]
    obtain w1 where step: "bulk_step deliver data smtpConfigId b d i acc w = (Inr ?acc1, w1)"
      and st1: "store w1 = store w0"
      and tl1: "timeline w1 = timeline w @ Batch ?batch #
                          (if i + b < int (length ?rs) then [Delay d] else [])"
      and lg1: "log_ok w \<longrightarrow> log_ok w1 \<and> logged w w1 ?batch"
      by blast
    have m: "length ?rs - nat (i + b) < length ?rs - nat i"
      using True less.prems(1) b by linarith
    have i': "0 \<le> i + b" using less.prems(1) b by simp
    from less.hyps [OF m i' st1, of ?acc1] obtain w'
      where rest: "bulk_loop deliver data smtpConfigId b d (i + b) ?acc1 w1 =
            Some (Inr (fst ?acc1 @ bulk_failures deliver data smtpConfigId w0 (drop (nat (i + b)) ?rs),
                       snd ?acc1 + bulk_sent deliver data smtpConfigId w0 (drop (nat (i + b)) ?rs)), w')"
        and st': "store w' = store w0"
        and tl': "timeline w' = timeline w1 @
            separated (Delay d) (map Batch (batches (nat b) (drop (nat (i + b)) ?rs)))"
        and lg': "log_ok w1 \<longrightarrow> log_ok w' \<and> logged w1 w' (drop (nat (i + b)) ?rs)"
      by blast
    have dr: "drop (nat (i + b)) ?rs = drop (nat b) (drop (nat i) ?rs)"
      using less.prems(1) b by (simp add: nat_add_distrib add.commute)
    have split: "drop (nat i) ?rs = ?batch @ drop (nat (i + b)) ?rs"
      by (simp only: dr append_take_drop_id)
    have ne: "drop (nat i) ?rs \<noteq> []" using True less.prems(1) by simp
    have nb: "nat b \<noteq> 0" using b by simp
    have bt: "batches (nat b) (drop (nat i) ?rs) = ?batch # batches (nat b) (drop (nat (i + b)) ?rs)"
      unfolding dr by (rule batches_step [OF nb ne])
    have more: "(batches (nat b) (drop (nat (i + b)) ?rs) = []) = (\<not> i + b < int (length ?rs))"
      using less.prems(1) b by (simp add: batches_empty [OF nb]) linarith
    have f_eq: "bulk_failures deliver data smtpConfigId w0 (drop (nat i) ?rs) =
                bulk_failures deliver data smtpConfigId w0 ?batch @
                bulk_failures deliver data smtpConfigId w0 (drop (nat (i + b)) ?rs)"
      using arg_cong [OF split, of "bulk_failures deliver data smtpConfigId w0"]
      by (simp only: bulk_failures_simps(3))
    have s_eq: "bulk_sent deliver data smtpConfigId w0 (drop (nat i) ?rs) =
                bulk_sent deliver data smtpConfigId w0 ?batch +
                bulk_sent deliver data smtpConfigId w0 (drop (nat (i + b)) ?rs)"
      using arg_cong [OF split, of "bulk_sent deliver data smtpConfigId w0"]
      by (simp only: bulk_sent_simps(3))
    have "bulk_loop deliver data smtpConfigId b d i acc w =
          bulk_loop deliver data smtpConfigId b d (i + b) ?acc1 w1"
      by (subst bulk_loop.simps) (simp only: True if_True step prod.case sum.case)
    then have res: "bulk_loop deliver data smtpConfigId b d i acc w =
            Some (Inr (fst acc @ bulk_failures deliver data smtpConfigId w0 (drop (nat i) ?rs),
                       snd acc + bulk_sent deliver data smtpConfigId w0 (drop (nat i) ?rs)), w')"
      by (simp only: rest f_eq s_eq fst_conv snd_conv append_assoc add.assoc)
    have tl: "timeline w' = timeline w @
            separated (Delay d) (map Batch (batches (nat b) (drop (nat i) ?rs)))"
      unfolding tl' tl1 bt using more by (simp add: separated_Cons)
    have lg: "log_ok w \<longrightarrow> log_ok w' \<and> logged w w' (drop (nat i) ?rs)"
    proof
      assume "log_ok w"
      with lg1 have a: "log_ok w1" "logged w w1 ?batch" by simp_all
      with lg' have c: "log_ok w'" "logged w1 w' (drop (nat (i + b)) ?rs)" by simp_all
      from logged_trans [OF a(2) c(2)] c(1) split
      show "log_ok w' \<and> logged w w' (drop (nat i) ?rs)" by simp
    qed
    from res st' tl lg show ?thesis by blast
  qed
qed

lemma ceil_step:
  assumes "0 < n" and "0 < (m::nat)"
  shows "Suc ((m - n + n - 1) div n) = (m + n - 1) div n"
proof (cases "n \<le> m")
  case True
  then have "m - n + n - 1 = m - 1" by simp
  moreover have "m + n - 1 = (m - 1) + n" using assms by simp
  ultimately show ?thesis using assms(1) by (simp only: div_add_self2)
next
  case False
  then have a: "m - n + n - 1 = n - 1" by simp
  have b: "m + n - 1 = (m - 1) + n" using assms by simp
  have c: "(m - 1) div n = 0" using False assms by simp
  have d: "(n - 1) div n = 0" using assms by simp
  show ?thesis unfolding a b using assms(1) c d by (simp only: div_add_self2)
qed

lemma length_batches:
  "0 < n \<Longrightarrow> length (batches n xs) = (length xs + n - 1) div n"
proof (induction n xs rule: batches.induct)
  case (1 n xs)
  show ?case
  proof (cases "xs = []")
    case True
    with 1 show ?thesis by simp
  next
    case False
    with 1 have ih: "length (batches n (drop n xs)) = (length (drop n xs) + n - 1) div n"
      by simp
    from False have pos: "0 < length xs" by simp
    from False 1 have "length (batches n xs) = Suc (length (batches n (drop n xs)))"
      by (simp add: batches_step)
    also have "\<dots> = Suc ((length xs - n + n - 1) div n)" by (simp add: ih)
    also have "\<dots> = (length xs + n - 1) div n" by (rule ceil_step [OF 1(2) pos])
    finally show ?thesis .
  qed
qed

lemma concat_batches: "0 < n \<Longrightarrow> concat (batches n xs) = xs"
proof (induction n xs rule: batches.induct)
  case (1 n xs)
  show ?case
  proof (cases "xs = []")
    case True
    then show ?thesis by simp
  next
    case False
    with 1 have "concat (batches n (drop n xs)) = drop n xs" by simp
    with False 1 show ?thesis by (simp add: batches_step)
  qed
qed

lemma sizes_batches:
  "0 < n \<Longrightarrow>
   map length (batches n xs) =
     replicate (length xs div n) n @ (if length xs mod n = 0 then [] else [length xs mod n])"
proof (induction n xs rule: batches.induct)
  case (1 n xs)
  show ?case
  proof (cases "xs = []")
    case True
    then show ?thesis by simp
  next
    case False
    with 1 have ih: "map length (batches n (drop n xs)) =
       replicate (length (drop n xs) div n) n @
       (if length (drop n xs) mod n = 0 then [] else [length (drop n xs) mod n])"
      by simp
    have bs: "batches n xs = take n xs # batches n (drop n xs)"
      using False 1 by (simp add: batches_step)
    show ?thesis
    proof (cases "n \<le> length xs")
      case True
      then have "length xs div n = Suc ((length xs - n) div n)"
        using 1(2) by (simp add: le_div_geq)
      moreover have "length xs mod n = (length xs - n) mod n"
        using True by (simp add: le_mod_geq)
      ultimately show ?thesis using True ih bs by simp
    next
      case False
      then have "length xs div n = 0" "length xs mod n = length xs" "drop n xs = []"
        by simp_all
      with False \<open>xs \<noteq> []\<close> bs show ?thesis by simp
    qed
  qed
qed

lemma delays_separated:
  "length (filter is_delay (separated (Delay d) (map Batch bs))) = length bs - 1"
  by (induction bs rule: induct_list012) simp_all

lemma batches_separated:
  "filter (\<lambda>e. \<not> is_delay e) (separated (Delay d) (map Batch bs)) = map Batch bs"
  by (induction bs rule: induct_list012) simp_all

lemma separated_empty: "separated s xs = [] \<longleftrightarrow> xs = []"
  by (induction xs rule: induct_list012) simp_all

lemma last_separated:
  "bs \<noteq> [] \<Longrightarrow> last (separated (Delay d) (map Batch bs)) = Batch (last bs)"
  by (induction bs rule: induct_list012) (simp_all add: separated_empty)

lemma sendBulkEmails_apply:
  assumes ne: "bd_recipients data \<noteq> []" and b: "1 \<le> nullish (bd_batchSize data) 10"
  shows "\<exists>w'. sendBulkEmails deliver data smtpConfigId w =
     Some (Inr \<lparr>br_success = (bulk_sent deliver data smtpConfigId w (bd_recipients data) > 0),
                br_totalSent = bulk_sent deliver data smtpConfigId w (bd_recipients data),
                br_totalFailed = length (bulk_failures deliver data smtpConfigId w (bd_recipients data)),
                br_failures = (if bulk_failures deliver data smtpConfigId w (bd_recipients data) = []
                               then None
                               else Some (bulk_failures deliver data smtpConfigId w (bd_recipients data))),
                br_message = Some (''Successfully sent '' @
                   show_nat (bulk_sent deliver data smtpConfigId w (bd_recipients data)) @
                   '' out of '' @ show_nat (length (bd_recipients data)) @ '' emails'')\<rparr>, w') \<and>
     store w' = store w \<and>
     timeline w' = timeline w @
       separated (Delay (nullish (bd_delayBetweenBatches data) 1000))
         (map Batch (batches (nat (nullish (bd_batchSize data) 10)) (bd_recipients data))) \<and>
     (log_ok w \<longrightarrow> log_ok w' \<and> logged w w' (bd_recipients data))"
proof -
  from bulk_loop_apply [OF b, of 0 w w deliver data smtpConfigId
      "nullish (bd_delayBetweenBatches data) 1000" "([], 0)"]
  obtain w' where l: "bulk_loop deliver data smtpConfigId (nullish (bd_batchSize data) 10)
        (nullish (bd_delayBetweenBatches data) 1000) 0 ([], 0) w =
      Some (Inr (bulk_failures deliver data smtpConfigId w (bd_recipients data),
                 bulk_sent deliver data smtpConfigId w (bd_recipients data)), w')"
    and r: "store w' = store w"
      "timeline w' = timeline w @
       separated (Delay (nullish (bd_delayBetweenBatches data) 1000))
         (map Batch (batches (nat (nullish (bd_batchSize data) 10)) (bd_recipients data)))"
      "log_ok w \<longrightarrow> log_ok w' \<and> logged w w' (bd_recipients data)"
    by auto
  have "sendBulkEmails deliver data smtpConfigId w =
     Some (Inr \<lparr>br_success = (bulk_sent deliver data smtpConfigId w (bd_recipients data) > 0),
                br_totalSent = bulk_sent deliver data smtpConfigId w (bd_recipients data),
                br_totalFailed = length (bulk_failures deliver data smtpConfigId w (bd_recipients data)),
                br_failures = (if bulk_failures deliver data smtpConfigId w (bd_recipients data) = []
                               then None
                               else Some (bulk_failures deliver data smtpConfigId w (bd_recipients data))),
                br_message = Some (''Successfully sent '' @
                   show_nat (bulk_sent deliver data smtpConfigId w (bd_recipients data)) @
                   '' out of '' @ show_nat (length (bd_recipients data)) @ '' emails'')\<rparr>, w')"
    using ne by (simp add: sendBulkEmails_def Let_def l)
  with r show ?thesis by blast
qed

lemma sendBulkEmails_no_throw:
  "sendBulkEmails deliver data smtpConfigId w \<noteq> Some (Inl error, w')"
  by (simp add: sendBulkEmails_def Let_def split: option.splits prod.splits sum.splits)

lemma sendBulkEmails_result:
  assumes ne: "bd_recipients data \<noteq> []" and b: "1 \<le> nullish (bd_batchSize data) 10"
  shows "\<exists>result w'. sendBulkEmails deliver data smtpConfigId w = Some (Inr result, w') \<and>
     br_success result = (bulk_sent deliver data smtpConfigId w (bd_recipients data) > 0) \<and>
     br_totalSent result = bulk_sent deliver data smtpConfigId w (bd_recipients data) \<and>
     br_totalFailed result = length (bulk_failures deliver data smtpConfigId w (bd_recipients data)) \<and>
     br_failures result = (if bulk_failures deliver data smtpConfigId w (bd_recipients data) = []
                           then None
                           else Some (bulk_failures deliver data smtpConfigId w (bd_recipients data))) \<and>
     timeline w' = timeline w @
       separated (Delay (nullish (bd_delayBetweenBatches data) 1000))
         (map Batch (batches (nat (nullish (bd_batchSize data) 10)) (bd_recipients data))) \<and>
     (log_ok w \<longrightarrow> log_ok w' \<and> logged w w' (bd_recipients data))"
proof -
  from sendBulkEmails_apply [OF ne b, of deliver smtpConfigId w] obtain w' where
    s: "sendBulkEmails deliver data smtpConfigId w =
     Some (Inr \<lparr>br_success = (bulk_sent deliver data smtpConfigId w (bd_recipients data) > 0),
                br_totalSent = bulk_sent deliver data smtpConfigId w (bd_recipients data),
                br_totalFailed = length (bulk_failures deliver data smtpConfigId w (bd_recipients data)),
                br_failures = (if bulk_failures deliver data smtpConfigId w (bd_recipients data) = []
                               then None
                               else Some (bulk_failures deliver data smtpConfigId w (bd_recipients data))),
                br_message = Some (''Successfully sent '' @
                   show_nat (bulk_sent deliver data smtpConfigId w (bd_recipients data)) @
                   '' out of '' @ show_nat (length (bd_recipients data)) @ '' emails'')\<rparr>, w')"
    and t: "timeline w' = timeline w @
       separated (Delay (nullish (bd_delayBetweenBatches data) 1000))
         (map Batch (batches (nat (nullish (bd_batchSize data) 10)) (bd_recipients data)))"
    and l: "log_ok w \<longrightarrow> log_ok w' \<and> logged w w' (bd_recipients data)"
    by (elim exE conjE)
  show ?thesis
    apply (rule exI, rule exI [of _ w'])
    apply (rule conjI, rule s)
    apply (simp only: BulkResult.simps)
    using t l apply simp
    done
qed

lemma throwing_delivery_fails:
  assumes "\<forall>transport options.
             mo_to options = Address (formatRecipient r) \<longrightarrow> isl (deliver transport options)"
  shows "\<not> sr_success (bulk_outcome deliver data smtpConfigId w r)"
proof -
  have "mo_to (mail_options c (bulk_emailData data r) s b) = Address (formatRecipient r)" for c s b
    by (simp add: mail_options_def bulk_emailData_def formatRecipients_def)
  with assms have i: "\<forall>c s b. isl (deliver c (mail_options c (bulk_emailData data r) s b))"
    by blast
  show ?thesis
  proof (cases "fst (createTransport smtpConfigId w)")
    case (Inl e)
    then show ?thesis
      by (simp add: bulk_outcome_def sendEmail_apply send_failed_def)
  next
    case (Inr c)
    from i obtain e where "deliver c (mail_options c (bulk_emailData data r)
        (fst (rendered (bulk_emailData data r) w)) (snd (rendered (bulk_emailData data r) w))) = Inl e"
      by (metis isl_def)
    with Inr show ?thesis
      by (simp add: bulk_outcome_def sendEmail_apply send_failed_def)
  qed
qed

lemma log_ok_fresh: "log_ok fresh_world"
  by (simp add: log_ok_def fresh_world_def)

lemma rendered_templated:
  "fst (rendered templated_email fresh_world) = ''Default Subject''"
  by (simp add: rendered_eq templated_email_def
      stored_templates_dir_of [OF fresh_world_fields(3)] DEFAULT_TEMPLATE_def)

text \<open>With a batch size below one the loop does not end.\<close>

lemma bulk_step_returns:
  "\<exists>acc' w'. bulk_step deliver data smtpConfigId b d i acc w = (Inr acc', w')"
proof -
  let ?batch = "js_slice (bd_recipients data) i (i + b)"
  let ?w1 = "w\<lparr>timeline := timeline w @ [Batch ?batch]\<rparr>"
  from send_batch_apply [OF refl, of deliver data smtpConfigId ?batch acc ?w1]
  obtain acc' w2 where "send_batch deliver data smtpConfigId ?batch acc ?w1 = (Inr acc', w2)"
    by blast
  then show ?thesis
    by (simp add: bulk_step_def io_bind_def dispatch_def sleep_def)
qed

lemma bulk_loop_never_ends:
  assumes "bulk_loop deliver data smtpConfigId b d i acc w = Some y"
  shows "\<not> (b \<le> 0 \<and> i < int (length (bd_recipients data)))"
proof (rule bulk_loop.raw_induct
    [where P = "\<lambda>deliver data smtpConfigId b d i acc w y.
                  \<not> (b \<le> 0 \<and> i < int (length (bd_recipients data)))", OF _ assms],
    goal_cases)
  case (1 f deliver data smtpConfigId b d i acc w y)
  show ?case
  proof
    assume a: "b \<le> 0 \<and> i < int (length (bd_recipients data))"
    from bulk_step_returns [of deliver data smtpConfigId b d i acc w]
    obtain acc' w' where s: "bulk_step deliver data smtpConfigId b d i acc w = (Inr acc', w')"
      by blast
    from 1(2) a s have "f deliver data smtpConfigId b d (i + b) acc' w' = Some y"
      by simp
    from 1(1) [OF this] a show False by simp
  qed
qed

lemma sendBulkEmails_never_ends:
  assumes "bd_recipients data \<noteq> []" and "nullish (bd_batchSize data) 10 \<le> 0"
  shows "sendBulkEmails deliver data smtpConfigId w = None"
proof -
  have "bulk_loop deliver data smtpConfigId (nullish (bd_batchSize data) 10)
          (nullish (bd_delayBetweenBatches data) 1000) 0 ([], 0) w = None"
  proof (cases "bulk_loop deliver data smtpConfigId (nullish (bd_batchSize data) 10)
          (nullish (bd_delayBetweenBatches data) 1000) 0 ([], 0) w")
    case None
    then show ?thesis .
  next
    case (Some y)
    from bulk_loop_never_ends [OF this] assms show ?thesis by simp
  qed
  with assms(1) show ?thesis
    by (simp add: sendBulkEmails_def)
qed

text \<open>The examples the theorems are tried on.\<close>

lemma transport_fresh: "\<exists>c. fst (createTransport None fresh_world) = Inr c"
  by (simp add: createTransport_apply getDefaultSmtpConfig_apply)

lemma outcome_ana:
  "bulk_outcome picky nameless_bulk None fresh_world ana =
     \<lparr>sr_success = True, sr_message = Some ''Message sent: <1@example.com>''\<rparr>"
proof -
  from transport_fresh obtain c where c: "fst (createTransport None fresh_world) = Inr c" ..
  have "mo_to (mail_options c (bulk_emailData nameless_bulk ana) s b) \<noteq> Address ''bo@example.com''"
    for s b
    by (simp add: mail_options_def bulk_emailData_def formatRecipients_def formatRecipient_def ana_def)
  then have "picky c (mail_options c (bulk_emailData nameless_bulk ana) s b) = Inr ''<1@example.com>''"
    for s b
    by (simp add: picky_def)
  then show ?thesis
    by (simp add: bulk_outcome_def sendEmail_apply c send_done_def)
qed

lemma formatRecipient_bo: "formatRecipient bo = ''bo@example.com''"
  by (simp add: formatRecipient_def bo_def)

lemma outcome_bo:
  "bulk_outcome picky nameless_bulk None fresh_world bo =
     \<lparr>sr_success = False, sr_message = Some ''Mailbox unavailable''\<rparr>"
proof -
  from transport_fresh obtain c where c: "fst (createTransport None fresh_world) = Inr c" ..
  have "mo_to (mail_options c (bulk_emailData nameless_bulk bo) s b) = Address ''bo@example.com''"
    for s b
    by (simp add: mail_options_def bulk_emailData_def formatRecipients_def formatRecipient_bo)
  then have "picky c (mail_options c (bulk_emailData nameless_bulk bo) s b) =
             Inl (Error ''Mailbox unavailable'')"
    for s b
    by (simp add: picky_def)
  then show ?thesis
    by (simp add: bulk_outcome_def sendEmail_apply c send_failed_def)
qed

lemma nameless_bulk_fields:
  "bd_recipients nameless_bulk = [ana, bo]" "bd_batchSize nameless_bulk = None"
  "bd_delayBetweenBatches nameless_bulk = None"
  by (simp_all add: nameless_bulk_def)

lemma ana_not_bo: "ana \<noteq> bo"
  by (simp add: ana_def bo_def)

text \<open>The entries \<open>sendEmail\<close> appends.\<close>

lemma sendEmail_entries:
  assumes "log_ok w"
  shows "\<exists>result w' new.
     sendEmail deliver data smtpConfigId w = (Inr result, w') \<and>
     log_entries w' = log_entries w @ new \<and>
     map le_recipient new = map er_email (recipients_of (ed_to data)) \<and>
     map le_success new = map (\<lambda>r. sr_success result) (recipients_of (ed_to data)) \<and>
     map le_subject new =
       map (\<lambda>r. if sr_success result then fst (rendered data w) else ed_subject data)
         (recipients_of (ed_to data)) \<and>
     (sr_success result \<longrightarrow>
        (\<exists>smtpConfig messageId.
            deliver smtpConfig (mail_options smtpConfig data (fst (rendered data w)) (snd (rendered data w)))
              = Inr messageId \<and>
            mo_subject (mail_options smtpConfig data (fst (rendered data w)) (snd (rendered data w)))
              = fst (rendered data w)))"
proof -
  have failed: ?thesis
    if s: "sendEmail deliver data smtpConfigId w = send_failed smtpConfigId data error w" for error
  proof -
    let ?new = "map (failed_entry smtpConfigId data error (clock w)) (recipients_of (ed_to data))"
    let ?result = "\<lparr>sr_success = False,
                    sr_message = Some (error_message error ''Unknown error sending email'')\<rparr>"
    have b: "sendEmail deliver data smtpConfigId w =
               (Inr ?result, snd (send_failed smtpConfigId data error w))"
      by (simp add: s send_failed_def)
    show ?thesis
      apply (rule exI [of _ ?result], rule exI [of _ "snd (send_failed smtpConfigId data error w)"],
          rule exI [of _ ?new])
      apply (intro conjI)
           apply (rule b)
          apply (rule send_failed_log [OF assms])
         apply (simp add: failed_entry_def comp_def)
        apply (simp add: failed_entry_def comp_def)
       apply (simp add: failed_entry_def comp_def)
      apply simp
      done
  qed
  show ?thesis
  proof (cases "fst (createTransport smtpConfigId w)")
    case (Inl error)
    then have "sendEmail deliver data smtpConfigId w = send_failed smtpConfigId data error w"
      by (simp add: sendEmail_apply)
    then show ?thesis by (rule failed)
  next
    case (Inr smtpConfig)
    show ?thesis
    proof (cases "deliver smtpConfig
        (mail_options smtpConfig data (fst (rendered data w)) (snd (rendered data w)))")
      case (Inl error)
      with Inr have "sendEmail deliver data smtpConfigId w = send_failed smtpConfigId data error w"
        by (simp add: sendEmail_apply)
      then show ?thesis by (rule failed)
    next
      case d: (Inr messageId)
      let ?new = "map (sent_entry smtpConfig data (fst (rendered data w)) messageId (clock w))
                    (recipients_of (ed_to data))"
      let ?result = "\<lparr>sr_success = True, sr_message = Some (''Message sent: '' @ messageId)\<rparr>"
      from Inr d have s: "sendEmail deliver data smtpConfigId w = send_done smtpConfig data messageId w"
        by (simp add: sendEmail_apply)
      have b: "sendEmail deliver data smtpConfigId w =
               (Inr ?result, snd (send_done smtpConfig data messageId w))"
        by (simp add: s send_done_def)
      show ?thesis
        apply (rule exI [of _ ?result], rule exI [of _ "snd (send_done smtpConfig data messageId w)"],
            rule exI [of _ ?new])
        apply (intro conjI)
             apply (rule b)
            apply (rule send_done_log [OF assms])
           apply (simp add: sent_entry_def comp_def)
          apply (simp add: sent_entry_def comp_def)
         apply (simp add: sent_entry_def comp_def)
        using d apply (auto simp: mail_options_def)
        done
    qed
  qed
qed

text \<open>A bulk send renders the selected template with the data of each recipient.\<close>

lemma rendered_template:
  assumes "template_of (ed_templateId data) w = Some t"
  shows "rendered data w =
           (processTemplate (et_subject t) (nullish (ed_templateData data) Map.empty),
            processTemplate (et_body t) (nullish (ed_templateData data) Map.empty))"
  using assms
  by (auto simp: template_of_def rendered_eq getDefaultEmailTemplate_apply split: if_splits)

lemma sendEmail_delivered:
  "\<exists>result w'. sendEmail deliver data smtpConfigId w = (Inr result, w') \<and>
     sr_success result =
       delivered deliver smtpConfigId w data (fst (rendered data w)) (snd (rendered data w))"
proof (cases "fst (createTransport smtpConfigId w)")
  case (Inl error)
  then show ?thesis
    by (simp add: sendEmail_apply send_failed_def delivered_def)
next
  case (Inr transport)
  show ?thesis
  proof (cases "deliver transport
      (mail_options transport data (fst (rendered data w)) (snd (rendered data w)))")
    case (Inl error)
    with Inr show ?thesis
      by (simp add: sendEmail_apply send_failed_def delivered_def)
  next
    case d: (Inr messageId)
    with Inr show ?thesis
      by (simp add: sendEmail_apply send_done_def delivered_def)
  qed
qed

lemma bulk_outcome_delivered:
  "sr_success (bulk_outcome deliver data smtpConfigId w r) =
     delivered deliver smtpConfigId w (bulk_emailData data r)
       (fst (rendered (bulk_emailData data r) w)) (snd (rendered (bulk_emailData data r) w))"
  using sendEmail_delivered [of deliver "bulk_emailData data r" smtpConfigId w]
  by (auto simp: bulk_outcome_def)

lemma recipient_data_eq:
  "recipient_data data r =
     (nullish (bd_templateData data) Map.empty)
       (''email'' \<mapsto> JString (er_email r), ''name'' \<mapsto> JString (or_else (er_name r) []))"
  by (simp add: recipient_data_def bulk_emailData_def)

lemma token_name:
  "processTemplate (''{{name}}'' @ s) d = replace_match d ''name'' @ processTemplate s d"
  using processTemplate_token [of "''name''" s d] by simp

lemma js_trim_name: "js_trim ''name'' = ''name''"
  by (simp add: js_trim_def js_space_def)

lemma inherited_name: "\<not> inherited ''name''"
  by (simp add: inherited_def)

lemma template_of_fresh:
  "template_of (bd_templateId nameless_bulk) fresh_world = Some DEFAULT_TEMPLATE"
  by (simp add: template_of_def nameless_bulk_def getDefaultEmailTemplate_apply
      stored_templates_dir_of [OF fresh_world_fields(3)] DEFAULT_TEMPLATE_def)

lemma default_body:
  "et_body DEFAULT_TEMPLATE =
     ''Hello '' @ ''{{name}}'' @
     '',\<newline>\<newline>This is a default email template.\<newline>\<newline>Best regards,\<newline>The Team''"
  by (simp add: DEFAULT_TEMPLATE_def)

lemma default_tail:
  "processTemplate
     '',\<newline>\<newline>This is a default email template.\<newline>\<newline>Best regards,\<newline>The Team'' d =
     '',\<newline>\<newline>This is a default email template.\<newline>\<newline>Best regards,\<newline>The Team''"
  using processTemplate_plain
    [of "'',\<newline>\<newline>This is a default email template.\<newline>\<newline>Best regards,\<newline>The Team''" "[]" d]
  by simp

lemma body_ana:
  "processTemplate (et_body DEFAULT_TEMPLATE) (recipient_data nameless_bulk ana) =
     ''Hello Ana,\<newline>\<newline>This is a default email template.\<newline>\<newline>Best regards,\<newline>The Team''"
proof -
  have "processTemplate (''Hello '' @ ''{{name}}'' @
      '',\<newline>\<newline>This is a default email template.\<newline>\<newline>Best regards,\<newline>The Team'')
      (recipient_data nameless_bulk ana) =
    ''Hello '' @ processTemplate (''{{name}}'' @
      '',\<newline>\<newline>This is a default email template.\<newline>\<newline>Best regards,\<newline>The Team'')
      (recipient_data nameless_bulk ana)"
    by (rule processTemplate_plain) simp
  also have "processTemplate (''{{name}}'' @
      '',\<newline>\<newline>This is a default email template.\<newline>\<newline>Best regards,\<newline>The Team'')
      (recipient_data nameless_bulk ana) =
    replace_match (recipient_data nameless_bulk ana) ''name'' @ processTemplate
      '',\<newline>\<newline>This is a default email template.\<newline>\<newline>Best regards,\<newline>The Team''
      (recipient_data nameless_bulk ana)"
    by (rule token_name)
  also have "replace_match (recipient_data nameless_bulk ana) ''name'' = ''Ana''"
    by (simp add: replace_match_def js_get_def js_trim_name recipient_data_eq or_else_def ana_def)
  finally show ?thesis
    by (simp only: default_body default_tail) simp
qed

lemma delivered_exacting:
  "delivered exacting None fresh_world data subject body =
     (body = ''Hello ,\<newline>\<newline>This is a default email template.\<newline>\<newline>Best regards,\<newline>The Team'')"
proof -
  from transport_fresh obtain c where c: "fst (createTransport None fresh_world) = Inr c" ..
  show ?thesis
    by (simp add: delivered_def c exacting_def mail_options_def)
qed


section \<open>The send pipeline: the properties claimed\<close>

text \<open>
  C2, as the code has it. With a log document that can be read and written,
  \<open>sendEmail\<close> appends exactly one entry for each recipient of \<open>data.to\<close>, in order, on
  both paths. On the success path the entries carry the final subject, the one
  \<open>generateEmailContent\<close> returned and the envelope was sent with; on the failure path
  they carry \<open>data.subject\<close> as the caller gave it. A bulk send with batches of one
  recipient, whose sends do not overlap, appends one entry for each of its recipients,
  in order.
\<close>

theorem send_log_entries:
  assumes "log_ok w"
  shows "(\<exists>result w' new.
     sendEmail deliver data smtpConfigId w = (Inr result, w') \<and>
     log_entries w' = log_entries w @ new \<and>
     map le_recipient new = map er_email (recipients_of (ed_to data)) \<and>
     map le_success new = map (\<lambda>r. sr_success result) (recipients_of (ed_to data)) \<and>
     map le_subject new =
       map (\<lambda>r. if sr_success result then fst (rendered data w) else ed_subject data)
         (recipients_of (ed_to data)) \<and>
     (sr_success result \<longrightarrow>
        (\<exists>smtpConfig messageId.
            deliver smtpConfig (mail_options smtpConfig data (fst (rendered data w)) (snd (rendered data w)))
              = Inr messageId \<and>
            mo_subject (mail_options smtpConfig data (fst (rendered data w)) (snd (rendered data w)))
              = fst (rendered data w)))) \<and>
   (bd_recipients bulk \<noteq> [] \<and> bd_batchSize bulk = Some 1 \<longrightarrow>
      (\<exists>result w' new.
         sendBulkEmails deliver bulk smtpConfigId w = Some (Inr result, w') \<and>
         log_entries w' = log_entries w @ new \<and>
         map le_recipient new = map er_email (bd_recipients bulk)))"
proof (intro conjI impI)
  show "\<exists>result w' new.
     sendEmail deliver data smtpConfigId w = (Inr result, w') \<and>
     log_entries w' = log_entries w @ new \<and>
     map le_recipient new = map er_email (recipients_of (ed_to data)) \<and>
     map le_success new = map (\<lambda>r. sr_success result) (recipients_of (ed_to data)) \<and>
     map le_subject new =
       map (\<lambda>r. if sr_success result then fst (rendered data w) else ed_subject data)
         (recipients_of (ed_to data)) \<and>
     (sr_success result \<longrightarrow>
        (\<exists>smtpConfig messageId.
            deliver smtpConfig (mail_options smtpConfig data (fst (rendered data w)) (snd (rendered data w)))
              = Inr messageId \<and>
            mo_subject (mail_options smtpConfig data (fst (rendered data w)) (snd (rendered data w)))
              = fst (rendered data w)))"
    by (rule sendEmail_entries [OF assms])
next
  assume a: "bd_recipients bulk \<noteq> [] \<and> bd_batchSize bulk = Some 1"
  then have ne: "bd_recipients bulk \<noteq> []" and b: "1 \<le> nullish (bd_batchSize bulk) 10"
    by (simp_all add: nullish_def)
  from sendBulkEmails_result [OF ne b, of deliver smtpConfigId w] assms obtain result w'
    where s: "sendBulkEmails deliver bulk smtpConfigId w = Some (Inr result, w')"
      and l: "logged w w' (bd_recipients bulk)"
    by blast
  from loggedD [OF l] obtain new
    where "log_entries w' = log_entries w @ new"
      and "map le_recipient new = map er_email (bd_recipients bulk)"
    by blast
  with s show "\<exists>result w' new.
         sendBulkEmails deliver bulk smtpConfigId w = Some (Inr result, w') \<and>
         log_entries w' = log_entries w @ new \<and>
         map le_recipient new = map er_email (bd_recipients bulk)"
    by blast
qed

theorem send_log_entries_witness:
  "log_ok fresh_world \<and> bd_recipients one_by_one \<noteq> [] \<and> bd_batchSize one_by_one = Some 1 \<and>
   (\<exists>result w' new.
      sendEmail accepting templated_email None fresh_world = (Inr result, w') \<and>
      log_entries w' = new \<and>
      map le_recipient new = [''ana@example.com'', ''bo@example.com''] \<and>
      map le_success new = [sr_success result, sr_success result]) \<and>
   (\<exists>result w' new.
      sendBulkEmails accepting one_by_one None fresh_world = Some (Inr result, w') \<and>
      log_entries w' = new \<and>
      map le_recipient new = [''ana@example.com'', ''bo@example.com''])"
proof -
  note T = send_log_entries [OF log_ok_fresh, of accepting templated_email None one_by_one]
  from T [THEN conjunct1]
  obtain result w' new
    where s: "sendEmail accepting templated_email None fresh_world = (Inr result, w')"
      and l: "log_entries w' = log_entries fresh_world @ new"
      and r: "map le_recipient new = map er_email (recipients_of (ed_to templated_email))"
      and u: "map le_success new = map (\<lambda>r. sr_success result) (recipients_of (ed_to templated_email))"
    by (elim exE conjE)
  have e: "log_entries fresh_world = []"
    by (simp add: log_entries_def fresh_world_fields)
  have t: "recipients_of (ed_to templated_email) = [ana, bo]"
    by (simp add: recipients_of_def templated_email_def)
  have ne: "bd_recipients one_by_one \<noteq> []" and b: "bd_batchSize one_by_one = Some 1"
    and rs: "bd_recipients one_by_one = [ana, bo]"
    by (simp_all add: one_by_one_def nameless_bulk_fields)
  from T [THEN conjunct2] ne b obtain result2 w2 new2
    where s2: "sendBulkEmails accepting one_by_one None fresh_world = Some (Inr result2, w2)"
      and l2: "log_entries w2 = log_entries fresh_world @ new2"
      and r2: "map le_recipient new2 = map er_email (bd_recipients one_by_one)"
    by blast
  have 1: "\<exists>result w' new.
      sendEmail accepting templated_email None fresh_world = (Inr result, w') \<and>
      log_entries w' = new \<and>
      map le_recipient new = [''ana@example.com'', ''bo@example.com''] \<and>
      map le_success new = [sr_success result, sr_success result]"
    apply (rule exI [of _ result], rule exI [of _ w'], rule exI [of _ new])
    using s l r u apply (simp add: e t ana_def bo_def)
    done
  have 2: "\<exists>result w' new.
      sendBulkEmails accepting one_by_one None fresh_world = Some (Inr result, w') \<and>
      log_entries w' = new \<and>
      map le_recipient new = [''ana@example.com'', ''bo@example.com'']"
    apply (rule exI [of _ result2], rule exI [of _ w2], rule exI [of _ new2])
    using s2 l2 r2 apply (simp add: e rs ana_def bo_def)
    done
  from log_ok_fresh ne b 1 2 show ?thesis by (intro conjI)
qed

text \<open>
  The claim as the specification states it fails on the failure path: a send with the
  built-in template, whose final subject is \<open>Default Subject\<close>, that the delivery
  refuses is logged with the subject the caller passed.
\<close>

theorem failure_logs_caller_subject:
  "fst (rendered templated_email fresh_world) = ''Default Subject'' \<and>
   fst (sendEmail refusing templated_email None fresh_world) =
     Inr \<lparr>sr_success = False, sr_message = Some ''Connection refused''\<rparr> \<and>
   map le_subject (log_entries (snd (sendEmail refusing templated_email None fresh_world))) =
     [''Hello'', ''Hello'']"
proof -
  have c: "\<exists>c. fst (createTransport None fresh_world) = Inr c"
    by (simp add: createTransport_apply getDefaultSmtpConfig_apply)
  then obtain c where c: "fst (createTransport None fresh_world) = Inr c" ..
  have s: "sendEmail refusing templated_email None fresh_world =
           send_failed None templated_email (Error ''Connection refused'') fresh_world"
    by (simp add: sendEmail_apply c refusing_def)
  have l: "log_entries (snd (send_failed None templated_email (Error ''Connection refused'') fresh_world)) =
           log_entries fresh_world @
             map (failed_entry None templated_email (Error ''Connection refused'') (clock fresh_world))
               (recipients_of (ed_to templated_email))"
    by (rule send_failed_log [OF log_ok_fresh])
  have 1: "fst (send_failed None templated_email (Error ''Connection refused'') fresh_world) =
     Inr \<lparr>sr_success = False, sr_message = Some ''Connection refused''\<rparr>"
    by (simp add: send_failed_def)
  have 2: "map le_subject (log_entries fresh_world @
             map (failed_entry None templated_email (Error ''Connection refused'') (clock fresh_world))
               (recipients_of (ed_to templated_email))) = [''Hello'', ''Hello'']"
    by (simp add: failed_entry_def recipients_of_def templated_email_def comp_def log_entries_def
        fresh_world_fields)
  show ?thesis
    unfolding s l using rendered_templated 1 2 by (intro conjI)
qed

text \<open>
  C3. A bulk send to \<open>N \<ge> 1\<close> recipients with batch size \<open>B \<ge> 1\<close> dispatches the
  contiguous batches of the list, \<open>ceil(N/B)\<close> of them, all of size \<open>B\<close> but a
  shorter last one when \<open>B\<close> does not divide \<open>N\<close>, and waits \<open>delayBetweenBatches\<close>
  between two batches and nowhere else: \<open>ceil(N/B) - 1\<close> delays, and the last event is
  a batch. For 25 recipients and batches of 10 the sizes are 10, 10, 5 with 2 delays.
\<close>

theorem bulk_batches_and_delays:
  fixes data :: BulkEmailData
  defines "rs \<equiv> bd_recipients data"
    and "B \<equiv> nat (nullish (bd_batchSize data) 10)"
    and "d \<equiv> nullish (bd_delayBetweenBatches data) 1000"
  assumes "rs \<noteq> []" and "1 \<le> nullish (bd_batchSize data) 10"
  shows "\<exists>result w'.
     sendBulkEmails deliver data smtpConfigId w = Some (Inr result, w') \<and>
     timeline w' = timeline w @ separated (Delay d) (map Batch (batches B rs)) \<and>
     concat (batches B rs) = rs \<and>
     length (batches B rs) = (length rs + B - 1) div B \<and>
     map length (batches B rs) =
       replicate (length rs div B) B @ (if length rs mod B = 0 then [] else [length rs mod B]) \<and>
     length (filter is_delay (separated (Delay d) (map Batch (batches B rs)))) =
       (length rs + B - 1) div B - 1 \<and>
     last (separated (Delay d) (map Batch (batches B rs))) = Batch (last (batches B rs)) \<and>
     (length rs = 25 \<and> B = 10 \<longrightarrow>
        map length (batches B rs) = [10, 10, 5] \<and>
        length (filter is_delay (separated (Delay d) (map Batch (batches B rs)))) = 2)"
proof -
  have B: "0 < B" using assms(5) by (simp add: B_def)
  from assms(4) have ne: "bd_recipients data \<noteq> []" by (simp add: rs_def)
  from sendBulkEmails_result [OF ne assms(5), of deliver smtpConfigId w] obtain result w'
    where s: "sendBulkEmails deliver data smtpConfigId w = Some (Inr result, w')"
      and t: "timeline w' = timeline w @ separated (Delay d) (map Batch (batches B rs))"
    unfolding rs_def B_def d_def by (elim exE conjE)
  have bne: "batches B rs \<noteq> []" using B assms(4) by (simp add: batches_empty)
  have sizes: "map length (batches B rs) =
       replicate (length rs div B) B @ (if length rs mod B = 0 then [] else [length rs mod B])"
    by (rule sizes_batches [OF B])
  have delays: "length (filter is_delay (separated (Delay d) (map Batch (batches B rs)))) =
       (length rs + B - 1) div B - 1"
    by (simp add: delays_separated length_batches [OF B])
  have ex: "length rs = 25 \<and> B = 10 \<longrightarrow>
        map length (batches B rs) = [10, 10, 5] \<and>
        length (filter is_delay (separated (Delay d) (map Batch (batches B rs)))) = 2"
  proof (intro impI, elim conjE)
    assume n: "length rs = 25" and b: "B = 10"
    show "map length (batches B rs) = [10, 10, 5] \<and>
        length (filter is_delay (separated (Delay d) (map Batch (batches B rs)))) = 2"
      using sizes delays unfolding n b by (simp add: numeral_2_eq_2)
  qed
  show ?thesis
    apply (rule exI [of _ result], rule exI [of _ w'])
    apply (intro conjI)
           apply (rule s)
          apply (rule t)
         apply (rule concat_batches [OF B])
        apply (rule length_batches [OF B])
       apply (rule sizes)
      apply (rule delays)
     apply (rule last_separated [OF bne])
    apply (rule ex)
    done
qed

theorem bulk_batches_and_delays_witness:
  "bd_recipients class_of_25 \<noteq> [] \<and> (1::int) \<le> nullish (bd_batchSize class_of_25) 10 \<and>
   (\<exists>result w'.
      sendBulkEmails accepting class_of_25 None fresh_world = Some (Inr result, w') \<and>
      length (filter is_delay (timeline w')) = 2) \<and>
   map length (batches 10 (bd_recipients class_of_25)) = [10, 10, 5]"
proof -
  have n: "length (bd_recipients class_of_25) = 25"
    by (simp add: class_of_25_def)
  then have ne: "bd_recipients class_of_25 \<noteq> []" by auto
  have bs: "nullish (bd_batchSize class_of_25) 10 = 10"
    by (simp add: class_of_25_def nullish_def)
  then have b: "(1::int) \<le> nullish (bd_batchSize class_of_25) 10" by simp
  have B: "nat (nullish (bd_batchSize class_of_25) 10) = 10"
    by (simp add: bs)
  have t0: "timeline fresh_world = []"
    by (simp add: fresh_world_def)
  from bulk_batches_and_delays [OF ne b, of accepting None fresh_world] obtain result w'
    where s: "sendBulkEmails accepting class_of_25 None fresh_world = Some (Inr result, w')"
      and t: "timeline w' = timeline fresh_world @
                separated (Delay (nullish (bd_delayBetweenBatches class_of_25) 1000))
                  (map Batch (batches 10 (bd_recipients class_of_25)))"
      and e: "length (bd_recipients class_of_25) = 25 \<and> (10::nat) = 10 \<longrightarrow>
        map length (batches 10 (bd_recipients class_of_25)) = [10, 10, 5] \<and>
        length (filter is_delay
           (separated (Delay (nullish (bd_delayBetweenBatches class_of_25) 1000))
              (map Batch (batches 10 (bd_recipients class_of_25))))) = 2"
    unfolding B by (elim exE conjE)
  from e n have 1: "map length (batches 10 (bd_recipients class_of_25)) = [10, 10, 5]"
    and 2: "length (filter is_delay
           (separated (Delay (nullish (bd_delayBetweenBatches class_of_25) 1000))
              (map Batch (batches 10 (bd_recipients class_of_25))))) = 2"
    by simp_all
  have 3: "length (filter is_delay (timeline w')) = 2"
    unfolding t t0 using 2 by simp
  from ne b s 3 1 show ?thesis by blast
qed

text \<open>
  C4. \<open>sendEmail\<close> always returns a result; the result is a success exactly when the
  configuration was resolved and the delivery collaborator returned, and a result that
  is not a success carries a message. \<open>sendBulkEmails\<close> never throws; with a batch size
  of at least one it returns, and a recipient for whom the delivery collaborator throws
  is in its \<open>failures\<close>.
\<close>

theorem sends_never_throw:
  "(\<exists>result w'. sendEmail deliver data smtpConfigId w = (Inr result, w') \<and>
       sr_success result =
         (\<exists>transport messageId.
             fst (createTransport smtpConfigId w) = Inr transport \<and>
             deliver transport
               (mail_options transport data (fst (rendered data w)) (snd (rendered data w))) =
             Inr messageId) \<and>
       (\<not> sr_success result \<longrightarrow> sr_message result \<noteq> None)) \<and>
   (\<forall>error w'. sendBulkEmails deliver bulk smtpConfigId w \<noteq> Some (Inl error, w')) \<and>
   (1 \<le> nullish (bd_batchSize bulk) 10 \<and> r \<in> set (bd_recipients bulk) \<and>
    (\<forall>transport options.
        mo_to options = Address (formatRecipient r) \<longrightarrow> isl (deliver transport options)) \<longrightarrow>
      (\<exists>result w' failures.
          sendBulkEmails deliver bulk smtpConfigId w = Some (Inr result, w') \<and>
          br_failures result = Some failures \<and>
          er_email r \<in> set (map bf_email failures) \<and>
          0 < br_totalFailed result))"
proof (intro conjI allI impI)
  show "\<exists>result w'. sendEmail deliver data smtpConfigId w = (Inr result, w') \<and>
       sr_success result =
         (\<exists>transport messageId.
             fst (createTransport smtpConfigId w) = Inr transport \<and>
             deliver transport
               (mail_options transport data (fst (rendered data w)) (snd (rendered data w))) =
             Inr messageId) \<and>
       (\<not> sr_success result \<longrightarrow> sr_message result \<noteq> None)"
  proof (cases "fst (createTransport smtpConfigId w)")
    case (Inl error)
    then show ?thesis
      by (simp add: sendEmail_apply send_failed_def)
  next
    case (Inr transport)
    show ?thesis
    proof (cases "deliver transport
        (mail_options transport data (fst (rendered data w)) (snd (rendered data w)))")
      case (Inl error)
      with Inr show ?thesis
        by (simp add: sendEmail_apply send_failed_def)
    next
      case d: (Inr messageId)
      with Inr show ?thesis
        by (simp add: sendEmail_apply send_done_def)
    qed
  qed
next
  fix error w'
  show "sendBulkEmails deliver bulk smtpConfigId w \<noteq> Some (Inl error, w')"
    by (rule sendBulkEmails_no_throw)
next
  assume a: "1 \<le> nullish (bd_batchSize bulk) 10 \<and> r \<in> set (bd_recipients bulk) \<and>
    (\<forall>transport options.
        mo_to options = Address (formatRecipient r) \<longrightarrow> isl (deliver transport options))"
  then have b: "1 \<le> nullish (bd_batchSize bulk) 10" and rin: "r \<in> set (bd_recipients bulk)"
    and th: "\<forall>transport options.
        mo_to options = Address (formatRecipient r) \<longrightarrow> isl (deliver transport options)"
    by simp_all
  from rin have ne: "bd_recipients bulk \<noteq> []" by auto
  let ?fs = "bulk_failures deliver bulk smtpConfigId w (bd_recipients bulk)"
  have f: "\<not> sr_success (bulk_outcome deliver bulk smtpConfigId w r)"
    by (rule throwing_delivery_fails [OF th])
  with rin have "bulk_failure deliver bulk smtpConfigId w r \<in> set ?fs"
    by (simp add: bulk_failures_def)
  then have m: "er_email r \<in> set (map bf_email ?fs)" and nn: "?fs \<noteq> []"
    by (force simp: bulk_failure_def)+
  from sendBulkEmails_result [OF ne b, of deliver smtpConfigId w] obtain result w'
    where s: "sendBulkEmails deliver bulk smtpConfigId w = Some (Inr result, w')"
      and t: "br_totalFailed result = length ?fs"
      and u: "br_failures result = (if ?fs = [] then None else Some ?fs)"
    by (elim exE conjE)
  from nn have "0 < length ?fs" by simp
  with s t u m nn show "\<exists>result w' failures.
          sendBulkEmails deliver bulk smtpConfigId w = Some (Inr result, w') \<and>
          br_failures result = Some failures \<and>
          er_email r \<in> set (map bf_email failures) \<and>
          0 < br_totalFailed result"
    by (intro exI [of _ result] exI [of _ w'] exI [of _ ?fs]) simp
qed

theorem sends_never_throw_witness:
  "(\<exists>result w'. sendEmail picky templated_email None fresh_world = (Inr result, w')) \<and>
   (\<exists>result w' failures.
      sendBulkEmails picky nameless_bulk None fresh_world = Some (Inr result, w') \<and>
      br_failures result = Some failures \<and>
      ''bo@example.com'' \<in> set (map bf_email failures))"
proof -
  note T = sends_never_throw [of picky templated_email None fresh_world nameless_bulk bo]
  have b: "(1::int) \<le> nullish (bd_batchSize nameless_bulk) 10"
    by (simp add: nameless_bulk_fields nullish_def)
  have r: "bo \<in> set (bd_recipients nameless_bulk)"
    by (simp add: nameless_bulk_fields)
  have th: "\<forall>transport options.
        mo_to options = Address (formatRecipient bo) \<longrightarrow> isl (picky transport options)"
    by (simp add: formatRecipient_bo picky_def)
  from T [THEN conjunct1] have 1: "\<exists>result w'. sendEmail picky templated_email None fresh_world = (Inr result, w')"
    by blast
  from T [THEN conjunct2, THEN conjunct2] b r th
  have "\<exists>result w' failures.
      sendBulkEmails picky nameless_bulk None fresh_world = Some (Inr result, w') \<and>
      br_failures result = Some failures \<and>
      er_email bo \<in> set (map bf_email failures) \<and> 0 < br_totalFailed result"
    by blast
  then have 2: "\<exists>result w' failures.
      sendBulkEmails picky nameless_bulk None fresh_world = Some (Inr result, w') \<and>
      br_failures result = Some failures \<and>
      ''bo@example.com'' \<in> set (map bf_email failures)"
    by (auto simp: bo_def)
  from 1 2 show ?thesis by (rule conjI)
qed

text \<open>
  C6. Whenever a bulk send to a non-empty list returns a result, its \<open>totalSent\<close> is the
  number of recipients whose \<open>sendEmail\<close> succeeds, its \<open>totalFailed\<close> the number of the
  others, \<open>failures\<close> holds, in some order, one \<^verbatim>\<open>{email, error}\<close> for each of the
  others (and is absent when there is none), and \<open>success\<close> is \<open>totalSent > 0\<close>: one
  success among failures is enough. With a batch size of at least one a result is
  returned.
\<close>

theorem bulk_result_counts:
  assumes "bd_recipients data \<noteq> []"
  shows "(\<forall>result w'.
       sendBulkEmails deliver data smtpConfigId w = Some (Inr result, w') \<longrightarrow>
       br_totalSent result =
         length (filter (\<lambda>r. sr_success (bulk_outcome deliver data smtpConfigId w r)) (bd_recipients data)) \<and>
       br_totalFailed result =
         length (filter (\<lambda>r. \<not> sr_success (bulk_outcome deliver data smtpConfigId w r)) (bd_recipients data)) \<and>
       mset (case br_failures result of None \<Rightarrow> [] | Some failures \<Rightarrow> failures) =
         mset (map (\<lambda>r. \<lparr>bf_email = er_email r,
                            bf_error = or_else (sr_message (bulk_outcome deliver data smtpConfigId w r))
                                         ''Unknown error''\<rparr>)
                (filter (\<lambda>r. \<not> sr_success (bulk_outcome deliver data smtpConfigId w r))
                   (bd_recipients data))) \<and>
       (br_failures result = None) =
         (\<forall>r\<in>set (bd_recipients data). sr_success (bulk_outcome deliver data smtpConfigId w r)) \<and>
       br_success result = (0 < br_totalSent result) \<and>
       ((\<exists>r\<in>set (bd_recipients data). sr_success (bulk_outcome deliver data smtpConfigId w r)) \<longrightarrow>
          br_success result)) \<and>
     (1 \<le> nullish (bd_batchSize data) 10 \<longrightarrow>
        (\<exists>result w'. sendBulkEmails deliver data smtpConfigId w = Some (Inr result, w')))"
proof (intro conjI allI impI)
  assume b: "1 \<le> nullish (bd_batchSize data) 10"
  from sendBulkEmails_result [OF assms b, of deliver smtpConfigId w]
  show "\<exists>result w'. sendBulkEmails deliver data smtpConfigId w = Some (Inr result, w')"
    by blast
next
  fix result w'
  assume s: "sendBulkEmails deliver data smtpConfigId w = Some (Inr result, w')"
  let ?ok = "\<lambda>r. sr_success (bulk_outcome deliver data smtpConfigId w r)"
  let ?fs = "bulk_failures deliver data smtpConfigId w (bd_recipients data)"
  have b: "1 \<le> nullish (bd_batchSize data) 10"
  proof (rule ccontr)
    assume "\<not> 1 \<le> nullish (bd_batchSize data) 10"
    then have "nullish (bd_batchSize data) 10 \<le> 0" by simp
    from sendBulkEmails_never_ends [OF assms this, of deliver smtpConfigId w] s
    show False by simp
  qed
  from sendBulkEmails_result [OF assms b, of deliver smtpConfigId w] s
  have r: "br_success result = (bulk_sent deliver data smtpConfigId w (bd_recipients data) > 0)"
        "br_totalSent result = bulk_sent deliver data smtpConfigId w (bd_recipients data)"
        "br_totalFailed result = length ?fs"
        "br_failures result = (if ?fs = [] then None else Some ?fs)"
    by auto
  have e: "(?fs = []) = (\<forall>r\<in>set (bd_recipients data). ?ok r)"
    by (simp add: bulk_failures_def filter_empty_conv)
  have p: "(0 < bulk_sent deliver data smtpConfigId w (bd_recipients data)) =
           (\<exists>r\<in>set (bd_recipients data). ?ok r)"
    by (auto simp: bulk_sent_def filter_empty_conv)
  have f: "?fs = map (\<lambda>r. \<lparr>bf_email = er_email r,
                            bf_error = or_else (sr_message (bulk_outcome deliver data smtpConfigId w r))
                                         ''Unknown error''\<rparr>)
                (filter (\<lambda>r. \<not> ?ok r) (bd_recipients data))"
    by (simp add: bulk_failures_def bulk_failure_def)
  show "br_totalSent result = length (filter ?ok (bd_recipients data))"
    by (simp add: r bulk_sent_def)
  show "br_totalFailed result = length (filter (\<lambda>r. \<not> ?ok r) (bd_recipients data))"
    by (simp add: r bulk_failures_def)
  show "mset (case br_failures result of None \<Rightarrow> [] | Some failures \<Rightarrow> failures) =
         mset (map (\<lambda>r. \<lparr>bf_email = er_email r,
                            bf_error = or_else (sr_message (bulk_outcome deliver data smtpConfigId w r))
                                         ''Unknown error''\<rparr>)
                (filter (\<lambda>r. \<not> ?ok r) (bd_recipients data)))"
    unfolding r(4) f [symmetric] by simp
  show "(br_failures result = None) = (\<forall>r\<in>set (bd_recipients data). ?ok r)"
    unfolding r(4) e [symmetric] by simp
  show "br_success result = (0 < br_totalSent result)"
    by (simp add: r)
  assume "\<exists>r\<in>set (bd_recipients data). ?ok r"
  then show "br_success result"
    by (simp add: r p)
qed

theorem bulk_result_counts_witness:
  "bd_recipients nameless_bulk \<noteq> [] \<and> (1::int) \<le> nullish (bd_batchSize nameless_bulk) 10 \<and>
   (\<exists>result w'.
      sendBulkEmails picky nameless_bulk None fresh_world = Some (Inr result, w') \<and>
      br_totalSent result = 1 \<and> br_totalFailed result = 1 \<and>
      br_failures result = Some [\<lparr>bf_email = ''bo@example.com'', bf_error = ''Mailbox unavailable''\<rparr>] \<and>
      br_success result)"
proof -
  have ne: "bd_recipients nameless_bulk \<noteq> []" and b: "(1::int) \<le> nullish (bd_batchSize nameless_bulk) 10"
    by (simp_all add: nameless_bulk_fields nullish_def)
  note T = bulk_result_counts [OF ne, of picky None fresh_world]
  from T [THEN conjunct2] b obtain result w'
    where s: "sendBulkEmails picky nameless_bulk None fresh_world = Some (Inr result, w')"
    by blast
  from T [THEN conjunct1] s
  have 1: "br_totalSent result =
       length (filter (\<lambda>r. sr_success (bulk_outcome picky nameless_bulk None fresh_world r))
                 (bd_recipients nameless_bulk))"
    and 2: "br_totalFailed result =
       length (filter (\<lambda>r. \<not> sr_success (bulk_outcome picky nameless_bulk None fresh_world r))
                 (bd_recipients nameless_bulk))"
    and 3: "mset (case br_failures result of None \<Rightarrow> [] | Some failures \<Rightarrow> failures) =
         mset (map (\<lambda>r. \<lparr>bf_email = er_email r,
                            bf_error = or_else (sr_message (bulk_outcome picky nameless_bulk None fresh_world r))
                                         ''Unknown error''\<rparr>)
                (filter (\<lambda>r. \<not> sr_success (bulk_outcome picky nameless_bulk None fresh_world r))
                   (bd_recipients nameless_bulk)))"
    and 4: "br_success result = (0 < br_totalSent result)"
    by blast+
  have 1: "br_totalSent result = 1"
    unfolding 1 by (simp add: nameless_bulk_fields outcome_ana outcome_bo)
  have 2: "br_totalFailed result = 1"
    unfolding 2 by (simp add: nameless_bulk_fields outcome_ana outcome_bo)
  have "mset (case br_failures result of None \<Rightarrow> [] | Some failures \<Rightarrow> failures) =
        mset [\<lparr>bf_email = ''bo@example.com'', bf_error = ''Mailbox unavailable''\<rparr>]"
    unfolding 3 by (simp add: nameless_bulk_fields outcome_ana outcome_bo or_else_def) (simp add: bo_def)
  then have 3: "br_failures result =
      Some [\<lparr>bf_email = ''bo@example.com'', bf_error = ''Mailbox unavailable''\<rparr>]"
    by (cases "br_failures result") (simp_all add: mset_single_iff_right)
  from 4 1 have 5: "br_success result" by simp
  from ne b s 1 2 3 5 show ?thesis by blast
qed

text \<open>
  C10. The template data of the call a bulk send makes for a recipient is the caller's
  template data with \<open>email\<close> and \<open>name\<close> set over it, \<open>name\<close> being the recipient's name,
  or the empty string when the recipient has none. When the send uses a template,
  \<open>sendEmail\<close> renders the subject and body of that template with this data and succeeds
  exactly when the delivery collaborator returns for the message so rendered, and the
  bulk send counts these successes. So a \<^verbatim>\<open>{{name}}\<close> placeholder of the template reaches
  a nameless recipient as the empty text, where without the key it would stay as it
  stands.
\<close>

theorem bulk_name_placeholder:
  assumes "bd_recipients data \<noteq> []" and "1 \<le> nullish (bd_batchSize data) 10"
    and "template_of (bd_templateId data) w = Some t"
  shows
   "(\<forall>r. ed_templateData (bulk_emailData data r) = Some (recipient_data data r) \<and>
         recipient_data data r ''name'' = Some (JString (case er_name r of None \<Rightarrow> [] | Some n \<Rightarrow> n)) \<and>
         recipient_data data r ''email'' = Some (JString (er_email r)) \<and>
         (\<forall>k. k \<noteq> ''name'' \<and> k \<noteq> ''email'' \<longrightarrow>
               recipient_data data r k =
                 (case bd_templateData data of None \<Rightarrow> None | Some given \<Rightarrow> given k)) \<and>
         rendered (bulk_emailData data r) w =
           (processTemplate (et_subject t) (recipient_data data r),
            processTemplate (et_body t) (recipient_data data r)) \<and>
         (\<exists>result w'.
             sendEmail deliver (bulk_emailData data r) smtpConfigId w = (Inr result, w') \<and>
             sr_success result =
               delivered deliver smtpConfigId w (bulk_emailData data r)
                 (processTemplate (et_subject t) (recipient_data data r))
                 (processTemplate (et_body t) (recipient_data data r))) \<and>
         ((er_name r = None \<or> er_name r = Some []) \<and> plain_text l \<longrightarrow>
            processTemplate (l @ ''{{name}}'' @ s) (recipient_data data r) =
              l @ processTemplate s (recipient_data data r))) \<and>
    (\<exists>result w'.
        sendBulkEmails deliver data smtpConfigId w = Some (Inr result, w') \<and>
        br_totalSent result =
          length (filter (\<lambda>r. delivered deliver smtpConfigId w (bulk_emailData data r)
                                  (processTemplate (et_subject t) (recipient_data data r))
                                  (processTemplate (et_body t) (recipient_data data r)))
                    (bd_recipients data))) \<and>
    (plain_text l \<longrightarrow>
       processTemplate (l @ ''{{name}}'' @ s) Map.empty = l @ ''{{name}}'' @ processTemplate s Map.empty)"
proof -
  have per_recipient: "ed_templateData (bulk_emailData data r) = Some (recipient_data data r) \<and>
         recipient_data data r ''name'' = Some (JString (case er_name r of None \<Rightarrow> [] | Some n \<Rightarrow> n)) \<and>
         recipient_data data r ''email'' = Some (JString (er_email r)) \<and>
         (\<forall>k. k \<noteq> ''name'' \<and> k \<noteq> ''email'' \<longrightarrow>
               recipient_data data r k =
                 (case bd_templateData data of None \<Rightarrow> None | Some given \<Rightarrow> given k)) \<and>
         rendered (bulk_emailData data r) w =
           (processTemplate (et_subject t) (recipient_data data r),
            processTemplate (et_body t) (recipient_data data r)) \<and>
         (\<exists>result w'.
             sendEmail deliver (bulk_emailData data r) smtpConfigId w = (Inr result, w') \<and>
             sr_success result =
               delivered deliver smtpConfigId w (bulk_emailData data r)
                 (processTemplate (et_subject t) (recipient_data data r))
                 (processTemplate (et_body t) (recipient_data data r))) \<and>
         ((er_name r = None \<or> er_name r = Some []) \<and> plain_text l \<longrightarrow>
            processTemplate (l @ ''{{name}}'' @ s) (recipient_data data r) =
              l @ processTemplate s (recipient_data data r))" for r
  proof (intro conjI)
    let ?d = "recipient_data data r"
    have n: "or_else (er_name r) [] = (case er_name r of None \<Rightarrow> [] | Some n \<Rightarrow> n)"
      by (simp add: or_else_def split: option.splits)
    have td: "ed_templateData (bulk_emailData data r) = Some ?d"
      by (simp add: recipient_data_def bulk_emailData_def)
    have tid: "ed_templateId (bulk_emailData data r) = bd_templateId data"
      by (simp add: bulk_emailData_def)
    have rd: "rendered (bulk_emailData data r) w =
             (processTemplate (et_subject t) ?d, processTemplate (et_body t) ?d)"
      using rendered_template [of "bulk_emailData data r" w t] assms(3)
      by (simp add: tid td nullish_def)
    show "ed_templateData (bulk_emailData data r) = Some ?d" by (rule td)
    show "?d ''name'' = Some (JString (case er_name r of None \<Rightarrow> [] | Some n \<Rightarrow> n))"
      by (simp add: recipient_data_eq n)
    show "?d ''email'' = Some (JString (er_email r))"
      by (simp add: recipient_data_eq)
    show "\<forall>k. k \<noteq> ''name'' \<and> k \<noteq> ''email'' \<longrightarrow>
                 ?d k = (case bd_templateData data of None \<Rightarrow> None | Some given \<Rightarrow> given k)"
      by (simp add: recipient_data_eq nullish_def split: option.splits)
    show "rendered (bulk_emailData data r) w =
             (processTemplate (et_subject t) ?d, processTemplate (et_body t) ?d)"
      by (rule rd)
    show "\<exists>result w'.
               sendEmail deliver (bulk_emailData data r) smtpConfigId w = (Inr result, w') \<and>
               sr_success result =
                 delivered deliver smtpConfigId w (bulk_emailData data r)
                   (processTemplate (et_subject t) ?d) (processTemplate (et_body t) ?d)"
      using sendEmail_delivered [of deliver "bulk_emailData data r" smtpConfigId w]
      by (simp add: rd)
    show "(er_name r = None \<or> er_name r = Some []) \<and> plain_text l \<longrightarrow>
              processTemplate (l @ ''{{name}}'' @ s) ?d = l @ processTemplate s ?d"
    proof
      assume a: "(er_name r = None \<or> er_name r = Some []) \<and> plain_text l"
      then have v: "?d ''name'' = Some (JString [])"
        by (auto simp: recipient_data_eq n)
      have rp: "replace_match ?d ''name'' = []"
        by (simp only: replace_match_render render_piece.simps js_trim_name v) simp
      from a have "processTemplate (l @ ''{{name}}'' @ s) ?d = l @ processTemplate (''{{name}}'' @ s) ?d"
        by (intro processTemplate_plain) simp
      also have "processTemplate (''{{name}}'' @ s) ?d = replace_match ?d ''name'' @ processTemplate s ?d"
        by (rule token_name)
      finally show "processTemplate (l @ ''{{name}}'' @ s) ?d = l @ processTemplate s ?d"
        by (simp only: rp append_Nil)
    qed
  qed
  have total: "\<exists>result w'.
        sendBulkEmails deliver data smtpConfigId w = Some (Inr result, w') \<and>
        br_totalSent result =
          length (filter (\<lambda>r. delivered deliver smtpConfigId w (bulk_emailData data r)
                                  (processTemplate (et_subject t) (recipient_data data r))
                                  (processTemplate (et_body t) (recipient_data data r)))
                    (bd_recipients data))"
  proof -
    let ?sent = "\<lambda>r. delivered deliver smtpConfigId w (bulk_emailData data r)
                                    (processTemplate (et_subject t) (recipient_data data r))
                                    (processTemplate (et_body t) (recipient_data data r))"
    have ok: "sr_success (bulk_outcome deliver data smtpConfigId w r) = ?sent r" for r
    proof -
      have "rendered (bulk_emailData data r) w =
             (processTemplate (et_subject t) (recipient_data data r),
              processTemplate (et_body t) (recipient_data data r))"
        using rendered_template [of "bulk_emailData data r" w t] assms(3)
        by (simp add: bulk_emailData_def recipient_data_def nullish_def)
      then show ?thesis
        by (simp add: bulk_outcome_delivered)
    qed
    from sendBulkEmails_result [OF assms(1,2), of deliver smtpConfigId w] obtain result w'
      where s: "sendBulkEmails deliver data smtpConfigId w = Some (Inr result, w')"
        and c: "br_totalSent result = bulk_sent deliver data smtpConfigId w (bd_recipients data)"
      by (elim exE conjE)
    have "br_totalSent result = length (filter ?sent (bd_recipients data))"
      by (simp add: c bulk_sent_def ok)
    with s show "\<exists>result w'.
          sendBulkEmails deliver data smtpConfigId w = Some (Inr result, w') \<and>
          br_totalSent result = length (filter ?sent (bd_recipients data))"
      by blast
  qed
  have verbatim: "plain_text l \<longrightarrow>
       processTemplate (l @ ''{{name}}'' @ s) Map.empty = l @ ''{{name}}'' @ processTemplate s Map.empty"
  proof
    assume "plain_text l"
    then have "processTemplate (l @ ''{{name}}'' @ s) Map.empty =
               l @ processTemplate (''{{name}}'' @ s) Map.empty"
      by (rule processTemplate_plain)
    also have "processTemplate (''{{name}}'' @ s) Map.empty =
               replace_match Map.empty ''name'' @ processTemplate s Map.empty"
      by (rule token_name)
    also have "replace_match Map.empty ''name'' = ''{{name}}''"
      by (simp add: replace_match_render js_trim_name inherited_name)
    finally show "processTemplate (l @ ''{{name}}'' @ s) Map.empty =
               l @ ''{{name}}'' @ processTemplate s Map.empty" .
  qed
  show ?thesis
    by (rule conjI [OF allI [OF per_recipient] conjI [OF total verbatim]])
qed

theorem bulk_name_placeholder_witness:
  "bd_recipients nameless_bulk \<noteq> [] \<and> (1::int) \<le> nullish (bd_batchSize nameless_bulk) 10 \<and>
   template_of (bd_templateId nameless_bulk) fresh_world = Some DEFAULT_TEMPLATE \<and>
   er_name bo = None \<and> plain_text ''Hello '' \<and>
   recipient_data nameless_bulk bo ''name'' = Some (JString []) \<and>
   snd (rendered (bulk_emailData nameless_bulk bo) fresh_world) =
     ''Hello ,\<newline>\<newline>This is a default email template.\<newline>\<newline>Best regards,\<newline>The Team'' \<and>
   snd (rendered (bulk_emailData nameless_bulk ana) fresh_world) =
     ''Hello Ana,\<newline>\<newline>This is a default email template.\<newline>\<newline>Best regards,\<newline>The Team'' \<and>
   (\<exists>result w'.
      sendBulkEmails exacting nameless_bulk None fresh_world = Some (Inr result, w') \<and>
      br_totalSent result = 1)"
proof -
  let ?tail = "'',\<newline>\<newline>This is a default email template.\<newline>\<newline>Best regards,\<newline>The Team''"
  have ne: "bd_recipients nameless_bulk \<noteq> []" and b: "(1::int) \<le> nullish (bd_batchSize nameless_bulk) 10"
    by (simp_all add: nameless_bulk_fields nullish_def)
  have n: "er_name bo = None" by (simp add: bo_def)
  have p: "plain_text ''Hello ''" by simp
  note T = bulk_name_placeholder [OF ne b template_of_fresh,
      where l = "''Hello ''" and s = ?tail and deliver = exacting and smtpConfigId = None]
  from T [THEN conjunct1] have R: "recipient_data nameless_bulk r ''name'' =
        Some (JString (case er_name r of None \<Rightarrow> [] | Some n \<Rightarrow> n)) \<and>
      rendered (bulk_emailData nameless_bulk r) fresh_world =
           (processTemplate (et_subject DEFAULT_TEMPLATE) (recipient_data nameless_bulk r),
            processTemplate (et_body DEFAULT_TEMPLATE) (recipient_data nameless_bulk r)) \<and>
      ((er_name r = None \<or> er_name r = Some []) \<and> plain_text ''Hello '' \<longrightarrow>
            processTemplate (''Hello '' @ ''{{name}}'' @ ?tail) (recipient_data nameless_bulk r) =
              ''Hello '' @ processTemplate ?tail (recipient_data nameless_bulk r))" for r
    by blast
  from R [of bo] n have 1: "recipient_data nameless_bulk bo ''name'' = Some (JString [])"
    by simp
  from R [of bo] n p have "processTemplate (et_body DEFAULT_TEMPLATE) (recipient_data nameless_bulk bo) =
      ''Hello '' @ processTemplate ?tail (recipient_data nameless_bulk bo)"
    by (simp only: default_body) blast
  then have body_bo: "processTemplate (et_body DEFAULT_TEMPLATE) (recipient_data nameless_bulk bo) =
      ''Hello ,\<newline>\<newline>This is a default email template.\<newline>\<newline>Best regards,\<newline>The Team''"
    by (simp only: default_tail) simp
  from R [of bo] have 2: "snd (rendered (bulk_emailData nameless_bulk bo) fresh_world) =
      ''Hello ,\<newline>\<newline>This is a default email template.\<newline>\<newline>Best regards,\<newline>The Team''"
    by (simp add: body_bo)
  from R [of ana] have 3: "snd (rendered (bulk_emailData nameless_bulk ana) fresh_world) =
      ''Hello Ana,\<newline>\<newline>This is a default email template.\<newline>\<newline>Best regards,\<newline>The Team''"
    by (simp add: body_ana)
  from T [THEN conjunct2, THEN conjunct1] obtain result w'
    where s: "sendBulkEmails exacting nameless_bulk None fresh_world = Some (Inr result, w')"
      and c: "br_totalSent result =
          length (filter (\<lambda>r. delivered exacting None fresh_world (bulk_emailData nameless_bulk r)
                                  (processTemplate (et_subject DEFAULT_TEMPLATE) (recipient_data nameless_bulk r))
                                  (processTemplate (et_body DEFAULT_TEMPLATE) (recipient_data nameless_bulk r)))
                    (bd_recipients nameless_bulk))"
    by (elim exE conjE)
  have 4: "br_totalSent result = 1"
    unfolding c delivered_exacting nameless_bulk_fields by (simp add: body_ana body_bo)
  from s 4 have 5: "\<exists>result w'.
      sendBulkEmails exacting nameless_bulk None fresh_world = Some (Inr result, w') \<and>
      br_totalSent result = 1"
    by blast
  from ne b template_of_fresh n p 1 2 3 5 show ?thesis by (intro conjI)
qed


end
